theory Spec2Isabelle
  imports Complex_Main "HOL-Library.Multiset" "HOL-Library.Sublist"
begin

section \<open>Python values used by the three scripts\<close>

text \<open>
  The repository holds three scripts: \<^verbatim>\<open>transform_wildchat_dataset.py\<close> (the
  message-list flattener, called A below), \<^verbatim>\<open>transform_huggingface_dataset.py\<close> (the
  wide-column flattener, B) and \<^verbatim>\<open>create_wildchat_subset.py\<close> (the subset sampler).

  A Python \<^verbatim>\<open>str\<close> is modelled as a \<^typ>\<open>string\<close> in which every \<^typ>\<open>char\<close> stands for one
  code point below 256, so \<^const>\<open>length\<close> is Python's \<^verbatim>\<open>len\<close> on such text. Python's
  unbounded \<^verbatim>\<open>int\<close> is \<^typ>\<open>int\<close>. An uncaught exception is a value of \<open>py_error\<close>.
\<close>

datatype py_error = ValueError | ZeroDivisionError | OverflowError

text \<open>How a script's process ends: normally, by \<^verbatim>\<open>sys.exit(n)\<close>, or by an uncaught exception.\<close>

datatype outcome = Completed | SysExit int | Raised py_error

text \<open>A \<^verbatim>\<open>for\<close> loop whose body may raise: the first exception ends the loop.\<close>

fun for_each :: "('a \<Rightarrow> 's \<Rightarrow> py_error + 's) \<Rightarrow> 'a list \<Rightarrow> 's \<Rightarrow> py_error + 's" where
  "for_each body [] s = Inr s"
| "for_each body (x # xs) s =
     (case body x s of Inl e \<Rightarrow> Inl e | Inr s' \<Rightarrow> for_each body xs s')"

text \<open>\<^verbatim>\<open>enumerate(xs)\<close>: every element with its 0-based position.\<close>

definition enumerate0 :: "'a list \<Rightarrow> (nat \<times> 'a) list" where
  "enumerate0 xs = zip [0 ..< length xs] xs"

text \<open>\<^verbatim>\<open>str(n)\<close> for a non-negative integer: its decimal digits.\<close>

fun str_nat :: "nat \<Rightarrow> string" where
  "str_nat n =
     (if n < 10 then [char_of (48 + n)]
      else str_nat (n div 10) @ [char_of (48 + n mod 10)])"

declare str_nat.simps [simp del]

text \<open>
  \<^verbatim>\<open>str.isspace\<close> on the code points below 256: TAB, LF, VT, FF, CR, the four
  separators FS, GS, RS, US, the space, NEL and the no-break space.
\<close>

definition isspace :: "char \<Rightarrow> bool" where
  "isspace c = (of_char c \<in> set [9, 10, 11, 12, 13, 28, 29, 30, 31, 32, 133, 160 :: nat])"

text \<open>\<^verbatim>\<open>s.strip()\<close>: whitespace removed at both ends.\<close>

definition strip :: "string \<Rightarrow> string" where
  "strip s = rev (dropWhile isspace (rev (dropWhile isspace s)))"

text \<open>
  \<^verbatim>\<open>s.lower()\<close> on the code points below 256: the ASCII capitals and the Latin-1 capitals
  (0xC0 to 0xDE without the multiplication sign 0xD7) move up by 32.
\<close>

definition lower_char :: "char \<Rightarrow> char" where
  "lower_char c =
     (let n = (of_char c :: nat)
      in if (65 \<le> n \<and> n \<le> 90) \<or> (192 \<le> n \<and> n \<le> 222 \<and> n \<noteq> 215)
         then char_of (n + 32) else c)"

definition lower :: "string \<Rightarrow> string" where
  "lower s = map lower_char s"

text \<open>\<^verbatim>\<open>sub in s\<close> for strings: \<open>sub\<close> occurs in \<open>s\<close> as a contiguous run.\<close>

fun contains :: "string \<Rightarrow> string \<Rightarrow> bool" where
  "contains sub [] = (sub = [])"
| "contains sub (c # cs) = (prefix sub (c # cs) \<or> contains sub cs)"

text \<open>\<^verbatim>\<open>s.replace('Z', '+00:00')\<close>.\<close>

definition replace_Z :: "string \<Rightarrow> string" where
  "replace_Z s = concat (map (\<lambda>c. if c = CHR ''Z'' then ''+00:00'' else [c]) s)"

subsection \<open>Floating point\<close>

text \<open>
  A finite Python \<^verbatim>\<open>float\<close> is the real number it denotes. Every arithmetic operation
  returns the exact result rounded to the nearest binary64 value; that rounding is the
  parameter \<open>rnd\<close> of the definitions below, so nothing is assumed of it. A decimal
  literal denotes \<open>rnd\<close> of its value, \<^verbatim>\<open>a / b\<close> on integers is the correctly rounded
  quotient.
\<close>

definition float_lit :: "(real \<Rightarrow> real) \<Rightarrow> real \<Rightarrow> real" where
  "float_lit rnd x = rnd x"

definition truediv :: "(real \<Rightarrow> real) \<Rightarrow> int \<Rightarrow> int \<Rightarrow> real" where
  "truediv rnd a b = rnd (of_int a / of_int b)"

definition fmul :: "(real \<Rightarrow> real) \<Rightarrow> real \<Rightarrow> real \<Rightarrow> real" where
  "fmul rnd x y = rnd (x * y)"

definition fadd :: "(real \<Rightarrow> real) \<Rightarrow> real \<Rightarrow> real \<Rightarrow> real" where
  "fadd rnd x y = rnd (x + y)"

text \<open>Rounding to the nearest integer, a tie going to the even neighbour.\<close>

definition round_half_even :: "real \<Rightarrow> int" where
  "round_half_even x =
     (let f = \<lfloor>x\<rfloor>; d = x - of_int f
      in if d < 1 / 2 then f else if 1 / 2 < d then f + 1
         else if even f then f else f + 1)"

text \<open>
  \<^verbatim>\<open>round(x, n)\<close> on a float: the decimal value nearest to \<open>x\<close> with \<open>n\<close> fractional
  digits (ties to even), returned as the nearest float.
\<close>

definition py_round :: "(real \<Rightarrow> real) \<Rightarrow> real \<Rightarrow> nat \<Rightarrow> real" where
  "py_round rnd x n = rnd (of_int (round_half_even (x * 10 ^ n)) / 10 ^ n)"

subsection \<open>Datetimes\<close>

text \<open>
  A \<^verbatim>\<open>datetime\<close> is the number of whole seconds its calendar fields lie after
  0001-01-01T00:00:00. The scripts only add whole seconds and print with
  \<^verbatim>\<open>strftime("%Y-%m-%dT%H:%M:%SZ")\<close>, which shows neither the microseconds nor the
  zone, so the second count is all a row's \<open>timestamp\<close> depends on; the model keeps that
  count in the \<open>timestamp\<close> field in place of its rendering. \<^verbatim>\<open>datetime.max\<close> is the last
  second of the year 9999, day 3652059 of the calendar; adding a \<^verbatim>\<open>timedelta\<close> that
  leaves the range raises \<^verbatim>\<open>OverflowError\<close>.
\<close>

definition datetime_limit :: int where
  "datetime_limit = 3652059 * 86400"

definition dt_add :: "int \<Rightarrow> int \<Rightarrow> py_error + int" where
  "dt_add d secs =
     (let r = d + secs in if 0 \<le> r \<and> r < datetime_limit then Inr r else Inl OverflowError)"

text \<open>\<^verbatim>\<open>datetime(2024, 1, 1)\<close>: day 738886 of the calendar, at midnight.\<close>

definition datetime_2024_01_01 :: int where
  "datetime_2024_01_01 = 738885 * 86400"

text \<open>\<^verbatim>\<open>datetime(2024, 1, 15, 10, 0, 0)\<close>: day 738900 of the calendar, at ten.\<close>

definition datetime_2024_01_15_10 :: int where
  "datetime_2024_01_15_10 = 738899 * 86400 + 10 * 3600"

section \<open>The output row of both flatteners\<close>

text \<open>
  A turn is the dictionary both flatteners append to \<^verbatim>\<open>output_rows\<close>. Flattener A builds
  it without a \<^verbatim>\<open>turn_id\<close> and adds the key in \<^verbatim>\<open>main\<close>: \<open>None\<close> is the absent key.
\<close>

record turn =
  turn_id :: "int option"
  session_id :: string
  user_id :: string
  timestamp :: int
  user_message :: string
  assistant_message :: string
  model :: string
  prompt_tokens :: int
  completion_tokens :: int
  total_tokens :: int
  latency_ms :: int
  cost_usd :: real

text \<open>The dictionary \<^verbatim>\<open>generate_synthetic_metadata\<close> returns.\<close>

record metadata =
  md_prompt_tokens :: int
  md_completion_tokens :: int
  md_total_tokens :: int
  md_latency_ms :: int
  md_cost_usd :: real

text \<open>
  The dictionary literal that both flatteners append: the fields given, then
  \<^verbatim>\<open>**metadata\<close>.
\<close>

definition turn_dict ::
  "int option \<Rightarrow> string \<Rightarrow> string \<Rightarrow> int \<Rightarrow> string \<Rightarrow> string \<Rightarrow> string \<Rightarrow> metadata \<Rightarrow> turn" where
  "turn_dict tid sid uid ts user_msg assistant_msg mdl md =
     \<lparr>turn_id = tid,
      session_id = sid,
      user_id = uid,
      timestamp = ts,
      user_message = user_msg,
      assistant_message = assistant_msg,
      model = mdl,
      prompt_tokens = md_prompt_tokens md,
      completion_tokens = md_completion_tokens md,
      total_tokens = md_total_tokens md,
      latency_ms = md_latency_ms md,
      cost_usd = md_cost_usd md\<rparr>"

text \<open>\<^verbatim>\<open>estimate_tokens\<close>, the same in both flatteners.\<close>

definition estimate_tokens :: "string \<Rightarrow> int" where
  "estimate_tokens s = (if s \<noteq> [] then int (length s) div 4 else 0)"

text \<open>
  \<^verbatim>\<open>generate_synthetic_metadata\<close>, the same text in both flatteners but for the
  \<^verbatim>\<open>calculate_cost\<close> of its own file, the parameter \<open>calc\<close>. The generator of the
  \<^verbatim>\<open>random\<close> module is a state \<open>g\<close> of any type, \<open>randint\<close> the library function on
  it; the base latency is drawn first, the factor per token second.
\<close>

definition generate_synthetic_metadata ::
  "(real \<Rightarrow> real) \<Rightarrow> (string \<Rightarrow> int \<Rightarrow> int \<Rightarrow> real) \<Rightarrow> (int \<Rightarrow> int \<Rightarrow> 'g \<Rightarrow> int \<times> 'g) \<Rightarrow>
     string \<Rightarrow> string \<Rightarrow> string \<Rightarrow> 'g \<Rightarrow> metadata \<times> 'g" where
  "generate_synthetic_metadata rnd calc randint user_msg assistant_msg mdl g =
     (let p = estimate_tokens user_msg;
          c = estimate_tokens assistant_msg;
          t = p + c;
          (base, g1) = randint 1000 2000 g;
          (factor, g2) = randint 80 120 g1;
          latency = base + c * factor;
          cost = calc mdl p c
      in (\<lparr>md_prompt_tokens = p, md_completion_tokens = c, md_total_tokens = t,
           md_latency_ms = latency, md_cost_usd = py_round rnd cost 5\<rparr>, g2))"

section \<open>Flattener A: the message-list source\<close>

text \<open>\<^verbatim>\<open>MODEL_COSTS\<close> of flattener A: the input and output price of a thousand tokens.\<close>

definition MODEL_COSTS_A :: "(string \<times> real \<times> real) list" where
  "MODEL_COSTS_A =
     [(''gpt-4'', 0.03, 0.06),
      (''gpt-3.5-turbo'', 0.0015, 0.002),
      (''gpt-4-turbo'', 0.01, 0.03),
      (''claude-2'', 0.008, 0.024),
      (''claude-3-sonnet'', 0.003, 0.015),
      (''deepseek-r1'', 0.0014, 0.0028)]"

text \<open>The \<^verbatim>\<open>if\<close> chain of A's \<^verbatim>\<open>calculate_cost\<close> that picks the price pair \<^verbatim>\<open>costs\<close>.\<close>

definition model_costs_A :: "string \<Rightarrow> real \<times> real" where
  "model_costs_A mdl =
     (let model_key = lower mdl
      in if contains ''gpt-4'' model_key \<and> \<not> contains ''turbo'' model_key
           then the (map_of MODEL_COSTS_A ''gpt-4'')
         else if contains ''gpt-4'' model_key \<and> contains ''turbo'' model_key
           then the (map_of MODEL_COSTS_A ''gpt-4-turbo'')
         else if contains ''gpt-3.5'' model_key
           then the (map_of MODEL_COSTS_A ''gpt-3.5-turbo'')
         else if contains ''claude-3'' model_key
           then the (map_of MODEL_COSTS_A ''claude-3-sonnet'')
         else if contains ''claude'' model_key
           then the (map_of MODEL_COSTS_A ''claude-2'')
         else if contains ''deepseek'' model_key
           then the (map_of MODEL_COSTS_A ''deepseek-r1'')
         else (0.001, 0.002))"

text \<open>The \<^verbatim>\<open>return\<close> expression of \<^verbatim>\<open>calculate_cost\<close>, the same in both flatteners.\<close>

definition cost_of :: "(real \<Rightarrow> real) \<Rightarrow> real \<times> real \<Rightarrow> int \<Rightarrow> int \<Rightarrow> real" where
  "cost_of rnd costs p c =
     fadd rnd (fmul rnd (truediv rnd p 1000) (float_lit rnd (fst costs)))
              (fmul rnd (truediv rnd c 1000) (float_lit rnd (snd costs)))"

definition calculate_cost_A :: "(real \<Rightarrow> real) \<Rightarrow> string \<Rightarrow> int \<Rightarrow> int \<Rightarrow> real" where
  "calculate_cost_A rnd mdl p c = cost_of rnd (model_costs_A mdl) p c"

text \<open>
  A message of the source: a dictionary read with \<^verbatim>\<open>msg.get("role", "")\<close> and
  \<^verbatim>\<open>msg.get("content", "")\<close>; \<open>None\<close> is the absent key, the values are text.
\<close>

record msg =
  msg_role :: "string option"
  msg_content :: "string option"

text \<open>\<^verbatim>\<open>msg.get("role", "")\<close> and \<^verbatim>\<open>msg.get("content", "").strip()\<close>.\<close>

definition role_of :: "msg \<Rightarrow> string" where
  "role_of m = (case msg_role m of None \<Rightarrow> [] | Some r \<Rightarrow> r)"

definition content_of :: "msg \<Rightarrow> string" where
  "content_of m = strip (case msg_content m of None \<Rightarrow> [] | Some c \<Rightarrow> c)"

text \<open>The variables of the loop of \<^verbatim>\<open>extract_turns_from_messages\<close>, and the generator.\<close>

record 'g extract_state =
  pending :: "string option"
  turn_num :: int
  turns :: "turn list"
  gen :: 'g

text \<open>
  One pass of the loop body. \<^verbatim>\<open>user_message\<close> is the field \<open>pending\<close>; it is true in the
  test \<^verbatim>\<open>role == "assistant" and user_message\<close> when it is a non-empty string.
\<close>

definition extract_step ::
  "(real \<Rightarrow> real) \<Rightarrow> (int \<Rightarrow> int \<Rightarrow> 'g \<Rightarrow> int \<times> 'g) \<Rightarrow> string \<Rightarrow> string \<Rightarrow> string \<Rightarrow> int \<Rightarrow>
     msg \<Rightarrow> 'g extract_state \<Rightarrow> py_error + 'g extract_state" where
  "extract_step rnd randint conversation_hash hashed_ip mdl base_timestamp m st =
     (let role = role_of m;
          content = content_of m
      in if content = [] then Inr st
         else if role = ''user'' then Inr (st\<lparr>pending := Some content\<rparr>)
         else if role = ''assistant'' \<and> (case pending st of None \<Rightarrow> False | Some u \<Rightarrow> u \<noteq> [])
         then
           (let (md, g') = generate_synthetic_metadata rnd (calculate_cost_A rnd) randint
                             (the (pending st)) content mdl (gen st)
            in case dt_add base_timestamp (turn_num st * 30) of
                 Inl e \<Rightarrow> Inl e
               | Inr turn_timestamp \<Rightarrow>
                   Inr (st\<lparr>pending := None,
                           turn_num := turn_num st + 1,
                           turns := turns st @
                             [turn_dict None conversation_hash hashed_ip turn_timestamp
                                (the (pending st)) content mdl md],
                           gen := g'\<rparr>))
         else Inr st)"

text \<open>\<^verbatim>\<open>extract_turns_from_messages\<close>: the turns, and the generator after the draws.\<close>

definition extract_turns_from_messages ::
  "(real \<Rightarrow> real) \<Rightarrow> (int \<Rightarrow> int \<Rightarrow> 'g \<Rightarrow> int \<times> 'g) \<Rightarrow> msg list \<Rightarrow> string \<Rightarrow> string \<Rightarrow> string \<Rightarrow> int \<Rightarrow>
     'g \<Rightarrow> py_error + (turn list \<times> 'g)" where
  "extract_turns_from_messages rnd randint messages conversation_hash hashed_ip mdl base_timestamp g =
     (case for_each (extract_step rnd randint conversation_hash hashed_ip mdl base_timestamp) messages
             \<lparr>pending = None, turn_num = 1, turns = [], gen = g\<rparr> of
        Inl e \<Rightarrow> Inl e
      | Inr st \<Rightarrow> Inr (turns st, gen st))"

text \<open>
  What one run of a script leaves behind: the table it wrote (\<open>None\<close> when the run
  ended before the file was opened), how the process ended, and the lines it printed
  that matter below (the progress lines are left out).
\<close>

record ('r, 'p) run =
  outfile :: "'r list option"
  outcome :: outcome
  printed :: "'p list"

text \<open>The accumulators of \<^verbatim>\<open>main\<close> in both flatteners, and the generator.\<close>

record 'g flatten_state =
  output_rows :: "turn list"
  turn_id_counter :: int
  rng :: 'g

text \<open>
  A record of source A, read with \<^verbatim>\<open>row.get\<close> and \<^verbatim>\<open>in row\<close>: \<open>None\<close> is the absent
  key. The \<open>src_timestamp\<close> field holds \<^verbatim>\<open>str(row["timestamp"])\<close>.
\<close>

record source_A =
  src_conversation_hash :: "string option"
  src_hashed_ip :: "string option"
  src_model :: "string option"
  src_timestamp :: "string option"
  src_messages :: "msg list option"

text \<open>The loop of A's \<^verbatim>\<open>main\<close> that numbers the turns of one conversation.\<close>

fun add_turn_ids :: "turn list \<Rightarrow> turn list \<times> int \<Rightarrow> turn list \<times> int" where
  "add_turn_ids [] (rows, n) = (rows, n)"
| "add_turn_ids (t # ts) (rows, n) = add_turn_ids ts (rows @ [t\<lparr>turn_id := Some n\<rparr>], n + 1)"

text \<open>
  The base timestamp of record \<open>idx\<close>: the record's own when it is present, non-empty
  and \<^verbatim>\<open>datetime.fromisoformat\<close> (the parameter, \<open>None\<close> where it raises) reads it, else
  one hour per index after 2024-01-01.
\<close>

definition base_timestamp_A :: "(string \<Rightarrow> int option) \<Rightarrow> nat \<Rightarrow> source_A \<Rightarrow> py_error + int" where
  "base_timestamp_A fromisoformat idx row =
     (case src_timestamp row of
        None \<Rightarrow> dt_add datetime_2024_01_01 (int idx * 3600)
      | Some s \<Rightarrow>
          if s = [] then dt_add datetime_2024_01_01 (int idx * 3600)
          else (case fromisoformat (replace_Z s) of
                  Some d \<Rightarrow> Inr d
                | None \<Rightarrow> dt_add datetime_2024_01_01 (int idx * 3600)))"

text \<open>\<^verbatim>\<open>row.get("conversation_hash", f"conv_{idx}")\<close>, the session id of record \<open>idx\<close>.\<close>

definition session_of_A :: "nat \<times> source_A \<Rightarrow> string" where
  "session_of_A ir =
     (case src_conversation_hash (snd ir) of None \<Rightarrow> ''conv_'' @ str_nat (fst ir) | Some h \<Rightarrow> h)"

text \<open>The body of the loop over the dataset in A's \<^verbatim>\<open>main\<close>.\<close>

definition main_A_step ::
  "(real \<Rightarrow> real) \<Rightarrow> (int \<Rightarrow> int \<Rightarrow> 'g \<Rightarrow> int \<times> 'g) \<Rightarrow> (string \<Rightarrow> int option) \<Rightarrow>
     nat \<times> source_A \<Rightarrow> 'g flatten_state \<Rightarrow> py_error + 'g flatten_state" where
  "main_A_step rnd randint fromisoformat ir st =
     (let idx = fst ir; row = snd ir;
          conversation_hash = session_of_A ir;
          hashed_ip = (case src_hashed_ip row of None \<Rightarrow> ''user_'' @ str_nat idx | Some u \<Rightarrow> u);
          mdl = (case src_model row of None \<Rightarrow> ''unknown'' | Some m \<Rightarrow> m)
      in case base_timestamp_A fromisoformat idx row of
           Inl e \<Rightarrow> Inl e
         | Inr base_timestamp \<Rightarrow>
             (case src_messages row of
                None \<Rightarrow> Inr st
              | Some messages \<Rightarrow>
                  if messages = [] then Inr st
                  else (case extract_turns_from_messages rnd randint messages conversation_hash
                               hashed_ip mdl base_timestamp (rng st) of
                          Inl e \<Rightarrow> Inl e
                        | Inr (ts, g') \<Rightarrow>
                            (let (rows, n) = add_turn_ids ts (output_rows st, turn_id_counter st)
                             in Inr (st\<lparr>output_rows := rows, turn_id_counter := n, rng := g'\<rparr>)))))"

text \<open>
  A's \<^verbatim>\<open>main\<close> on the dataset the hub returned. The table is written after the loop; the
  last line printed divides by \<^verbatim>\<open>len(dataset)\<close>.
\<close>

definition main_A ::
  "(real \<Rightarrow> real) \<Rightarrow> (int \<Rightarrow> int \<Rightarrow> 'g \<Rightarrow> int \<times> 'g) \<Rightarrow> (string \<Rightarrow> int option) \<Rightarrow>
     source_A list \<Rightarrow> 'g \<Rightarrow> (turn, string) run" where
  "main_A rnd randint fromisoformat dataset g =
     (case for_each (main_A_step rnd randint fromisoformat) (enumerate0 dataset)
             \<lparr>output_rows = [], turn_id_counter = 1, rng = g\<rparr> of
        Inl e \<Rightarrow> \<lparr>outfile = None, outcome = Raised e, printed = []\<rparr>
      | Inr st \<Rightarrow>
          \<lparr>outfile = Some (output_rows st),
           outcome = (if length dataset = 0 then Raised ZeroDivisionError else Completed),
           printed = []\<rparr>)"

section \<open>Flattener B: the wide-column source\<close>

definition MODELS :: "string list" where
  "MODELS = [''gpt-4'', ''gpt-3.5-turbo'', ''claude-2'', ''claude-instant'']"

text \<open>\<^verbatim>\<open>MODEL_COSTS\<close> of flattener B.\<close>

definition MODEL_COSTS_B :: "(string \<times> real \<times> real) list" where
  "MODEL_COSTS_B =
     [(''gpt-4'', 0.03, 0.06),
      (''gpt-3.5-turbo'', 0.0015, 0.002),
      (''claude-2'', 0.008, 0.024),
      (''claude-instant'', 0.0016, 0.0055)]"

text \<open>\<^verbatim>\<open>MODEL_COSTS.get(model, {"input": 0.001, "output": 0.002})\<close>.\<close>

definition model_costs_B :: "string \<Rightarrow> real \<times> real" where
  "model_costs_B mdl = (case map_of MODEL_COSTS_B mdl of Some costs \<Rightarrow> costs | None \<Rightarrow> (0.001, 0.002))"

definition calculate_cost_B :: "(real \<Rightarrow> real) \<Rightarrow> string \<Rightarrow> int \<Rightarrow> int \<Rightarrow> real" where
  "calculate_cost_B rnd mdl p c = cost_of rnd (model_costs_B mdl) p c"

text \<open>\<^verbatim>\<open>str(i)\<close> for any integer, and the format \<^verbatim>\<open>05d\<close> of a non-negative one.\<close>

definition str_int :: "int \<Rightarrow> string" where
  "str_int i = (if i < 0 then CHR ''-'' # str_nat (nat (- i)) else str_nat (nat i))"

definition format_05d :: "nat \<Rightarrow> string" where
  "format_05d n = replicate (5 - length (str_nat n)) CHR ''0'' @ str_nat n"

text \<open>
  A record of source B maps a column name to its text; \<open>None\<close> is a column that is absent
  or null. The test \<^verbatim>\<open>p_col in row and r_col in row and row[p_col] and row[r_col]\<close> is
  true when both are present and non-empty.
\<close>

type_synonym source_B = "string \<Rightarrow> string option"

definition truthy :: "string option \<Rightarrow> bool" where
  "truthy v = (case v of None \<Rightarrow> False | Some s \<Rightarrow> s \<noteq> [])"

text \<open>\<^verbatim>\<open>f"sess_{idx + 1:05d}"\<close>, the session id of record \<open>idx\<close>.\<close>

definition session_of_B :: "nat \<Rightarrow> string" where
  "session_of_B idx = ''sess_'' @ format_05d (idx + 1)"

text \<open>The body of the loop over \<^verbatim>\<open>range(1, 5)\<close> for one record of source B.\<close>

definition pair_step ::
  "(real \<Rightarrow> real) \<Rightarrow> (int \<Rightarrow> int \<Rightarrow> 'g \<Rightarrow> int \<times> 'g) \<Rightarrow> source_B \<Rightarrow> string \<Rightarrow> string \<Rightarrow> string \<Rightarrow> int \<Rightarrow>
     nat \<Rightarrow> 'g flatten_state \<Rightarrow> py_error + 'g flatten_state" where
  "pair_step rnd randint row sid uid mdl session_timestamp k st =
     (let p_col = ''P'' @ str_nat k; r_col = ''R'' @ str_nat k
      in if truthy (row p_col) \<and> truthy (row r_col) then
           (let user_msg = strip (the (row p_col));
                assistant_msg = strip (the (row r_col))
            in if user_msg \<noteq> [] \<and> assistant_msg \<noteq> [] then
                 (let (md, g') = generate_synthetic_metadata rnd (calculate_cost_B rnd) randint
                                   user_msg assistant_msg mdl (rng st)
                  in case dt_add session_timestamp ((int k - 1) * 60) of
                       Inl e \<Rightarrow> Inl e
                     | Inr turn_timestamp \<Rightarrow>
                         Inr (st\<lparr>output_rows := output_rows st @
                                   [turn_dict (Some (turn_id_counter st)) sid uid turn_timestamp
                                      user_msg assistant_msg mdl md],
                                 turn_id_counter := turn_id_counter st + 1,
                                 rng := g'\<rparr>))
               else Inr st)
         else Inr st)"

text \<open>
  The body of the loop over the dataset in B's \<^verbatim>\<open>main\<close>. The inner loop fills the
  local list \<^verbatim>\<open>turns\<close>, here the \<open>output_rows\<close> of the state it runs on, which starts
  empty; \<^verbatim>\<open>output_rows.extend(turns)\<close> follows the inner loop.
\<close>

definition main_B_step ::
  "(real \<Rightarrow> real) \<Rightarrow> (int \<Rightarrow> int \<Rightarrow> 'g \<Rightarrow> int \<times> 'g) \<Rightarrow> (string list \<Rightarrow> 'g \<Rightarrow> string \<times> 'g) \<Rightarrow>
     nat \<times> source_B \<Rightarrow> 'g flatten_state \<Rightarrow> py_error + 'g flatten_state" where
  "main_B_step rnd randint choice ir st =
     (let idx = fst ir; row = snd ir;
          sid = session_of_B idx;
          (u, g1) = randint 100 999 (rng st);
          uid = ''user_'' @ str_int u;
          (mdl, g2) = choice MODELS g1
      in case dt_add datetime_2024_01_15_10 (int idx * 5 * 60) of
           Inl e \<Rightarrow> Inl e
         | Inr session_timestamp \<Rightarrow>
             (case for_each (pair_step rnd randint row sid uid mdl session_timestamp) [1 ..< 5]
                     (st\<lparr>output_rows := [], rng := g2\<rparr>) of
                Inl e \<Rightarrow> Inl e
              | Inr inner \<Rightarrow> Inr (inner\<lparr>output_rows := output_rows st @ output_rows inner\<rparr>)))"

text \<open>The lines B prints before \<^verbatim>\<open>sys.exit(1)\<close>.\<close>

definition token_help :: "string list" where
  "token_help =
     [''ERROR: HuggingFace token required!'',
      CHR 0x0A # ''This dataset is gated. You need to:'',
      ''1. Get a token from: https://huggingface.co/settings/tokens'',
      ''2. Accept terms at: https://huggingface.co/datasets/SoftAge-AI/multi-turn_dataset'',
      CHR 0x0A # ''Then run:'',
      ''  export HF_TOKEN=your_token_here'',
      ''  python transform_huggingface_dataset.py'',
      CHR 0x0A # ''Or:'',
      ''  python transform_huggingface_dataset.py hf_your_token_here'']"

text \<open>
  \<^verbatim>\<open>token\<close> after the first three lines of B's \<^verbatim>\<open>main\<close>: the environment's
  \<^verbatim>\<open>HF_TOKEN\<close>, replaced by \<^verbatim>\<open>sys.argv[1]\<close> whenever the process has an argument.
\<close>

definition get_token :: "(string \<Rightarrow> string option) \<Rightarrow> string list \<Rightarrow> string option" where
  "get_token environ argv =
     (let token = environ ''HF_TOKEN''
      in if 1 < length argv then Some (argv ! 1) else token)"

text \<open>
  B's \<^verbatim>\<open>main\<close>. \<open>load_dataset\<close> is the hub client: what it returns for the token. It is
  called only after the token test.
\<close>

definition main_B ::
  "(real \<Rightarrow> real) \<Rightarrow> (int \<Rightarrow> int \<Rightarrow> 'g \<Rightarrow> int \<times> 'g) \<Rightarrow> (string list \<Rightarrow> 'g \<Rightarrow> string \<times> 'g) \<Rightarrow>
     (string \<Rightarrow> source_B list) \<Rightarrow> (string \<Rightarrow> string option) \<Rightarrow> string list \<Rightarrow> 'g \<Rightarrow> (turn, string) run" where
  "main_B rnd randint choice load_dataset environ argv g =
     (let token = get_token environ argv
      in if \<not> truthy token
         then \<lparr>outfile = None, outcome = SysExit 1, printed = token_help\<rparr>
         else
           (let dataset = load_dataset (the token)
            in case for_each (main_B_step rnd randint choice) (enumerate0 dataset)
                      \<lparr>output_rows = [], turn_id_counter = 1, rng = g\<rparr> of
                 Inl e \<Rightarrow> \<lparr>outfile = None, outcome = Raised e, printed = []\<rparr>
               | Inr st \<Rightarrow>
                   \<lparr>outfile = Some (output_rows st),
                    outcome = (if length dataset = 0 then Raised ZeroDivisionError else Completed),
                    printed = []\<rparr>))"

section \<open>The subset sampler\<close>

text \<open>
  A row of the turn-level table, as a file holds it and as \<^verbatim>\<open>csv.DictReader\<close> yields it:
  every column is text.
\<close>

record csv_row =
  row_turn_id :: string
  row_session_id :: string
  row_user_id :: string
  row_timestamp :: string
  row_user_message :: string
  row_assistant_message :: string
  row_model :: string
  row_prompt_tokens :: string
  row_completion_tokens :: string
  row_total_tokens :: string
  row_latency_ms :: string
  row_cost_usd :: string

text \<open>
  \<^verbatim>\<open>conversations\<close> is a \<^verbatim>\<open>defaultdict(list)\<close>: a dictionary keeps its keys in the order of
  their first insertion, so it is an association list. \<^verbatim>\<open>conversations[k].append(v)\<close>:
\<close>

fun append_to :: "string \<Rightarrow> 'a \<Rightarrow> (string \<times> 'a list) list \<Rightarrow> (string \<times> 'a list) list" where
  "append_to k v [] = [(k, [v])]"
| "append_to k v (kv # kvs) =
     (if fst kv = k then (k, snd kv @ [v]) # kvs else kv # append_to k v kvs)"

text \<open>The loop that groups the rows by \<^verbatim>\<open>session_id\<close>.\<close>

definition group_rows :: "csv_row list \<Rightarrow> (string \<times> csv_row list) list" where
  "group_rows table = foldl (\<lambda>conversations row. append_to (row_session_id row) row conversations) [] table"

text \<open>\<^verbatim>\<open>conversations[session_id]\<close>; a key that is absent reads as the empty list.\<close>

definition rows_of :: "(string \<times> csv_row list) list \<Rightarrow> string \<Rightarrow> csv_row list" where
  "rows_of conversations sid = (case map_of conversations sid of Some rs \<Rightarrow> rs | None \<Rightarrow> [])"

text \<open>The loop that separates the single-turn from the multi-turn conversations.\<close>

definition single_turn :: "(string \<times> csv_row list) list \<Rightarrow> string list" where
  "single_turn conversations = map fst (filter (\<lambda>kv. length (snd kv) = 1) conversations)"

definition multi_turn :: "(string \<times> csv_row list) list \<Rightarrow> string list" where
  "multi_turn conversations = map fst (filter (\<lambda>kv. length (snd kv) \<noteq> 1) conversations)"

text \<open>The warning printed when a pool is smaller than its target: available, needed.\<close>

datatype warning = Only_single nat nat | Only_multi nat nat

text \<open>The two \<^verbatim>\<open>if\<close> statements that clamp the targets: the targets and the warnings.\<close>

definition clamp_targets :: "nat \<Rightarrow> nat \<Rightarrow> (nat \<times> nat) \<times> warning list" where
  "clamp_targets n_single n_multi =
     (let target_single = 300; target_multi = 200;
          (w1, target_single) =
            (if n_single < target_single
             then ([Only_single n_single target_single], n_single) else ([], target_single));
          (w2, target_multi) =
            (if n_multi < target_multi
             then ([Only_multi n_multi target_multi], n_multi) else ([], target_multi))
      in ((target_single, target_multi), w1 @ w2))"

text \<open>
  Three library functions are parameters of the sampler.
  \<^item> \<open>seed\<close> and \<open>sample\<close> are \<^verbatim>\<open>random.seed\<close> and \<^verbatim>\<open>random.sample\<close> on a generator state
    of any type: \<open>sample g population k\<close> returns the sample and the next state.
  \<^item> \<open>set_iter xs\<close> is the order in which a \<^verbatim>\<open>for\<close> loop visits \<^verbatim>\<open>set(xs)\<close>. Python fixes
    no order for a set of strings, and the order changes from process to process with
    the hash seed.
  \<^item> \<open>py_int\<close> is \<^verbatim>\<open>int\<close> on a string, \<open>None\<close> where it raises \<^verbatim>\<open>ValueError\<close>.
  What the library promises of the first two is stated as two contracts.
\<close>

definition sample_contract :: "('g \<Rightarrow> string list \<Rightarrow> nat \<Rightarrow> string list \<times> 'g) \<Rightarrow> bool" where
  "sample_contract sample =
     (\<forall>g population k. k \<le> length population \<longrightarrow>
        length (fst (sample g population k)) = k \<and>
        mset (fst (sample g population k)) \<subseteq># mset population)"

definition set_contract :: "(string list \<Rightarrow> string list) \<Rightarrow> bool" where
  "set_contract set_iter = (\<forall>xs. distinct (set_iter xs) \<and> set (set_iter xs) = set xs)"

text \<open>The session ids the sampler selects, in the order the \<^verbatim>\<open>for\<close> loop visits them.\<close>

definition selected_sessions ::
  "(int \<Rightarrow> 'g) \<Rightarrow> ('g \<Rightarrow> string list \<Rightarrow> nat \<Rightarrow> string list \<times> 'g) \<Rightarrow> (string list \<Rightarrow> string list) \<Rightarrow>
     (string \<times> csv_row list) list \<Rightarrow> string list" where
  "selected_sessions seed sample set_iter conversations =
     (let ((target_single, target_multi), ws) =
            clamp_targets (length (single_turn conversations)) (length (multi_turn conversations));
          g0 = seed 42;
          (selected_single, g1) = sample g0 (single_turn conversations) target_single;
          (selected_multi, g2) = sample g1 (multi_turn conversations) target_multi
      in set_iter (selected_single @ selected_multi))"

text \<open>The loop that collects the rows of the selected conversations.\<close>

definition collect_rows :: "(string \<times> csv_row list) list \<Rightarrow> string list \<Rightarrow> csv_row list" where
  "collect_rows conversations sessions = concat (map (rows_of conversations) sessions)"

text \<open>The sort key \<^verbatim>\<open>int(x['turn_id'])\<close> and the loop that renumbers from 1.\<close>

definition turn_key :: "(string \<Rightarrow> int option) \<Rightarrow> csv_row \<Rightarrow> int" where
  "turn_key py_int r = the (py_int (row_turn_id r))"

definition renumber :: "csv_row list \<Rightarrow> csv_row list" where
  "renumber rows =
     map (\<lambda>ir. (snd ir)\<lparr>row_turn_id := str_nat (fst ir)\<rparr>) (zip [1 ..< Suc (length rows)] rows)"

text \<open>
  The sampler's \<^verbatim>\<open>main\<close> from the loop over the reader on: \<open>table\<close> is the list of the
  rows \<^verbatim>\<open>csv.DictReader\<close> yields. \<^verbatim>\<open>list.sort\<close> computes every key before it moves a row,
  so one turn id that is no integer raises before the output file is opened. The last
  line printed divides by the number of selected conversations.
\<close>

definition main_subset ::
  "(string \<Rightarrow> int option) \<Rightarrow> (int \<Rightarrow> 'g) \<Rightarrow> ('g \<Rightarrow> string list \<Rightarrow> nat \<Rightarrow> string list \<times> 'g) \<Rightarrow>
     (string list \<Rightarrow> string list) \<Rightarrow> csv_row list \<Rightarrow> (csv_row, warning) run" where
  "main_subset py_int seed sample set_iter table =
     (let conversations = group_rows table;
          ws = snd (clamp_targets (length (single_turn conversations))
                      (length (multi_turn conversations)));
          sessions = selected_sessions seed sample set_iter conversations;
          rows = collect_rows conversations sessions
      in if list_ex (\<lambda>r. py_int (row_turn_id r) = None) rows
         then \<lparr>outfile = None, outcome = Raised ValueError, printed = ws\<rparr>
         else
           \<lparr>outfile = Some (renumber (sort_key (turn_key py_int) rows)),
            outcome = (if length sessions = 0 then Raised ZeroDivisionError else Completed),
            printed = ws\<rparr>)"

text \<open>
  The sampler opens its input with \<^verbatim>\<open>open(input_file, 'r', encoding='utf-8')\<close>, that is in
  text mode with universal newlines: a carriage return followed by a line feed, and a
  carriage return alone, are read as one line feed. The output file, and the files of
  both flatteners, are opened with \<^verbatim>\<open>newline=''\<close>, which passes every character as it is.
\<close>

fun universal_newlines :: "string \<Rightarrow> string" where
  "universal_newlines [] = []"
| "universal_newlines [c] = [if c = CHR 0x0D then CHR 0x0A else c]"
| "universal_newlines (c # d # cs) =
     (if c = CHR 0x0D \<and> d = CHR 0x0A then CHR 0x0A # universal_newlines cs
      else if c = CHR 0x0D then CHR 0x0A # universal_newlines (d # cs)
      else c # universal_newlines (d # cs))"

text \<open>
  The input file is given by the table it holds, the rows a flattener passed to
  \<^verbatim>\<open>csv.DictWriter\<close>. The writer puts a field that holds a carriage return or a line feed
  between quotes and \<^verbatim>\<open>csv.DictReader\<close> takes what stands between the quotes as the field;
  the line ends are translated below the reader, so it yields every field with its line
  ends translated.
\<close>

definition read_row :: "csv_row \<Rightarrow> csv_row" where
  "read_row r =
     \<lparr>row_turn_id = universal_newlines (row_turn_id r),
      row_session_id = universal_newlines (row_session_id r),
      row_user_id = universal_newlines (row_user_id r),
      row_timestamp = universal_newlines (row_timestamp r),
      row_user_message = universal_newlines (row_user_message r),
      row_assistant_message = universal_newlines (row_assistant_message r),
      row_model = universal_newlines (row_model r),
      row_prompt_tokens = universal_newlines (row_prompt_tokens r),
      row_completion_tokens = universal_newlines (row_completion_tokens r),
      row_total_tokens = universal_newlines (row_total_tokens r),
      row_latency_ms = universal_newlines (row_latency_ms r),
      row_cost_usd = universal_newlines (row_cost_usd r)\<rparr>"

definition read_table :: "csv_row list \<Rightarrow> csv_row list" where
  "read_table file = map read_row file"

text \<open>The sampler's \<^verbatim>\<open>main\<close> on the table its input file holds.\<close>

definition main_subset_file ::
  "(string \<Rightarrow> int option) \<Rightarrow> (int \<Rightarrow> 'g) \<Rightarrow> ('g \<Rightarrow> string list \<Rightarrow> nat \<Rightarrow> string list \<times> 'g) \<Rightarrow>
     (string list \<Rightarrow> string list) \<Rightarrow> csv_row list \<Rightarrow> (csv_row, warning) run" where
  "main_subset_file py_int seed sample set_iter file =
     main_subset py_int seed sample set_iter (read_table file)"

section \<open>Specification-level definitions and invariants\<close>



definition pending_stripped :: "'g extract_state \<Rightarrow> bool" where
  "pending_stripped st = (case pending st of None \<Rightarrow> True | Some u \<Rightarrow> u \<noteq> [] \<and> strip u = u)"

definition numbered_A :: "string \<Rightarrow> int \<Rightarrow> 'g extract_state \<Rightarrow> bool" where
  "numbered_A ch base st =
     (turn_num st = 1 + int (length (turns st)) \<and>
      (\<forall>k < length (turns st).
         session_id (turns st ! k) = ch \<and> timestamp (turns st ! k) = base + 30 * (int k + 1)))"

text \<open>
  What holds of every turn a flattener appends, whatever its \<open>turn_id\<close>: both messages
  are trimmed and non-empty, and the token counts and the cost are computed from the
  turn's own messages and model by the flattener's \<^verbatim>\<open>calculate_cost\<close>, here \<open>calc\<close>.
\<close>

definition turn_shape :: "(real \<Rightarrow> real) \<Rightarrow> (string \<Rightarrow> int \<Rightarrow> int \<Rightarrow> real) \<Rightarrow> turn \<Rightarrow> bool" where
  "turn_shape rnd calc t =
     (user_message t \<noteq> [] \<and> strip (user_message t) = user_message t \<and>
      assistant_message t \<noteq> [] \<and> strip (assistant_message t) = assistant_message t \<and>
      prompt_tokens t = estimate_tokens (user_message t) \<and>
      completion_tokens t = estimate_tokens (assistant_message t) \<and>
      total_tokens t = prompt_tokens t + completion_tokens t \<and>
      cost_usd t = py_round rnd (calc (model t) (prompt_tokens t) (completion_tokens t)) 5)"

text \<open>
  Rows of one session: whenever row \<open>i\<close> comes before row \<open>j\<close> and both carry the same
  \<open>session_id\<close>, the relation \<open>R\<close> holds of their distance and their two timestamps.
\<close>

definition spaced :: "(nat \<Rightarrow> int \<Rightarrow> int \<Rightarrow> bool) \<Rightarrow> turn list \<Rightarrow> bool" where
  "spaced R rows =
     (\<forall>i j. i < j \<and> j < length rows \<and> session_id (rows ! i) = session_id (rows ! j) \<longrightarrow>
        R (j - i) (timestamp (rows ! i)) (timestamp (rows ! j)))"

text \<open>The spacing of A: thirty seconds per row. The spacing of B: one to three minutes.\<close>

definition spacing_A :: "nat \<Rightarrow> int \<Rightarrow> int \<Rightarrow> bool" where
  "spacing_A d a b = (b = a + 30 * int d)"

definition spacing_B :: "nat \<Rightarrow> int \<Rightarrow> int \<Rightarrow> bool" where
  "spacing_B d a b = (b = a + 60 \<or> b = a + 120 \<or> b = a + 180)"

text \<open>
  The turns of one record of B after the pairs below \<open>k\<close>: each carries the session id
  and the timestamp of one of those pairs, in increasing order.
\<close>

definition block_B :: "string \<Rightarrow> int \<Rightarrow> nat \<Rightarrow> turn list \<Rightarrow> bool" where
  "block_B sid sts k rows =
     ((\<forall>t \<in> set rows. session_id t = sid \<and>
         (\<exists>j. 1 \<le> j \<and> j < k \<and> timestamp t = sts + (int j - 1) * 60)) \<and>
      sorted_wrt (\<lambda>a b. timestamp a < timestamp b) rows)"

text \<open>
  The turn flattener B emits for pair \<open>k\<close> of a record: the session id of the record,
  the session timestamp plus \<open>k - 1\<close> minutes, and the trimmed texts of the columns
  \<^verbatim>\<open>P\<close>\<open>k\<close> and \<^verbatim>\<open>R\<close>\<open>k\<close>.
\<close>

definition turn_of_pair :: "source_B \<Rightarrow> string \<Rightarrow> int \<Rightarrow> nat \<Rightarrow> turn \<Rightarrow> bool" where
  "turn_of_pair row sid session_timestamp k t =
     (session_id t = sid \<and>
      timestamp t = session_timestamp + (int k - 1) * 60 \<and>
      user_message t = strip (the (row (''P'' @ str_nat k))) \<and>
      assistant_message t = strip (the (row (''R'' @ str_nat k))))"

text \<open>A row without its \<open>turn_id\<close>: what the sampler must leave as it is.\<close>

definition forget_turn_id :: "csv_row \<Rightarrow> csv_row" where
  "forget_turn_id r = r\<lparr>row_turn_id := []\<rparr>"

text \<open>
  The value of a non-empty string of ASCII digits, which is what \<^verbatim>\<open>int\<close> returns on
  such a string; \<open>None\<close> on any other string.
\<close>

definition digit_value :: "char \<Rightarrow> int option" where
  "digit_value c =
     (let n = (of_char c :: nat) in if 48 \<le> n \<and> n \<le> 57 then Some (int n - 48) else None)"

fun decimal_from :: "int \<Rightarrow> string \<Rightarrow> int option" where
  "decimal_from acc [] = Some acc"
| "decimal_from acc (c # cs) =
     (case digit_value c of None \<Rightarrow> None | Some d \<Rightarrow> decimal_from (10 * acc + d) cs)"

definition int_of_digits :: "string \<Rightarrow> int option" where
  "int_of_digits s = (if s = [] then None else decimal_from 0 s)"

section \<open>Example inputs\<close>

subsection \<open>Instances of the parameters\<close>

text \<open>
  Exact arithmetic in place of the binary64 rounding; a generator that always draws the
  lowest value and picks the last element; a timestamp parser that reads nothing, and
  one that reads midnight of 2024-01-01 and nothing else; a seed that gives the state
  0, a sampler that takes the first \<open>k\<close> of the population, and the two orders in which
  a set of two elements can be visited.
\<close>

definition exact :: "real \<Rightarrow> real" where
  "exact x = x"

definition draw_low :: "int \<Rightarrow> int \<Rightarrow> nat \<Rightarrow> int \<times> nat" where
  "draw_low a b g = (a, Suc g)"

definition pick_last :: "string list \<Rightarrow> nat \<Rightarrow> string \<times> nat" where
  "pick_last xs g = (last xs, Suc g)"

definition no_parse :: "string \<Rightarrow> int option" where
  "no_parse s = None"

definition parse_midnight :: "string \<Rightarrow> int option" where
  "parse_midnight s = (if s = ''2024-01-01T00:00:00+00:00'' then Some datetime_2024_01_01 else None)"

definition seed_zero :: "int \<Rightarrow> nat" where
  "seed_zero n = 0"

definition sample_first :: "nat \<Rightarrow> string list \<Rightarrow> nat \<Rightarrow> string list \<times> nat" where
  "sample_first g population k = (take k population, Suc g)"

definition set_iter_fwd :: "string list \<Rightarrow> string list" where
  "set_iter_fwd xs = remdups xs"

definition set_iter_bwd :: "string list \<Rightarrow> string list" where
  "set_iter_bwd xs = rev (remdups xs)"

definition environ_with_token :: "string \<Rightarrow> string option" where
  "environ_with_token = [''HF_TOKEN'' \<mapsto> ''hf_abc'']"

subsection \<open>Messages and loop states of flattener A\<close>

definition user_says :: "string \<Rightarrow> msg" where
  "user_says s = \<lparr>msg_role = Some ''user'', msg_content = Some s\<rparr>"

definition assistant_says :: "string \<Rightarrow> msg" where
  "assistant_says s = \<lparr>msg_role = Some ''assistant'', msg_content = Some s\<rparr>"

definition system_says :: "string \<Rightarrow> msg" where
  "system_says s = \<lparr>msg_role = Some ''system'', msg_content = Some s\<rparr>"

definition example_state :: "nat extract_state" where
  "example_state = \<lparr>pending = Some ''a'', turn_num = 1, turns = [], gen = 0\<rparr>"

definition example_flatten_state :: "nat flatten_state" where
  "example_flatten_state = \<lparr>output_rows = [], turn_id_counter = 1, rng = 0\<rparr>"


subsection \<open>Datasets and the tables written from them\<close>

text \<open>
  For flattener A: a dataset of one conversation with one exchange, one with two
  exchanges, and one in which the same record occurs twice.
\<close>

definition example_dataset_A :: "source_A list" where
  "example_dataset_A =
     [\<lparr>src_conversation_hash = Some ''h1'', src_hashed_ip = Some ''ip1'',
       src_model = Some ''gpt-4'', src_timestamp = None,
       src_messages = Some [user_says ''hello there'', assistant_says ''hi, how are you'']\<rparr>]"

definition example_rows_A :: "turn list" where
  "example_rows_A =
     [\<lparr>turn_id = Some 1, session_id = ''h1'', user_id = ''ip1'', timestamp = 63839664030,
       user_message = ''hello there'', assistant_message = ''hi, how are you'',
       model = ''gpt-4'', prompt_tokens = 2, completion_tokens = 3, total_tokens = 5,
       latency_ms = 1240, cost_usd = 24 / 100000\<rparr>]"

definition two_turn_dataset_A :: "source_A list" where
  "two_turn_dataset_A =
     [\<lparr>src_conversation_hash = Some ''h1'', src_hashed_ip = Some ''ip1'',
       src_model = Some ''gpt-4'', src_timestamp = None,
       src_messages = Some [user_says ''a'', assistant_says ''b'', user_says ''c'', assistant_says ''x'']\<rparr>]"

definition two_turn_rows_A :: "turn list" where
  "two_turn_rows_A =
     [\<lparr>turn_id = Some 1, session_id = ''h1'', user_id = ''ip1'', timestamp = 63839664030,
       user_message = ''a'', assistant_message = ''b'', model = ''gpt-4'', prompt_tokens = 0,
       completion_tokens = 0, total_tokens = 0, latency_ms = 1000, cost_usd = 0\<rparr>,
      \<lparr>turn_id = Some 2, session_id = ''h1'', user_id = ''ip1'', timestamp = 63839664060,
       user_message = ''c'', assistant_message = ''x'', model = ''gpt-4'', prompt_tokens = 0,
       completion_tokens = 0, total_tokens = 0, latency_ms = 1000, cost_usd = 0\<rparr>]"

definition duplicate_dataset_A :: "source_A list" where
  "duplicate_dataset_A =
     [\<lparr>src_conversation_hash = Some ''h1'', src_hashed_ip = Some ''ip1'',
       src_model = Some ''gpt-4'', src_timestamp = Some ''2024-01-01T00:00:00Z'',
       src_messages = Some [user_says ''hello there'', assistant_says ''hi, how are you'']\<rparr>,
      \<lparr>src_conversation_hash = Some ''h1'', src_hashed_ip = Some ''ip1'',
       src_model = Some ''gpt-4'', src_timestamp = Some ''2024-01-01T00:00:00Z'',
       src_messages = Some [user_says ''hello there'', assistant_says ''hi, how are you'']\<rparr>]"

definition duplicate_rows_A :: "turn list" where
  "duplicate_rows_A =
     [\<lparr>turn_id = Some 1, session_id = ''h1'', user_id = ''ip1'', timestamp = 63839664030,
       user_message = ''hello there'', assistant_message = ''hi, how are you'',
       model = ''gpt-4'', prompt_tokens = 2, completion_tokens = 3, total_tokens = 5,
       latency_ms = 1240, cost_usd = 24 / 100000\<rparr>,
      \<lparr>turn_id = Some 2, session_id = ''h1'', user_id = ''ip1'', timestamp = 63839664030,
       user_message = ''hello there'', assistant_message = ''hi, how are you'',
       model = ''gpt-4'', prompt_tokens = 2, completion_tokens = 3, total_tokens = 5,
       latency_ms = 1240, cost_usd = 24 / 100000\<rparr>]"

text \<open>
  For flattener B: the record of the specification's example, whose second pair has an
  empty prompt, and a record with the pairs 1 and 3.
\<close>

definition example_dataset_B :: "source_B list" where
  "example_dataset_B =
     [[''P1'' \<mapsto> ''hi'', ''R1'' \<mapsto> ''hello'', ''P2'' \<mapsto> [], ''R2'' \<mapsto> ''bye'']]"

definition example_rows_B :: "turn list" where
  "example_rows_B =
     [\<lparr>turn_id = Some 1, session_id = ''sess_00001'', user_id = ''user_100'',
       timestamp = 63840909600, user_message = ''hi'', assistant_message = ''hello'',
       model = ''claude-instant'', prompt_tokens = 0, completion_tokens = 1, total_tokens = 1,
       latency_ms = 1080, cost_usd = 1 / 100000\<rparr>]"

definition two_turn_dataset_B :: "source_B list" where
  "two_turn_dataset_B =
     [[''P1'' \<mapsto> ''hi'', ''R1'' \<mapsto> ''hello'', ''P3'' \<mapsto> ''more'', ''R3'' \<mapsto> ''sure'']]"

definition two_turn_rows_B :: "turn list" where
  "two_turn_rows_B =
     [\<lparr>turn_id = Some 1, session_id = ''sess_00001'', user_id = ''user_100'',
       timestamp = 63840909600, user_message = ''hi'', assistant_message = ''hello'',
       model = ''claude-instant'', prompt_tokens = 0, completion_tokens = 1, total_tokens = 1,
       latency_ms = 1080, cost_usd = 1 / 100000\<rparr>,
      \<lparr>turn_id = Some 2, session_id = ''sess_00001'', user_id = ''user_100'',
       timestamp = 63840909720, user_message = ''more'', assistant_message = ''sure'',
       model = ''claude-instant'', prompt_tokens = 1, completion_tokens = 1, total_tokens = 2,
       latency_ms = 1080, cost_usd = 1 / 100000\<rparr>]"

text \<open>
  For the sampler: a table with a conversation \<open>a\<close> whose turns are numbered 5, 9 and 14
  and a single-turn conversation \<open>b\<close>; the subset written from it; and a table in which
  two rows carry the same turn id.
\<close>

definition example_row :: "string \<Rightarrow> string \<Rightarrow> string \<Rightarrow> csv_row" where
  "example_row tid sid question =
     \<lparr>row_turn_id = tid, row_session_id = sid, row_user_id = ''u1'',
      row_timestamp = ''2024-01-01T00:00:30Z'', row_user_message = question,
      row_assistant_message = ''ok'', row_model = ''gpt-4'', row_prompt_tokens = ''1'',
      row_completion_tokens = ''0'', row_total_tokens = ''1'', row_latency_ms = ''1000'',
      row_cost_usd = ''3e-05''\<rparr>"

definition example_table :: "csv_row list" where
  "example_table =
     [example_row ''5'' ''a'' ''q1'', example_row ''7'' ''b'' ''q2'',
      example_row ''9'' ''a'' ''q3'', example_row ''14'' ''a'' ''q4'']"

definition example_subset :: "csv_row list" where
  "example_subset =
     [example_row ''1'' ''a'' ''q1'', example_row ''2'' ''b'' ''q2'',
      example_row ''3'' ''a'' ''q3'', example_row ''4'' ''a'' ''q4'']"

definition tie_table :: "csv_row list" where
  "tie_table = [example_row ''1'' ''a'' ''q1'', example_row ''1'' ''b'' ''q2'']"

text \<open>
  A table whose one row has a message of two lines, separated by a carriage return and
  a line feed as an editor on Windows leaves them, and the subset written from it.
\<close>

definition crlf_table :: "csv_row list" where
  "crlf_table = [example_row ''7'' ''a'' (''line1'' @ [CHR 0x0D, CHR 0x0A] @ ''line2'')]"

definition crlf_subset :: "csv_row list" where
  "crlf_subset = [example_row ''1'' ''a'' (''line1'' @ [CHR 0x0A] @ ''line2'')]"

section \<open>Auxiliary lemmas\<close>

subsection \<open>Loops and the flatteners\<close>

lemma for_each_invariant:
  assumes "for_each body xs s = Inr s'" and "I s"
    and "\<And>x t t'. x \<in> set xs \<Longrightarrow> I t \<Longrightarrow> body x t = Inr t' \<Longrightarrow> I t'"
  shows "I s'"
  using assms
proof (induction xs arbitrary: s)
  case Nil
  then show ?case by simp
next
  case (Cons x xs)
  from Cons.prems(1) obtain t where t: "body x s = Inr t" and r: "for_each body xs t = Inr s'"
    by (auto split: sum.splits)
  have "I t" using Cons.prems(3)[of x s t] Cons.prems(2) t by simp
  show ?case
    by (rule Cons.IH[OF r \<open>I t\<close>]) (use Cons.prems(3) in auto)
qed

lemma extract_step_skip:
  "content_of m = [] \<Longrightarrow> extract_step rnd randint ch ip mdl base m st = Inr st"
  by (simp add: extract_step_def)

lemma extract_step_user:
  "content_of m \<noteq> [] \<Longrightarrow> role_of m = ''user'' \<Longrightarrow>
   extract_step rnd randint ch ip mdl base m st = Inr (st\<lparr>pending := Some (content_of m)\<rparr>)"
  by (simp add: extract_step_def)

lemma extract_step_other:
  "role_of m \<noteq> ''user'' \<Longrightarrow> role_of m \<noteq> ''assistant'' \<Longrightarrow>
   extract_step rnd randint ch ip mdl base m st = Inr st"
  by (simp add: extract_step_def Let_def)

lemma extract_step_unpaired:
  "role_of m = ''assistant'' \<Longrightarrow> pending st = None \<Longrightarrow>
   extract_step rnd randint ch ip mdl base m st = Inr st"
  by (simp add: extract_step_def Let_def)

lemma extract_step_pair:
  assumes "content_of m \<noteq> []" "role_of m = ''assistant''" "pending st = Some u" "u \<noteq> []"
  shows "extract_step rnd randint ch ip mdl base m st =
     (case dt_add base (turn_num st * 30) of
        Inl e \<Rightarrow> Inl e
      | Inr ts \<Rightarrow>
          Inr (st\<lparr>pending := None, turn_num := turn_num st + 1,
                  turns := turns st @
                    [turn_dict None ch ip ts u (content_of m) mdl
                       (fst (generate_synthetic_metadata rnd (calculate_cost_A rnd) randint u (content_of m) mdl (gen st)))],
                  gen := snd (generate_synthetic_metadata rnd (calculate_cost_A rnd) randint u (content_of m) mdl (gen st))\<rparr>))"
  using assms by (simp add: extract_step_def Let_def split: prod.splits sum.splits)



lemma strip_nonempty_ends:
  assumes "strip s \<noteq> []"
  shows "\<not> isspace (hd (strip s))" "\<not> isspace (last (strip s))"
proof -
  let ?a = "dropWhile isspace s"
  let ?b = "dropWhile isspace (rev ?a)"
  have b: "?b \<noteq> []" using assms by (simp add: strip_def)
  then have hb: "\<not> isspace (hd ?b)" by (rule hd_dropWhile)
  have a: "?a \<noteq> []"
    using b by (metis dropWhile.simps(1) rev.simps(1))
  then have ha: "\<not> isspace (hd ?a)" by (rule hd_dropWhile)
  show "\<not> isspace (last (strip s))" using hb b by (simp add: strip_def last_rev)
  obtain ys where ys: "rev ?a = ys @ ?b"
    by (metis takeWhile_dropWhile_id)
  then have "?a = rev ?b @ rev ys" by (metis rev_append rev_rev_ident)
  then have "hd ?a = hd (rev ?b)" using b by (metis hd_append2 rev_is_Nil_conv)
  then show "\<not> isspace (hd (strip s))" using ha by (simp add: strip_def)
qed

lemma strip_idem: "strip (strip s) = strip s"
proof (cases "strip s = []")
  case True
  have "strip [] = []" by (simp add: strip_def)
  then show ?thesis using True by simp
next
  case False
  from strip_nonempty_ends[OF False]
  have h: "\<not> isspace (hd (strip s))" and l: "\<not> isspace (last (strip s))" by auto
  have 1: "dropWhile isspace (strip s) = strip s"
    using h by (simp only: dropWhile_eq_self_iff) simp
  have "hd (rev (strip s)) = last (strip s)" using False by (simp add: hd_rev)
  then have 2: "dropWhile isspace (rev (strip s)) = rev (strip s)"
    using l by (simp only: dropWhile_eq_self_iff) simp
  show ?thesis
    unfolding strip_def[of "strip s"] 1 2 by simp
qed

lemma turn_shape_turn_id: "turn_shape rnd calc (t\<lparr>turn_id := n\<rparr>) = turn_shape rnd calc t"
  by (simp add: turn_shape_def)

lemma turn_dict_shape:
  assumes "u \<noteq> []" "strip u = u" "a \<noteq> []" "strip a = a"
  shows "turn_shape rnd calc
           (turn_dict tid sid uid ts u a mdl (fst (generate_synthetic_metadata rnd calc randint u a mdl g)))"
  using assms
  by (simp add: turn_shape_def turn_dict_def generate_synthetic_metadata_def Let_def split: prod.splits)

lemma content_of_idem: "strip (content_of m) = content_of m"
  by (simp add: content_of_def strip_idem)

lemma extract_step_shape:
  assumes "extract_step rnd randint ch ip mdl base m st = Inr st'"
    and "pending_stripped st \<and> (\<forall>t \<in> set (turns st). turn_shape rnd (calculate_cost_A rnd) t)"
  shows "pending_stripped st' \<and> (\<forall>t \<in> set (turns st'). turn_shape rnd (calculate_cost_A rnd) t)"
proof (cases "content_of m = []")
  case True
  then show ?thesis using assms by (simp add: extract_step_skip)
next
  case c: False
  show ?thesis
  proof (cases "role_of m = ''user''")
    case True
    then show ?thesis using assms c
      by (auto simp add: extract_step_user pending_stripped_def content_of_idem)
  next
    case nu: False
    show ?thesis
    proof (cases "role_of m = ''assistant''")
      case False
      then show ?thesis using assms nu by (simp add: extract_step_other)
    next
      case a: True
      show ?thesis
      proof (cases "pending st")
        case None
        then show ?thesis using assms a by (simp add: extract_step_unpaired)
      next
        case (Some u)
        then have u: "u \<noteq> []" "strip u = u" using assms(2) by (simp_all add: pending_stripped_def)
        have "turn_shape rnd (calculate_cost_A rnd)
           (turn_dict None ch ip ts u (content_of m) mdl
              (fst (generate_synthetic_metadata rnd (calculate_cost_A rnd) randint u (content_of m) mdl (gen st))))" for ts
          by (rule turn_dict_shape[OF u c content_of_idem])
        then show ?thesis using assms
          by (auto simp add: extract_step_pair[OF c a Some u(1)] pending_stripped_def split: sum.splits)
      qed
    qed
  qed
qed

lemma extract_turns_shape:
  assumes "extract_turns_from_messages rnd randint ms ch ip mdl base g = Inr (ts, g')"
  shows "\<forall>t \<in> set ts. turn_shape rnd (calculate_cost_A rnd) t"
proof -
  from assms obtain st where
    st: "for_each (extract_step rnd randint ch ip mdl base) ms
           \<lparr>pending = None, turn_num = 1, turns = [], gen = g\<rparr> = Inr st" and ts: "ts = turns st"
    by (auto simp: extract_turns_from_messages_def split: sum.splits)
  have "pending_stripped st \<and> (\<forall>t \<in> set (turns st). turn_shape rnd (calculate_cost_A rnd) t)"
    by (rule for_each_invariant[OF st, where I = "\<lambda>s. pending_stripped s \<and> (\<forall>t \<in> set (turns s). turn_shape rnd (calculate_cost_A rnd) t)"])
       (auto simp: pending_stripped_def dest: extract_step_shape)
  then show ?thesis using ts by simp
qed

lemma add_turn_ids_rows:
  "fst (add_turn_ids ts (rows, n)) = rows @ map (\<lambda>(i, t). t\<lparr>turn_id := Some (n + int i)\<rparr>) (enumerate0 ts) \<and>
   snd (add_turn_ids ts (rows, n)) = n + int (length ts)"
proof (induction ts arbitrary: rows n)
  case Nil
  then show ?case by (simp add: enumerate0_def)
next
  case (Cons t ts)
  have "[0 ..< Suc (length ts)] = 0 # map Suc [0 ..< length ts]"
    by (simp add: upt_conv_Cons map_Suc_upt del: upt_Suc)
  then have "enumerate0 (t # ts) = (0, t) # map (\<lambda>(i, x). (Suc i, x)) (enumerate0 ts)"
    unfolding enumerate0_def by (simp add: zip_map1 del: upt_Suc)
  then show ?case using Cons.IH[of "rows @ [t\<lparr>turn_id := Some n\<rparr>]" "n + 1"]
    by (simp add: case_prod_beta comp_def add.assoc)
qed

lemma set_enumerate0: "(i, x) \<in> set (enumerate0 xs) \<Longrightarrow> x \<in> set xs"
  by (auto simp: enumerate0_def dest: set_zip_rightD)

lemma main_A_step_shape:
  assumes "main_A_step rnd randint fromisoformat ir st = Inr st'"
    and "\<forall>t \<in> set (output_rows st). turn_shape rnd (calculate_cost_A rnd) t"
  shows "\<forall>t \<in> set (output_rows st'). turn_shape rnd (calculate_cost_A rnd) t"
proof -
  consider (same) "st' = st"
    | (ext) base ts g' where
        "extract_turns_from_messages rnd randint (the (src_messages (snd ir))) (session_of_A ir)
           (case src_hashed_ip (snd ir) of None \<Rightarrow> ''user_'' @ str_nat (fst ir) | Some u \<Rightarrow> u)
           (case src_model (snd ir) of None \<Rightarrow> ''unknown'' | Some m \<Rightarrow> m) base (rng st) = Inr (ts, g')"
        "output_rows st' = fst (add_turn_ids ts (output_rows st, turn_id_counter st))"
    using assms(1)
    by (auto simp: main_A_step_def Let_def split: sum.splits option.splits if_splits prod.splits)
  then show ?thesis
  proof cases
    case same
    then show ?thesis using assms(2) by simp
  next
    case ext
    have "\<forall>t \<in> set ts. turn_shape rnd (calculate_cost_A rnd) t"
      using extract_turns_shape[OF ext(1)] .
    then show ?thesis using assms(2) ext(2)
      by (auto simp: add_turn_ids_rows turn_shape_turn_id dest: set_enumerate0)
  qed
qed

lemma main_A_shape:
  assumes "outfile (main_A rnd randint fromisoformat dataset g) = Some rows"
  shows "\<forall>t \<in> set rows. turn_shape rnd (calculate_cost_A rnd) t"
proof -
  from assms obtain st where
    st: "for_each (main_A_step rnd randint fromisoformat) (enumerate0 dataset)
           \<lparr>output_rows = [], turn_id_counter = 1, rng = g\<rparr> = Inr st" and rows: "rows = output_rows st"
    by (auto simp: main_A_def split: sum.splits)
  have "\<forall>t \<in> set (output_rows st). turn_shape rnd (calculate_cost_A rnd) t"
    by (rule for_each_invariant[OF st, where I = "\<lambda>s. \<forall>t \<in> set (output_rows s). turn_shape rnd (calculate_cost_A rnd) t"])
       (auto dest: main_A_step_shape)
  then show ?thesis using rows by simp
qed

lemma pair_step_shape:
  assumes "pair_step rnd randint row sid uid mdl sts k st = Inr st'"
    and "\<forall>t \<in> set (output_rows st). turn_shape rnd (calculate_cost_B rnd) t"
  shows "\<forall>t \<in> set (output_rows st'). turn_shape rnd (calculate_cost_B rnd) t"
proof -
  let ?u = "strip (the (row (''P'' @ str_nat k)))"
  let ?a = "strip (the (row (''R'' @ str_nat k)))"
  consider (same) "st' = st"
    | (new) ts where "?u \<noteq> []" "?a \<noteq> []"
        "output_rows st' = output_rows st @
           [turn_dict (Some (turn_id_counter st)) sid uid ts ?u ?a mdl
              (fst (generate_synthetic_metadata rnd (calculate_cost_B rnd) randint ?u ?a mdl (rng st)))]"
    using assms(1)
    by (auto simp: pair_step_def Let_def split: sum.splits if_splits prod.splits)
  then show ?thesis
  proof cases
    case same
    then show ?thesis using assms(2) by simp
  next
    case new
    have "turn_shape rnd (calculate_cost_B rnd)
            (turn_dict (Some (turn_id_counter st)) sid uid ts ?u ?a mdl
              (fst (generate_synthetic_metadata rnd (calculate_cost_B rnd) randint ?u ?a mdl (rng st))))"
      by (rule turn_dict_shape[OF new(1) strip_idem new(2) strip_idem])
    then show ?thesis using assms(2) new(3) by auto
  qed
qed

lemma main_B_step_shape:
  assumes "main_B_step rnd randint choice ir st = Inr st'"
    and "\<forall>t \<in> set (output_rows st). turn_shape rnd (calculate_cost_B rnd) t"
  shows "\<forall>t \<in> set (output_rows st'). turn_shape rnd (calculate_cost_B rnd) t"
proof -
  from assms(1) obtain sid uid mdl sts g2 inner where
    inner: "for_each (pair_step rnd randint (snd ir) sid uid mdl sts) [1 ..< 5]
              (st\<lparr>output_rows := [], rng := g2\<rparr>) = Inr inner"
    and st': "output_rows st' = output_rows st @ output_rows inner"
    by (auto simp: main_B_step_def Let_def split: sum.splits prod.splits)
  have "\<forall>t \<in> set (output_rows inner). turn_shape rnd (calculate_cost_B rnd) t"
    by (rule for_each_invariant[OF inner, where I = "\<lambda>s. \<forall>t \<in> set (output_rows s). turn_shape rnd (calculate_cost_B rnd) t"])
       (auto dest: pair_step_shape)
  then show ?thesis using assms(2) st' by auto
qed

lemma main_B_shape:
  assumes "outfile (main_B rnd randint choice load_dataset environ argv g) = Some rows"
  shows "\<forall>t \<in> set rows. turn_shape rnd (calculate_cost_B rnd) t"
proof -
  from assms obtain st ds where
    st: "for_each (main_B_step rnd randint choice) (enumerate0 ds)
           \<lparr>output_rows = [], turn_id_counter = 1, rng = g\<rparr> = Inr st" and rows: "rows = output_rows st"
    by (auto simp: main_B_def Let_def split: sum.splits if_splits)
  have "\<forall>t \<in> set (output_rows st). turn_shape rnd (calculate_cost_B rnd) t"
    by (rule for_each_invariant[OF st, where I = "\<lambda>s. \<forall>t \<in> set (output_rows s). turn_shape rnd (calculate_cost_B rnd) t"])
       (auto dest: main_B_step_shape)
  then show ?thesis using rows by simp
qed

lemma estimate_tokens_nonneg: "0 \<le> estimate_tokens s"
  by (simp add: estimate_tokens_def pos_imp_zdiv_nonneg_iff)






lemma content_of_says [simp]:
  "content_of (user_says s) = strip s" "content_of (assistant_says s) = strip s"
  "role_of (user_says s) = ''user''" "role_of (assistant_says s) = ''assistant''"
  by (simp_all add: content_of_def role_of_def user_says_def assistant_says_def)

lemma strip_letters [simp]:
  "strip ''a'' = ''a''" "strip ''b'' = ''b''" "strip ''c'' = ''c''" "strip ''x'' = ''x''"
  by (simp_all add: strip_def isspace_def)




lemma for_each_filter:
  assumes "\<And>x s. \<not> P x \<Longrightarrow> body x s = Inr s"
  shows "for_each body (filter P xs) s = for_each body xs s"
  by (induction xs arbitrary: s) (auto simp: assms split: sum.splits)

lemma pair_step_skip:
  assumes "row (''P'' @ str_nat k) = None \<or> row (''R'' @ str_nat k) = None \<or>
           strip (the (row (''P'' @ str_nat k))) = [] \<or> strip (the (row (''R'' @ str_nat k))) = []"
  shows "pair_step rnd randint row sid uid mdl sts k st = Inr st"
proof -
  have e: "strip [] = []" by (simp add: strip_def)
  show ?thesis using assms
    by (auto simp: pair_step_def Let_def truthy_def e split: option.splits)
qed

lemma model_costs_A_cases:
  "model_costs_A mdl =
     (if contains ''gpt-4'' (lower mdl) \<and> \<not> contains ''turbo'' (lower mdl) then (0.03, 0.06)
      else if contains ''gpt-4'' (lower mdl) then (0.01, 0.03)
      else if contains ''gpt-3.5'' (lower mdl) then (0.0015, 0.002)
      else if contains ''claude-3'' (lower mdl) then (0.003, 0.015)
      else if contains ''claude'' (lower mdl) then (0.008, 0.024)
      else if contains ''deepseek'' (lower mdl) then (0.0014, 0.0028)
      else (0.001, 0.002))"
  by (simp add: model_costs_A_def MODEL_COSTS_A_def Let_def)

lemma model_costs_B_table:
  "model_costs_B ''gpt-4'' = (0.03, 0.06)"
  "model_costs_B ''gpt-3.5-turbo'' = (0.0015, 0.002)"
  "model_costs_B ''claude-2'' = (0.008, 0.024)"
  "model_costs_B ''claude-instant'' = (0.0016, 0.0055)"
  by (simp_all add: model_costs_B_def MODEL_COSTS_B_def)

lemma model_costs_B_default:
  "mdl \<notin> set MODELS \<Longrightarrow> model_costs_B mdl = (0.001, 0.002)"
  by (simp add: model_costs_B_def MODEL_COSTS_B_def MODELS_def)

lemma main_B_no_token:
  assumes "\<not> truthy (get_token environ argv)"
  shows "main_B rnd randint choice load_dataset environ argv g =
           \<lparr>outfile = None, outcome = SysExit 1, printed = token_help\<rparr>"
  using assms by (simp add: main_B_def Let_def)

lemma main_B_token:
  assumes "truthy (get_token environ argv)"
  shows "outcome (main_B rnd randint choice load_dataset environ argv g) \<noteq> SysExit n"
  using assms by (simp add: main_B_def Let_def split: sum.splits)

lemma main_A_no_exit: "outcome (main_A rnd randint fromisoformat dataset g) \<noteq> SysExit n"
  by (simp add: main_A_def split: sum.splits)

lemma main_subset_no_exit: "outcome (main_subset py_int seed sample set_iter table) \<noteq> SysExit n"
  by (simp add: main_subset_def Let_def)

subsection \<open>Timestamps within a session\<close>

lemma spaced_Nil: "spaced R []"
  by (simp add: spaced_def)

lemma spaced_append:
  assumes "spaced R xs" "spaced R ys"
    and "\<forall>x \<in> set xs. \<forall>y \<in> set ys. session_id x \<noteq> session_id y"
  shows "spaced R (xs @ ys)"
  unfolding spaced_def
proof (intro allI impI)
  fix i j
  assume h: "i < j \<and> j < length (xs @ ys) \<and> session_id ((xs @ ys) ! i) = session_id ((xs @ ys) ! j)"
  show "R (j - i) (timestamp ((xs @ ys) ! i)) (timestamp ((xs @ ys) ! j))"
  proof (cases "j < length xs")
    case True
    then have i: "i < length xs" using h by simp
    have "R (j - i) (timestamp (xs ! i)) (timestamp (xs ! j))"
      using assms(1)[unfolded spaced_def, rule_format, of i j] h True i by (simp add: nth_append)
    then show ?thesis using True i by (simp add: nth_append)
  next
    case jy: False
    show ?thesis
    proof (cases "i < length xs")
      case True
      then have "xs ! i \<in> set xs" by simp
      moreover have "j - length xs < length ys" using jy h by auto
      then have "ys ! (j - length xs) \<in> set ys" by (rule nth_mem)
      ultimately have "session_id (xs ! i) \<noteq> session_id (ys ! (j - length xs))"
        using assms(3) by blast
      then show ?thesis using h True jy by (simp add: nth_append)
    next
      case False
      have d: "j - length xs - (i - length xs) = j - i" using False h by arith
      have 1: "i - length xs < j - length xs" using False h by arith
      have 2: "j - length xs < length ys" using jy h by auto
      have 3: "session_id (ys ! (i - length xs)) = session_id (ys ! (j - length xs))"
        using h False jy by (simp add: nth_append)
      have "R (j - length xs - (i - length xs)) (timestamp (ys ! (i - length xs)))
              (timestamp (ys ! (j - length xs)))"
        using assms(2)[unfolded spaced_def, rule_format, of "i - length xs" "j - length xs"] 1 2 3
        by simp
      then show ?thesis using False jy d by (simp add: nth_append)
    qed
  qed
qed

lemma spaced_cong:
  assumes "map session_id xs = map session_id ys" "map timestamp xs = map timestamp ys"
  shows "spaced R xs = spaced R ys"
proof -
  have l: "length xs = length ys" using assms(1) by (rule map_eq_imp_length_eq)
  have s: "session_id (xs ! i) = session_id (ys ! i)" if "i < length ys" for i
  proof -
    have "map session_id xs ! i = map session_id ys ! i" using assms(1) by simp
    then show ?thesis using that l by simp
  qed
  have t: "timestamp (xs ! i) = timestamp (ys ! i)" if "i < length ys" for i
  proof -
    have "map timestamp xs ! i = map timestamp ys ! i" using assms(2) by simp
    then show ?thesis using that l by simp
  qed
  have "(i < j \<and> j < length xs \<and> session_id (xs ! i) = session_id (xs ! j) \<longrightarrow>
          R (j - i) (timestamp (xs ! i)) (timestamp (xs ! j))) =
        (i < j \<and> j < length ys \<and> session_id (ys ! i) = session_id (ys ! j) \<longrightarrow>
          R (j - i) (timestamp (ys ! i)) (timestamp (ys ! j)))" for i j
    using s[of i] s[of j] t[of i] t[of j] l by auto
  then show ?thesis unfolding spaced_def by simp
qed

lemma blocks_loop:
  assumes "for_each step xs s = Inr s'"
    and "\<And>x t t'. x \<in> set xs \<Longrightarrow> step x t = Inr t' \<Longrightarrow>
           \<exists>block. output_rows t' = output_rows t @ block \<and>
                   (\<forall>r \<in> set block. session_id r = sess x) \<and> spaced R block"
    and "distinct (map sess xs)" "spaced R (output_rows s)"
    and "\<forall>r \<in> set (output_rows s). session_id r \<notin> sess ` set xs"
  shows "spaced R (output_rows s')"
  using assms
proof (induction xs arbitrary: s)
  case Nil
  then show ?case by simp
next
  case (Cons x xs)
  from Cons.prems(1) obtain t where t: "step x s = Inr t" and r: "for_each step xs t = Inr s'"
    by (auto split: sum.splits)
  from Cons.prems(2)[of x s t] t obtain block where
    b: "output_rows t = output_rows s @ block" "\<forall>r \<in> set block. session_id r = sess x" "spaced R block"
    by auto
  have 1: "spaced R (output_rows t)"
    unfolding b(1)
  proof (rule spaced_append[OF Cons.prems(4) b(3)], intro ballI)
    fix a c assume "a \<in> set (output_rows s)" "c \<in> set block"
    then show "session_id a \<noteq> session_id c" using Cons.prems(5) b(2) by auto
  qed
  have 2: "\<forall>r \<in> set (output_rows t). session_id r \<notin> sess ` set xs"
    using Cons.prems(3,5) b(1,2) by auto
  show ?case
  proof (rule Cons.IH[OF r _ _ 1 2])
    show "\<exists>block. output_rows t' = output_rows ta @ block \<and>
                   (\<forall>r \<in> set block. session_id r = sess y) \<and> spaced R block"
      if "y \<in> set xs" "step y ta = Inr t'" for y ta t'
      using Cons.prems(2)[of y ta t'] that by simp
    show "distinct (map sess xs)" using Cons.prems(3) by simp
  qed
qed

lemma extract_step_numbered:
  assumes "extract_step rnd randint ch ip mdl base m st = Inr st'" "numbered_A ch base st"
  shows "numbered_A ch base st'"
proof -
  consider (same) "turns st' = turns st" "turn_num st' = turn_num st"
    | (new) t where "turns st' = turns st @ [t]" "turn_num st' = turn_num st + 1"
        "session_id t = ch" "timestamp t = base + turn_num st * 30"
    using assms(1)
    by (auto simp: extract_step_def Let_def dt_add_def turn_dict_def
             split: if_splits prod.splits sum.splits option.splits)
  then show ?thesis
  proof cases
    case same
    then show ?thesis using assms(2) by (simp add: numbered_A_def)
  next
    case new
    show ?thesis unfolding numbered_A_def
    proof (intro conjI allI impI)
      show "turn_num st' = 1 + int (length (turns st'))"
        using new assms(2) by (simp add: numbered_A_def)
      fix k assume k: "k < length (turns st')"
      show "session_id (turns st' ! k) = ch"
        using new assms(2) k by (cases "k < length (turns st)") (auto simp: numbered_A_def nth_append)
      show "timestamp (turns st' ! k) = base + 30 * (int k + 1)"
      proof (cases "k < length (turns st)")
        case True
        then show ?thesis using new assms(2) by (simp add: numbered_A_def nth_append)
      next
        case False
        then have "k = length (turns st)" using k new by simp
        then show ?thesis using new assms(2) by (simp add: numbered_A_def nth_append)
      qed
    qed
  qed
qed

lemma extract_turns_numbered:
  assumes "extract_turns_from_messages rnd randint ms ch ip mdl base g = Inr (ts, g')"
  shows "\<forall>k < length ts. session_id (ts ! k) = ch \<and> timestamp (ts ! k) = base + 30 * (int k + 1)"
proof -
  from assms obtain st where
    st: "for_each (extract_step rnd randint ch ip mdl base) ms
           \<lparr>pending = None, turn_num = 1, turns = [], gen = g\<rparr> = Inr st" and ts: "ts = turns st"
    by (auto simp: extract_turns_from_messages_def split: sum.splits)
  have "numbered_A ch base st"
    by (rule for_each_invariant[OF st, where I = "numbered_A ch base"])
       (auto simp: numbered_A_def dest: extract_step_numbered)
  then show ?thesis using ts by (simp add: numbered_A_def)
qed

lemma numbered_spaced:
  assumes "\<forall>k < length ts. session_id (ts ! k) = ch \<and> timestamp (ts ! k) = base + 30 * (int k + 1)"
  shows "spaced spacing_A ts"
  unfolding spaced_def spacing_A_def
proof (intro allI impI)
  fix i j assume h: "i < j \<and> j < length ts \<and> session_id (ts ! i) = session_id (ts ! j)"
  then have "i < length ts" by simp
  then have "timestamp (ts ! i) = base + 30 * (int i + 1)" using assms by simp
  moreover have "timestamp (ts ! j) = base + 30 * (int j + 1)" using assms h by simp
  ultimately show "timestamp (ts ! j) = timestamp (ts ! i) + 30 * int (j - i)"
    using h by simp
qed

lemma add_turn_ids_block:
  "\<exists>block. fst (add_turn_ids ts (rows, n)) = rows @ block \<and>
           map session_id block = map session_id ts \<and> map timestamp block = map timestamp ts"
proof (induction ts arbitrary: rows n)
  case Nil
  then show ?case by simp
next
  case (Cons t ts)
  from Cons.IH[of "rows @ [t\<lparr>turn_id := Some n\<rparr>]" "n + 1"] obtain block where
    b: "fst (add_turn_ids ts (rows @ [t\<lparr>turn_id := Some n\<rparr>], n + 1)) =
          (rows @ [t\<lparr>turn_id := Some n\<rparr>]) @ block"
       "map session_id block = map session_id ts" "map timestamp block = map timestamp ts"
    by blast
  show ?case
  proof (intro exI conjI)
    show "fst (add_turn_ids (t # ts) (rows, n)) = rows @ (t\<lparr>turn_id := Some n\<rparr> # block)"
      using b(1) by simp
    show "map session_id (t\<lparr>turn_id := Some n\<rparr> # block) = map session_id (t # ts)"
      using b(2) by simp
    show "map timestamp (t\<lparr>turn_id := Some n\<rparr> # block) = map timestamp (t # ts)"
      using b(3) by simp
  qed
qed

lemma main_A_step_block:
  assumes "main_A_step rnd randint fromisoformat ir st = Inr st'"
  shows "\<exists>block. output_rows st' = output_rows st @ block \<and>
                 (\<forall>r \<in> set block. session_id r = session_of_A ir) \<and> spaced spacing_A block"
proof -
  consider (same) "output_rows st' = output_rows st"
    | (ext) base ts g' ip mdl where
        "extract_turns_from_messages rnd randint (the (src_messages (snd ir))) (session_of_A ir)
           ip mdl base (rng st) = Inr (ts, g')"
        "output_rows st' = fst (add_turn_ids ts (output_rows st, turn_id_counter st))"
    using assms
    by (auto simp: main_A_step_def Let_def split: sum.splits option.splits if_splits prod.splits)
  then show ?thesis
  proof cases
    case same
    then show ?thesis by (intro exI[of _ "[]"]) (simp add: spaced_Nil)
  next
    case ext
    note n = extract_turns_numbered[OF ext(1)]
    from add_turn_ids_block[of ts "output_rows st" "turn_id_counter st"] obtain block where
      b: "fst (add_turn_ids ts (output_rows st, turn_id_counter st)) = output_rows st @ block"
         "map session_id block = map session_id ts" "map timestamp block = map timestamp ts"
      by blast
    have "spaced spacing_A ts" using n by (rule numbered_spaced)
    then have 1: "spaced spacing_A block" using spaced_cong[OF b(2,3)] by simp
    have "set (map session_id ts) \<subseteq> {session_of_A ir}"
      using n by (auto simp: in_set_conv_nth)
    then have "set (map session_id block) \<subseteq> {session_of_A ir}" using b(2) by simp
    then have 2: "\<forall>r \<in> set block. session_id r = session_of_A ir" by auto
    show ?thesis using ext(2) b(1) 1 2 by auto
  qed
qed

lemma main_A_spaced:
  assumes "outfile (main_A rnd randint fromisoformat dataset g) = Some rows"
    and "distinct (map session_of_A (enumerate0 dataset))"
  shows "spaced spacing_A rows"
proof -
  from assms(1) obtain st where
    st: "for_each (main_A_step rnd randint fromisoformat) (enumerate0 dataset)
           \<lparr>output_rows = [], turn_id_counter = 1, rng = g\<rparr> = Inr st" and rows: "rows = output_rows st"
    by (auto simp: main_A_def split: sum.splits)
  have "spaced spacing_A (output_rows st)"
    by (rule blocks_loop[OF st _ assms(2)]) (auto simp: spaced_Nil dest: main_A_step_block)
  then show ?thesis using rows by simp
qed

lemma pair_step_effect:
  assumes "pair_step rnd randint row sid uid mdl sts k st = Inr st'"
  shows "output_rows st' = output_rows st \<or>
         (\<exists>t. output_rows st' = output_rows st @ [t] \<and> session_id t = sid \<and>
              timestamp t = sts + (int k - 1) * 60)"
  using assms
  by (auto simp: pair_step_def Let_def dt_add_def turn_dict_def
           split: if_splits prod.splits sum.splits)

lemma pair_step_block:
  assumes "pair_step rnd randint row sid uid mdl sts k st = Inr st'"
    and "block_B sid sts k (output_rows st)" "1 \<le> k"
  shows "block_B sid sts (Suc k) (output_rows st')"
proof -
  have up: "\<exists>j. 1 \<le> j \<and> j < Suc k \<and> timestamp t = sts + (int j - 1) * 60"
    if "t \<in> set (output_rows st)" for t
    using assms(2) that unfolding block_B_def by (meson less_Suc_eq)
  from pair_step_effect[OF assms(1)] show ?thesis
  proof
    assume "output_rows st' = output_rows st"
    then show ?thesis using assms(2) up by (auto simp: block_B_def)
  next
    assume "\<exists>t. output_rows st' = output_rows st @ [t] \<and> session_id t = sid \<and>
              timestamp t = sts + (int k - 1) * 60"
    then obtain t where t: "output_rows st' = output_rows st @ [t]" "session_id t = sid"
      "timestamp t = sts + (int k - 1) * 60" by blast
    have lt: "timestamp r < timestamp t" if "r \<in> set (output_rows st)" for r
    proof -
      from assms(2) that obtain j where "1 \<le> j" "j < k" "timestamp r = sts + (int j - 1) * 60"
        unfolding block_B_def by blast
      then show ?thesis using t(3) by simp
    qed
    have s: "sorted_wrt (\<lambda>a b. timestamp a < timestamp b) (output_rows st @ [t])"
      using assms(2) lt by (simp add: block_B_def sorted_wrt_append)
    have m: "\<forall>r \<in> set (output_rows st @ [t]). session_id r = sid \<and>
               (\<exists>j. 1 \<le> j \<and> j < Suc k \<and> timestamp r = sts + (int j - 1) * 60)"
    proof
      fix r assume "r \<in> set (output_rows st @ [t])"
      then consider "r \<in> set (output_rows st)" | "r = t" by auto
      then show "session_id r = sid \<and> (\<exists>j. 1 \<le> j \<and> j < Suc k \<and> timestamp r = sts + (int j - 1) * 60)"
      proof cases
        case 1
        then show ?thesis using assms(2) up by (simp add: block_B_def)
      next
        case 2
        then show ?thesis using t assms(3) by (intro conjI exI[of _ k]) simp_all
      qed
    qed
    show ?thesis unfolding block_B_def t(1) using m s by simp
  qed
qed

lemma range_1_5: "[1 ..< 5] = [1, 2, 3, Suc 3]"
  by (simp add: upt_rec)

lemma pairs_loop_block:
  assumes "for_each (pair_step rnd randint row sid uid mdl sts) [1 ..< 5] st = Inr st'"
    and "output_rows st = []"
  shows "block_B sid sts 5 (output_rows st')"
proof -
  from assms(1) obtain s1 s2 s3 where
    1: "pair_step rnd randint row sid uid mdl sts 1 st = Inr s1" and
    2: "pair_step rnd randint row sid uid mdl sts 2 s1 = Inr s2" and
    3: "pair_step rnd randint row sid uid mdl sts 3 s2 = Inr s3" and
    4: "pair_step rnd randint row sid uid mdl sts (Suc 3) s3 = Inr st'"
    unfolding range_1_5 by (auto split: sum.splits)
  have b1: "block_B sid sts 1 (output_rows st)" using assms(2) by (simp add: block_B_def)
  have b2: "block_B sid sts (Suc 1) (output_rows s1)" by (rule pair_step_block[OF 1 b1]) simp
  have b3: "block_B sid sts (Suc 2) (output_rows s2)"
    by (rule pair_step_block[OF 2]) (use b2 in \<open>simp_all add: numeral_2_eq_2\<close>)
  have b4: "block_B sid sts (Suc 3) (output_rows s3)"
    by (rule pair_step_block[OF 3]) (use b3 in \<open>simp_all add: numeral_3_eq_3\<close>)
  have b5: "block_B sid sts (Suc (Suc 3)) (output_rows st')"
    by (rule pair_step_block[OF 4 b4]) simp
  have "Suc (Suc 3) = 5" by simp
  then show ?thesis using b5 by simp
qed

lemma block_B_spaced:
  assumes "block_B sid sts 5 rows"
  shows "spaced spacing_B rows"
  unfolding spaced_def spacing_B_def
proof (intro allI impI)
  fix i j assume h: "i < j \<and> j < length rows \<and> session_id (rows ! i) = session_id (rows ! j)"
  then have i: "i < length rows" by simp
  have lt: "timestamp (rows ! i) < timestamp (rows ! j)"
    using assms h by (simp add: block_B_def sorted_wrt_iff_nth_less)
  from assms i obtain a where a: "1 \<le> a" "a < 5" "timestamp (rows ! i) = sts + (int a - 1) * 60"
    unfolding block_B_def using nth_mem by blast
  from assms h obtain b where b: "1 \<le> b" "b < 5" "timestamp (rows ! j) = sts + (int b - 1) * 60"
    unfolding block_B_def using nth_mem by blast
  have "a < b" using lt a(3) b(3) by simp
  then have "b = a + 1 \<or> b = a + 2 \<or> b = a + 3" using a(1) b(2) by arith
  then show "timestamp (rows ! j) = timestamp (rows ! i) + 60 \<or>
             timestamp (rows ! j) = timestamp (rows ! i) + 120 \<or>
             timestamp (rows ! j) = timestamp (rows ! i) + 180"
    using a(3) b(3) by auto
qed

lemma main_B_step_block:
  assumes "main_B_step rnd randint choice ir st = Inr st'"
  shows "\<exists>block. output_rows st' = output_rows st @ block \<and>
                 (\<forall>r \<in> set block. session_id r = session_of_B (fst ir)) \<and> spaced spacing_B block"
proof -
  from assms obtain uid mdl sts g2 inner where
    inner: "for_each (pair_step rnd randint (snd ir) (session_of_B (fst ir)) uid mdl sts) [1 ..< 5]
              (st\<lparr>output_rows := [], rng := g2\<rparr>) = Inr inner"
    and st': "output_rows st' = output_rows st @ output_rows inner"
    by (auto simp: main_B_step_def Let_def split: sum.splits prod.splits)
  have b: "block_B (session_of_B (fst ir)) sts 5 (output_rows inner)"
    by (rule pairs_loop_block[OF inner]) simp
  then have "spaced spacing_B (output_rows inner)" by (rule block_B_spaced)
  moreover have "\<forall>r \<in> set (output_rows inner). session_id r = session_of_B (fst ir)"
    using b by (simp add: block_B_def)
  ultimately show ?thesis using st' by blast
qed

subsection \<open>Decimal numerals\<close>

lemma digit_value_char_of:
  "d < 10 \<Longrightarrow> digit_value (char_of (48 + d)) = Some (int d)"
  by (simp add: digit_value_def Let_def)

lemma decimal_from_append:
  "decimal_from acc (xs @ ys) =
     (case decimal_from acc xs of None \<Rightarrow> None | Some v \<Rightarrow> decimal_from v ys)"
  by (induction xs arbitrary: acc) (auto split: option.splits)

lemma decimal_from_str_nat: "decimal_from 0 (str_nat n) = Some (int n)"
proof (induction n rule: str_nat.induct)
  case (1 n)
  show ?case
  proof (cases "n < 10")
    case True
    then show ?thesis by (subst str_nat.simps) (simp add: digit_value_char_of)
  next
    case False
    have m: "n mod 10 < 10" by simp
    have "decimal_from 0 (str_nat n) =
            decimal_from 0 (str_nat (n div 10) @ [char_of (48 + n mod 10)])"
      using False by (subst str_nat.simps) simp
    also have "\<dots> = decimal_from (int (n div 10)) [char_of (48 + n mod 10)]"
      using 1[OF False] by (simp add: decimal_from_append)
    also have "\<dots> = Some (10 * int (n div 10) + int (n mod 10))"
      using digit_value_char_of[OF m] by simp
    also have "10 * int (n div 10) + int (n mod 10) = int n"
      by (simp add: zdiv_int zmod_int)
    finally show ?thesis .
  qed
qed

lemma decimal_from_zeros: "decimal_from 0 (replicate k CHR ''0'' @ s) = decimal_from 0 s"
  by (induction k) (simp_all add: digit_value_def)

lemma decimal_from_format_05d: "decimal_from 0 (format_05d n) = Some (int n)"
  by (simp add: format_05d_def decimal_from_zeros decimal_from_str_nat)

lemma session_of_B_inj: "session_of_B i = session_of_B j \<Longrightarrow> i = j"
proof -
  assume "session_of_B i = session_of_B j"
  then have "format_05d (i + 1) = format_05d (j + 1)" by (simp add: session_of_B_def)
  then have "decimal_from 0 (format_05d (i + 1)) = decimal_from 0 (format_05d (j + 1))" by simp
  then show "i = j" by (simp add: decimal_from_format_05d)
qed

lemma distinct_sessions_B: "distinct (map (\<lambda>ir. session_of_B (fst ir)) (enumerate0 dataset))"
proof -
  have "map fst (enumerate0 dataset) = [0 ..< length dataset]" by (simp add: enumerate0_def)
  then have "map (\<lambda>ir. session_of_B (fst ir)) (enumerate0 dataset) = map session_of_B [0 ..< length dataset]"
    by (metis (mono_tags, lifting) map_map comp_def map_eq_conv)
  moreover have "distinct (map session_of_B [0 ..< length dataset])"
    by (simp add: distinct_map inj_on_def session_of_B_inj)
  ultimately show ?thesis by simp
qed

lemma main_B_spaced:
  assumes "outfile (main_B rnd randint choice load_dataset environ argv g) = Some rows"
  shows "spaced spacing_B rows"
proof -
  from assms obtain st ds where
    st: "for_each (main_B_step rnd randint choice) (enumerate0 ds)
           \<lparr>output_rows = [], turn_id_counter = 1, rng = g\<rparr> = Inr st" and rows: "rows = output_rows st"
    by (auto simp: main_B_def Let_def split: sum.splits if_splits)
  have "spaced spacing_B (output_rows st)"
    by (rule blocks_loop[OF st _ distinct_sessions_B]) (auto simp: spaced_Nil dest: main_B_step_block)
  then show ?thesis using rows by simp
qed

lemma pair_step_origin:
  assumes "pair_step rnd randint row sid uid mdl sts k st = Inr st'"
  shows "output_rows st' = output_rows st \<or>
         (\<exists>t. output_rows st' = output_rows st @ [t] \<and> turn_of_pair row sid sts k t)"
  using assms
  by (auto simp: pair_step_def Let_def dt_add_def turn_dict_def turn_of_pair_def
           split: if_splits prod.splits sum.splits)

lemma pairs_loop_origin:
  assumes "for_each (pair_step rnd randint row sid uid mdl sts) [1 ..< 5] st = Inr st'"
    and "output_rows st = []"
  shows "\<forall>t \<in> set (output_rows st'). \<exists>k. 1 \<le> k \<and> k \<le> 4 \<and> turn_of_pair row sid sts k t"
proof -
  let ?I = "\<lambda>s. \<forall>t \<in> set (output_rows s). \<exists>k. 1 \<le> k \<and> k \<le> 4 \<and> turn_of_pair row sid sts k t"
  show ?thesis
  proof (rule for_each_invariant[OF assms(1), where I = ?I])
    show "?I st" using assms(2) by simp
  next
    fix k s s'
    assume k: "k \<in> set [1 ..< 5]" and I: "?I s"
      and step: "pair_step rnd randint row sid uid mdl sts k s = Inr s'"
    have kk: "1 \<le> k \<and> k \<le> 4" using k by auto
    from pair_step_origin[OF step] show "?I s'"
    proof
      assume "output_rows s' = output_rows s"
      then show ?thesis using I by simp
    next
      assume "\<exists>t. output_rows s' = output_rows s @ [t] \<and> turn_of_pair row sid sts k t"
      then obtain t where t: "output_rows s' = output_rows s @ [t]" "turn_of_pair row sid sts k t"
        by blast
      show ?thesis
      proof
        fix r assume "r \<in> set (output_rows s')"
        then consider "r \<in> set (output_rows s)" | "r = t" using t(1) by auto
        then show "\<exists>k. 1 \<le> k \<and> k \<le> 4 \<and> turn_of_pair row sid sts k r"
        proof cases
          case 1
          then show ?thesis using I by simp
        next
          case 2
          then show ?thesis using t(2) kk by blast
        qed
      qed
    qed
  qed
qed

lemma nth_enumerate0: "(i, x) \<in> set (enumerate0 xs) \<Longrightarrow> i < length xs \<and> x = xs ! i"
  by (auto simp: enumerate0_def in_set_zip)

lemma main_B_step_origin:
  assumes "main_B_step rnd randint choice ir st = Inr st'"
  shows "\<exists>block. output_rows st' = output_rows st @ block \<and>
           (\<forall>t \<in> set block. \<exists>k. 1 \<le> k \<and> k \<le> 4 \<and>
              turn_of_pair (snd ir) (session_of_B (fst ir))
                (datetime_2024_01_15_10 + int (fst ir) * 5 * 60) k t)"
proof -
  from assms obtain uid mdl sts g2 inner where
    sts: "dt_add datetime_2024_01_15_10 (int (fst ir) * 5 * 60) = Inr sts"
    and inner: "for_each (pair_step rnd randint (snd ir) (session_of_B (fst ir)) uid mdl sts) [1 ..< 5]
              (st\<lparr>output_rows := [], rng := g2\<rparr>) = Inr inner"
    and st': "output_rows st' = output_rows st @ output_rows inner"
    by (auto simp: main_B_step_def Let_def split: sum.splits prod.splits)
  have e: "sts = datetime_2024_01_15_10 + int (fst ir) * 5 * 60"
    using sts by (auto simp: dt_add_def Let_def split: if_splits)
  have "\<forall>t \<in> set (output_rows inner). \<exists>k. 1 \<le> k \<and> k \<le> 4 \<and>
          turn_of_pair (snd ir) (session_of_B (fst ir)) sts k t"
    by (rule pairs_loop_origin[OF inner]) simp
  then show ?thesis using st' unfolding e by blast
qed

lemma main_B_origin:
  assumes "outfile (main_B rnd randint choice load_dataset environ argv g) = Some rows"
  shows "\<forall>t \<in> set rows. \<exists>idx k.
           idx < length (load_dataset (the (get_token environ argv))) \<and> 1 \<le> k \<and> k \<le> 4 \<and>
           turn_of_pair (load_dataset (the (get_token environ argv)) ! idx) (session_of_B idx)
             (datetime_2024_01_15_10 + int idx * 5 * 60) k t"
proof -
  let ?ds = "load_dataset (the (get_token environ argv))"
  let ?I = "\<lambda>s. \<forall>t \<in> set (output_rows s). \<exists>idx k. idx < length ?ds \<and> 1 \<le> k \<and> k \<le> 4 \<and>
           turn_of_pair (?ds ! idx) (session_of_B idx) (datetime_2024_01_15_10 + int idx * 5 * 60) k t"
  from assms obtain st where
    st: "for_each (main_B_step rnd randint choice) (enumerate0 ?ds)
           \<lparr>output_rows = [], turn_id_counter = 1, rng = g\<rparr> = Inr st" and rows: "rows = output_rows st"
    by (auto simp: main_B_def Let_def split: sum.splits if_splits)
  have "?I st"
  proof (rule for_each_invariant[OF st, where I = ?I])
    show "?I \<lparr>output_rows = [], turn_id_counter = 1, rng = g\<rparr>" by simp
  next
    fix ir s s'
    assume m: "ir \<in> set (enumerate0 ?ds)" and I: "?I s"
      and step: "main_B_step rnd randint choice ir s = Inr s'"
    have ir: "fst ir < length ?ds \<and> snd ir = ?ds ! fst ir"
      using nth_enumerate0[of "fst ir" "snd ir" ?ds] m by simp
    from main_B_step_origin[OF step] obtain block where
      b: "output_rows s' = output_rows s @ block"
      and o: "\<forall>t \<in> set block. \<exists>k. 1 \<le> k \<and> k \<le> 4 \<and>
              turn_of_pair (snd ir) (session_of_B (fst ir))
                (datetime_2024_01_15_10 + int (fst ir) * 5 * 60) k t"
      by blast
    show "?I s'"
    proof
      fix t assume "t \<in> set (output_rows s')"
      then consider "t \<in> set (output_rows s)" | "t \<in> set block" using b by auto
      then show "\<exists>idx k. idx < length ?ds \<and> 1 \<le> k \<and> k \<le> 4 \<and>
           turn_of_pair (?ds ! idx) (session_of_B idx) (datetime_2024_01_15_10 + int idx * 5 * 60) k t"
      proof cases
        case 1
        then show ?thesis using I by simp
      next
        case 2
        then obtain k where "1 \<le> k \<and> k \<le> 4 \<and>
              turn_of_pair (snd ir) (session_of_B (fst ir))
                (datetime_2024_01_15_10 + int (fst ir) * 5 * 60) k t" using o by blast
        then show ?thesis using ir by (intro exI[of _ "fst ir"] exI[of _ k]) simp
      qed
    qed
  qed
  then show ?thesis using rows by simp
qed

subsection \<open>Grouping the rows\<close>

lemma map_of_append_to:
  "map_of (append_to k v kvs) =
     (map_of kvs)(k \<mapsto> (case map_of kvs k of None \<Rightarrow> [v] | Some vs \<Rightarrow> vs @ [v]))"
  by (induction kvs) (auto simp: fun_eq_iff)

lemma keys_append_to:
  "map fst (append_to k v kvs) = (if k \<in> set (map fst kvs) then map fst kvs else map fst kvs @ [k])"
  by (induction kvs) auto

lemma group_rows_snoc:
  "group_rows (xs @ [x]) = append_to (row_session_id x) x (group_rows xs)"
  by (simp add: group_rows_def)

lemma keys_group_rows:
  "distinct (map fst (group_rows xs)) \<and> set (map fst (group_rows xs)) = row_session_id ` set xs"
proof (induction xs rule: rev_induct)
  case Nil
  then show ?case by (simp add: group_rows_def)
next
  case (snoc x xs)
  then show ?case by (auto simp: group_rows_snoc keys_append_to)
qed

lemma map_of_group_rows:
  "map_of (group_rows xs) k =
     (if k \<in> row_session_id ` set xs then Some (filter (\<lambda>r. row_session_id r = k) xs) else None)"
proof (induction xs rule: rev_induct)
  case Nil
  then show ?case by (simp add: group_rows_def)
next
  case (snoc x xs)
  have e: "filter (\<lambda>r. row_session_id r = k) xs = []" if "k \<notin> row_session_id ` set xs"
    using that by (auto simp: filter_empty_conv)
  show ?case
  proof (cases "k = row_session_id x")
    case True
    then show ?thesis using snoc e by (simp add: group_rows_snoc map_of_append_to)
  next
    case False
    then show ?thesis using snoc by (simp add: group_rows_snoc map_of_append_to)
  qed
qed

lemma rows_of_group_rows:
  "rows_of (group_rows xs) k = filter (\<lambda>r. row_session_id r = k) xs"
proof (cases "k \<in> row_session_id ` set xs")
  case True
  then show ?thesis by (simp add: rows_of_def map_of_group_rows)
next
  case False
  then have "filter (\<lambda>r. row_session_id r = k) xs = []" by (auto simp: filter_empty_conv)
  then show ?thesis using False by (simp add: rows_of_def map_of_group_rows)
qed

lemma group_rows_entry:
  assumes "kv \<in> set (group_rows xs)"
  shows "snd kv = filter (\<lambda>r. row_session_id r = fst kv) xs \<and> snd kv \<noteq> []"
proof -
  have d: "distinct (map fst (group_rows xs))" using keys_group_rows by blast
  have "(fst kv, snd kv) \<in> set (group_rows xs)" using assms by simp
  then have "map_of (group_rows xs) (fst kv) = Some (snd kv)"
    using map_of_eq_Some_iff[OF d] by blast
  moreover have "fst kv \<in> row_session_id ` set xs"
    using assms keys_group_rows[of xs] by (metis image_eqI set_map)
  ultimately have e: "snd kv = filter (\<lambda>r. row_session_id r = fst kv) xs"
    by (simp add: map_of_group_rows)
  have "filter (\<lambda>r. row_session_id r = fst kv) xs \<noteq> []"
    using \<open>fst kv \<in> row_session_id ` set xs\<close> by (auto simp: filter_empty_conv)
  then show ?thesis using e by simp
qed

lemma single_turn_iff:
  "s \<in> set (single_turn (group_rows xs)) \<longleftrightarrow> length (filter (\<lambda>r. row_session_id r = s) xs) = 1"
proof
  assume "s \<in> set (single_turn (group_rows xs))"
  then obtain kv where kv: "kv \<in> set (group_rows xs)" "length (snd kv) = 1" "fst kv = s"
    by (auto simp: single_turn_def)
  then show "length (filter (\<lambda>r. row_session_id r = s) xs) = 1"
    using group_rows_entry[OF kv(1)] by simp
next
  assume l: "length (filter (\<lambda>r. row_session_id r = s) xs) = 1"
  then have "filter (\<lambda>r. row_session_id r = s) xs \<noteq> []" by auto
  then have "s \<in> row_session_id ` set xs" by (auto simp: filter_empty_conv)
  then have "map_of (group_rows xs) s = Some (filter (\<lambda>r. row_session_id r = s) xs)"
    by (simp add: map_of_group_rows)
  then have "(s, filter (\<lambda>r. row_session_id r = s) xs) \<in> set (group_rows xs)"
    by (rule map_of_SomeD)
  then show "s \<in> set (single_turn (group_rows xs))"
    using l by (force simp: single_turn_def)
qed

lemma multi_turn_iff:
  "s \<in> set (multi_turn (group_rows xs)) \<longleftrightarrow> 2 \<le> length (filter (\<lambda>r. row_session_id r = s) xs)"
proof
  assume "s \<in> set (multi_turn (group_rows xs))"
  then obtain kv where kv: "kv \<in> set (group_rows xs)" "length (snd kv) \<noteq> 1" "fst kv = s"
    by (auto simp: multi_turn_def)
  have "snd kv \<noteq> []" using group_rows_entry[OF kv(1)] by blast
  then have "2 \<le> length (snd kv)" using kv(2) by (cases "snd kv") (auto simp: Suc_le_eq)
  then show "2 \<le> length (filter (\<lambda>r. row_session_id r = s) xs)"
    using group_rows_entry[OF kv(1)] kv(3) by simp
next
  assume l: "2 \<le> length (filter (\<lambda>r. row_session_id r = s) xs)"
  then have "filter (\<lambda>r. row_session_id r = s) xs \<noteq> []" by auto
  then have "s \<in> row_session_id ` set xs" by (auto simp: filter_empty_conv)
  then have "map_of (group_rows xs) s = Some (filter (\<lambda>r. row_session_id r = s) xs)"
    by (simp add: map_of_group_rows)
  then have "(s, filter (\<lambda>r. row_session_id r = s) xs) \<in> set (group_rows xs)"
    by (rule map_of_SomeD)
  then show "s \<in> set (multi_turn (group_rows xs))"
    using l by (force simp: multi_turn_def)
qed

lemma pools_distinct:
  "distinct (single_turn (group_rows xs) @ multi_turn (group_rows xs))"
proof -
  have d: "distinct (map fst (group_rows xs))" using keys_group_rows by blast
  have 1: "distinct (single_turn (group_rows xs))"
    unfolding single_turn_def using d by (rule distinct_map_filter)
  have 2: "distinct (multi_turn (group_rows xs))"
    unfolding multi_turn_def using d by (rule distinct_map_filter)
  have 3: "set (single_turn (group_rows xs)) \<inter> set (multi_turn (group_rows xs)) = {}"
    using single_turn_iff[of _ xs] multi_turn_iff[of _ xs] by fastforce
  show ?thesis using 1 2 3 by simp
qed

lemma pools_are_sessions:
  "set (single_turn (group_rows xs) @ multi_turn (group_rows xs)) = row_session_id ` set xs"
proof -
  have "set (single_turn (group_rows xs) @ multi_turn (group_rows xs)) = set (map fst (group_rows xs))"
    by (auto simp: single_turn_def multi_turn_def)
  then show ?thesis using keys_group_rows[of xs] by simp
qed

subsection \<open>Collecting the rows of the selected sessions\<close>

lemma mset_filter_disjoint:
  assumes "\<And>x. \<not> (P x \<and> Q x)"
  shows "mset (filter P xs) + mset (filter Q xs) = mset (filter (\<lambda>x. P x \<or> Q x) xs)"
  using assms by (induction xs) auto

lemma mset_collect_rows:
  assumes "distinct S"
  shows "mset (collect_rows (group_rows xs) S) = mset (filter (\<lambda>r. row_session_id r \<in> set S) xs)"
  using assms
proof (induction S)
  case Nil
  then show ?case by (simp add: collect_rows_def)
next
  case (Cons s S)
  have IH: "mset (collect_rows (group_rows xs) S) = mset (filter (\<lambda>r. row_session_id r \<in> set S) xs)"
    using Cons by simp
  have "mset (collect_rows (group_rows xs) (s # S)) =
          mset (filter (\<lambda>r. row_session_id r = s) xs) + mset (collect_rows (group_rows xs) S)"
    by (simp add: collect_rows_def rows_of_group_rows)
  also have "\<dots> = mset (filter (\<lambda>r. row_session_id r = s) xs) +
                   mset (filter (\<lambda>r. row_session_id r \<in> set S) xs)"
    using IH by simp
  also have "\<dots> = mset (filter (\<lambda>r. row_session_id r = s \<or> row_session_id r \<in> set S) xs)"
    by (rule mset_filter_disjoint) (use Cons.prems in auto)
  also have "\<dots> = mset (filter (\<lambda>r. row_session_id r \<in> set (s # S)) xs)"
    by simp
  finally show ?case .
qed

subsection \<open>Samples without replacement\<close>

lemma distinct_sub:
  assumes "mset xs \<subseteq># mset ys" "distinct ys"
  shows "distinct xs"
proof -
  have le: "count (mset xs) a \<le> 1" for a
  proof -
    have "count (mset xs) a \<le> count (mset ys) a" using assms(1) by (rule mset_subset_eq_count)
    also have "\<dots> \<le> 1" using assms(2) by (simp add: distinct_count_atmost_1)
    finally show ?thesis .
  qed
  have "count (mset xs) a = (if a \<in> set xs then 1 else 0)" for a
  proof (cases "a \<in> set xs")
    case True
    then have "count (mset xs) a \<noteq> 0" by simp
    then have "count (mset xs) a = 1" using le[of a] by arith
    then show ?thesis using True by simp
  next
    case False
    then show ?thesis by simp
  qed
  then show ?thesis by (simp add: distinct_count_atmost_1)
qed

lemma sub_same_size:
  assumes "mset xs \<subseteq># mset ys" "length xs = length ys"
  shows "mset xs = mset ys"
proof -
  from assms(1) obtain C where C: "mset ys = mset xs + C"
    by (auto simp: mset_subset_eq_exists_conv)
  then have "size (mset ys) = size (mset xs) + size C" by simp
  then have "C = {#}" using assms(2) by simp
  then show ?thesis using C by simp
qed

lemma clamp_targets_eq:
  "clamp_targets a b =
     ((min 300 a, min 200 b),
      (if a < 300 then [Only_single a 300] else []) @ (if b < 200 then [Only_multi b 200] else []))"
  by (simp add: clamp_targets_def Let_def min_def)

lemma selected_sessions_eq:
  "selected_sessions seed sample set_iter conv =
     set_iter
       (fst (sample (seed 42) (single_turn conv) (min 300 (length (single_turn conv)))) @
        fst (sample (snd (sample (seed 42) (single_turn conv) (min 300 (length (single_turn conv)))))
               (multi_turn conv) (min 200 (length (multi_turn conv)))))"
  by (simp add: selected_sessions_def clamp_targets_eq Let_def split: prod.splits)

lemma selection_facts:
  fixes table :: "csv_row list" and seed :: "int \<Rightarrow> 'g"
  assumes "sample_contract sample" "set_contract set_iter"
  defines "conv \<equiv> group_rows table"
  defines "sel \<equiv> selected_sessions seed sample set_iter conv"
  shows "distinct sel"
    and "length sel = min 300 (length (single_turn conv)) + min 200 (length (multi_turn conv))"
    and "set sel \<subseteq> row_session_id ` set table"
    and "length (single_turn conv) \<le> 300 \<Longrightarrow> set (single_turn conv) \<subseteq> set sel"
    and "length (multi_turn conv) \<le> 200 \<Longrightarrow> set (multi_turn conv) \<subseteq> set sel"
proof -
  let ?s1 = "fst (sample (seed 42) (single_turn conv) (min 300 (length (single_turn conv))))"
  let ?g1 = "snd (sample (seed 42) (single_turn conv) (min 300 (length (single_turn conv))))"
  let ?s2 = "fst (sample ?g1 (multi_turn conv) (min 200 (length (multi_turn conv))))"
  have sel: "sel = set_iter (?s1 @ ?s2)" unfolding sel_def by (rule selected_sessions_eq)
  have c1: "length ?s1 = min 300 (length (single_turn conv)) \<and> mset ?s1 \<subseteq># mset (single_turn conv)"
    using assms(1)[unfolded sample_contract_def, rule_format, of "min 300 (length (single_turn conv))" "single_turn conv" "seed 42"]
    by simp
  have c2: "length ?s2 = min 200 (length (multi_turn conv)) \<and> mset ?s2 \<subseteq># mset (multi_turn conv)"
    using assms(1)[unfolded sample_contract_def, rule_format, of "min 200 (length (multi_turn conv))" "multi_turn conv" ?g1]
    by simp
  have sub: "mset (?s1 @ ?s2) \<subseteq># mset (single_turn conv @ multi_turn conv)"
    using c1 c2 by (simp add: subset_mset.add_mono)
  have d: "distinct (?s1 @ ?s2)"
    using sub pools_distinct[of table] unfolding conv_def by (rule distinct_sub)
  have it: "distinct sel \<and> set sel = set (?s1 @ ?s2)"
    using assms(2) unfolding sel set_contract_def by blast
  show "distinct sel" using it by simp
  have ds: "distinct sel" using it by (rule conjunct1)
  have "length sel = card (set sel)" using distinct_card[OF ds] by (rule sym)
  also have "\<dots> = card (set (?s1 @ ?s2))" using it by (simp only:)
  also have "\<dots> = length (?s1 @ ?s2)" using d by (rule distinct_card)
  finally show "length sel = min 300 (length (single_turn conv)) + min 200 (length (multi_turn conv))"
    using c1 c2 by simp
  have "set (?s1 @ ?s2) \<subseteq> set (single_turn conv @ multi_turn conv)"
    using set_mset_mono[OF sub] by simp
  then show "set sel \<subseteq> row_session_id ` set table"
    using it pools_are_sessions[of table] unfolding conv_def by simp
  show "set (single_turn conv) \<subseteq> set sel" if "length (single_turn conv) \<le> 300"
  proof -
    have "length ?s1 = length (single_turn conv)" using c1 that by simp
    then have "mset ?s1 = mset (single_turn conv)" using c1 sub_same_size by blast
    then have "set ?s1 = set (single_turn conv)" by (rule mset_eq_setD)
    then show ?thesis using it by auto
  qed
  show "set (multi_turn conv) \<subseteq> set sel" if "length (multi_turn conv) \<le> 200"
  proof -
    have "length ?s2 = length (multi_turn conv)" using c2 that by simp
    then have "mset ?s2 = mset (multi_turn conv)" using c2 sub_same_size by blast
    then have "set ?s2 = set (multi_turn conv)" by (rule mset_eq_setD)
    then show ?thesis using it by auto
  qed
qed

subsection \<open>Renumbering\<close>

lemma length_renumber: "length (renumber rows) = length rows"
  by (simp add: renumber_def del: upt_Suc)

lemma nth_renumber:
  "i < length rows \<Longrightarrow> renumber rows ! i = (rows ! i)\<lparr>row_turn_id := str_nat (i + 1)\<rparr>"
  by (simp add: renumber_def del: upt_Suc)

lemma forget_renumber: "map forget_turn_id (renumber rows) = map forget_turn_id rows"
  by (rule nth_equalityI) (simp_all add: length_renumber nth_renumber forget_turn_id_def)

lemma session_renumber: "map row_session_id (renumber rows) = map row_session_id rows"
  by (rule nth_equalityI) (simp_all add: length_renumber nth_renumber)

lemma filter_session_renumber:
  "map forget_turn_id (filter (\<lambda>r. row_session_id r = s) (renumber rows)) =
   map forget_turn_id (filter (\<lambda>r. row_session_id r = s) rows)"
proof -
  have f: "row_session_id (forget_turn_id r) = row_session_id r" for r
    by (simp add: forget_turn_id_def)
  have "map forget_turn_id (filter (\<lambda>r. row_session_id r = s) xs) =
        filter (\<lambda>r. row_session_id r = s) (map forget_turn_id xs)" for xs
    by (induction xs) (simp_all add: f)
  then show ?thesis by (simp add: forget_renumber)
qed

subsection \<open>The sampler's run\<close>

lemma main_subset_outfile:
  assumes "outfile (main_subset py_int seed sample set_iter table) = Some out"
  defines "rows \<equiv> collect_rows (group_rows table)
                    (selected_sessions seed sample set_iter (group_rows table))"
  shows "out = renumber (sort_key (turn_key py_int) rows)"
    and "\<forall>r \<in> set rows. py_int (row_turn_id r) \<noteq> None"
  using assms by (auto simp: main_subset_def Let_def list_ex_iff split: if_splits)

lemma main_subset_printed:
  "printed (main_subset py_int seed sample set_iter table) =
     snd (clamp_targets (length (single_turn (group_rows table)))
            (length (multi_turn (group_rows table))))"
  by (simp add: main_subset_def Let_def)

lemma sessions_of_collected:
  assumes "distinct S" "set S \<subseteq> row_session_id ` set table"
  shows "row_session_id ` set (collect_rows (group_rows table) S) = set S"
proof -
  have "set (collect_rows (group_rows table) S) = set (filter (\<lambda>r. row_session_id r \<in> set S) table)"
    using mset_collect_rows[OF assms(1), of table] by (rule mset_eq_setD)
  then show ?thesis using assms(2) by auto
qed

lemma sorted_precedes:
  assumes "sorted (map f xs)" "i < length xs" "j < length xs" "f (xs ! i) < f (xs ! j)"
  shows "i < j"
proof (rule ccontr)
  assume "\<not> i < j"
  then have "j \<le> i" by simp
  then have "map f xs ! j \<le> map f xs ! i"
    using assms(1,2) by (simp add: sorted_iff_nth_mono)
  then show False using assms(2,3,4) by simp
qed

lemma str_nat_not_Nil: "str_nat n \<noteq> []"
  by (subst str_nat.simps) simp

lemma int_of_digits_str_nat: "int_of_digits (str_nat n) = Some (int n)"
  by (simp add: int_of_digits_def str_nat_not_Nil decimal_from_str_nat)

lemma collected_rows_subset:
  "set (collect_rows (group_rows table) S) \<subseteq> set table"
  by (auto simp: collect_rows_def rows_of_group_rows)

lemma main_subset_written:
  assumes "\<forall>r \<in> set table. py_int (row_turn_id r) \<noteq> None"
  shows "outfile (main_subset py_int seed sample set_iter table) =
           Some (renumber (sort_key (turn_key py_int)
                   (collect_rows (group_rows table)
                      (selected_sessions seed sample set_iter (group_rows table)))))"
proof -
  have "\<not> list_ex (\<lambda>r. py_int (row_turn_id r) = None)
            (collect_rows (group_rows table)
               (selected_sessions seed sample set_iter (group_rows table)))"
    using assms collected_rows_subset[of table] by (auto simp: list_ex_iff)
  then show ?thesis by (simp add: main_subset_def Let_def)
qed

lemma main_subset_completed:
  fixes table :: "csv_row list" and seed :: "int \<Rightarrow> 'g"
  assumes "sample_contract sample" "set_contract set_iter"
    and "\<forall>r \<in> set table. py_int (row_turn_id r) \<noteq> None" and "table \<noteq> []"
  shows "outcome (main_subset py_int seed sample set_iter table) = Completed"
proof -
  let ?conv = "group_rows table"
  let ?S = "selected_sessions seed sample set_iter ?conv"
  have "set (single_turn ?conv @ multi_turn ?conv) \<noteq> {}"
    using assms(4) unfolding pools_are_sessions by simp
  then have "0 < length (single_turn ?conv) \<or> 0 < length (multi_turn ?conv)" by auto
  then have "0 < min 300 (length (single_turn ?conv)) + min 200 (length (multi_turn ?conv))"
    by auto
  then have n: "length ?S \<noteq> 0"
    using selection_facts(2)[OF assms(1,2), where table = table and seed = seed] by simp
  have "\<not> list_ex (\<lambda>r. py_int (row_turn_id r) = None) (collect_rows ?conv ?S)"
    using assms(3) collected_rows_subset[of table] by (auto simp: list_ex_iff)
  then show ?thesis using n by (simp add: main_subset_def Let_def)
qed

lemma sub_image_mset:
  "mset ys \<subseteq># image_mset f (mset xs) \<Longrightarrow> \<exists>zs. ys = map f zs \<and> mset zs \<subseteq># mset xs"
proof (induction ys arbitrary: xs)
  case Nil
  then show ?case by simp
next
  case (Cons y ys)
  have "y \<in># image_mset f (mset xs)" using Cons.prems by (simp add: insert_subset_eq_iff)
  then obtain x where x: "x \<in> set xs" "f x = y" by auto
  have "mset xs = add_mset x (mset (remove1 x xs))" using x(1) by simp
  then have "image_mset f (mset xs) = add_mset y (image_mset f (mset (remove1 x xs)))"
    using x(2) by (metis image_mset_add_mset)
  then have "mset ys \<subseteq># image_mset f (mset (remove1 x xs))" using Cons.prems by simp
  from Cons.IH[OF this] obtain zs where zs: "ys = map f zs" "mset zs \<subseteq># mset (remove1 x xs)"
    by blast
  have "mset (x # zs) \<subseteq># mset xs"
    using zs(2) x(1) by (metis \<open>mset xs = add_mset x (mset (remove1 x xs))\<close> mset.simps(2) mset_subset_eq_add_mset_cancel)
  then show ?case using zs(1) x(2) by (intro exI[of _ "x # zs"]) simp
qed

lemma main_subset_frame:
  assumes "set_contract set_iter"
    and "outfile (main_subset py_int seed sample set_iter table) = Some out"
  shows "\<exists>kept. mset kept \<subseteq># mset table \<and>
           (\<forall>r \<in> set kept. py_int (row_turn_id r) \<noteq> None) \<and>
           sorted (map (turn_key py_int) kept) \<and>
           length out = length kept \<and>
           (\<forall>i < length kept.
              out ! i = (kept ! i)\<lparr>row_turn_id := str_nat (i + 1)\<rparr> \<and>
              int_of_digits (row_turn_id (out ! i)) = Some (int i + 1)) \<and>
           (\<forall>i j. i < length kept \<and> j < length kept \<and>
                  turn_key py_int (kept ! i) < turn_key py_int (kept ! j) \<longrightarrow> i < j)"
proof -
  define S where "S = selected_sessions seed sample set_iter (group_rows table)"
  define rows where "rows = collect_rows (group_rows table) S"
  define kept where "kept = sort_key (turn_key py_int) rows"
  have out: "out = renumber kept" and parsed: "\<forall>r \<in> set rows. py_int (row_turn_id r) \<noteq> None"
    using main_subset_outfile[OF assms(2)] unfolding kept_def rows_def S_def by simp_all
  have dS: "distinct S"
    unfolding S_def selected_sessions_eq using assms(1) by (simp add: set_contract_def)
  have "mset rows = mset (filter (\<lambda>r. row_session_id r \<in> set S) table)"
    unfolding rows_def using dS by (rule mset_collect_rows)
  then have 1: "mset kept \<subseteq># mset table"
    unfolding kept_def by simp
  have 2: "\<forall>r \<in> set kept. py_int (row_turn_id r) \<noteq> None"
    using parsed unfolding kept_def by simp
  have 3: "sorted (map (turn_key py_int) kept)" unfolding kept_def by (rule sorted_sort_key)
  have 4: "length out = length kept" unfolding out by (rule length_renumber)
  have 5: "\<forall>i < length kept.
              out ! i = (kept ! i)\<lparr>row_turn_id := str_nat (i + 1)\<rparr> \<and>
              int_of_digits (row_turn_id (out ! i)) = Some (int i + 1)"
    unfolding out by (simp add: nth_renumber int_of_digits_str_nat)
  have 6: "\<forall>i j. i < length kept \<and> j < length kept \<and>
                  turn_key py_int (kept ! i) < turn_key py_int (kept ! j) \<longrightarrow> i < j"
    using sorted_precedes[OF 3] by blast
  show ?thesis using 1 2 3 4 5 6 by blast
qed

lemma main_subset_file_frame:
  assumes "set_contract set_iter"
    and "outfile (main_subset_file py_int seed sample set_iter file) = Some out"
  shows "\<exists>kept. mset kept \<subseteq># mset file \<and>
           sorted (map (\<lambda>r. turn_key py_int (read_row r)) kept) \<and>
           length out = length kept \<and>
           (\<forall>i < length kept. out ! i = (read_row (kept ! i))\<lparr>row_turn_id := str_nat (i + 1)\<rparr>)"
proof -
  from main_subset_frame[OF assms(1) assms(2)[unfolded main_subset_file_def]]
  obtain kept' where k: "mset kept' \<subseteq># mset (read_table file)"
    "sorted (map (turn_key py_int) kept')" "length out = length kept'"
    "\<forall>i < length kept'. out ! i = (kept' ! i)\<lparr>row_turn_id := str_nat (i + 1)\<rparr>"
    by blast
  have "mset kept' \<subseteq># image_mset read_row (mset file)" using k(1) by (simp add: read_table_def)
  from sub_image_mset[OF this] obtain kept where kept: "kept' = map read_row kept" "mset kept \<subseteq># mset file"
    by blast
  show ?thesis
    using k(2,3,4) kept by (intro exI[of _ kept]) (simp add: comp_def)
qed

subsection \<open>The example instances meet the contracts\<close>

lemma set_contract_fwd: "set_contract set_iter_fwd"
  by (simp add: set_contract_def set_iter_fwd_def)

lemma set_contract_bwd: "set_contract set_iter_bwd"
  by (simp add: set_contract_def set_iter_bwd_def)

lemma sample_contract_first: "sample_contract sample_first"
proof -
  have "mset (take k xs) \<subseteq># mset xs" for k and xs :: "string list"
  proof -
    have "mset xs = mset (take k xs) + mset (drop k xs)"
      by (metis append_take_drop_id mset_append)
    then show ?thesis by simp
  qed
  then show ?thesis by (simp add: sample_contract_def sample_first_def)
qed

section \<open>The claims\<close>

text \<open>
  C1, as stated, fails: the claim is made for every input table, and holds only for
  tables whose turn ids are distinct. The rows are collected in the order in which the
  loop visits the set of selected session ids, an order Python leaves open and that
  changes from one process to the next with the hash seed; the stable sort that follows
  keeps that order between rows of equal \<open>turn_id\<close>. On a table with two conversations
  whose rows both carry the id 1, the two orders a set of two ids can be visited in
  give two different tables.
\<close>

theorem C1_tie_counterexample:
  "set_contract set_iter_fwd \<and> set_contract set_iter_bwd \<and>
   outfile (main_subset int_of_digits seed_zero sample_first set_iter_fwd tie_table) =
     Some [example_row ''1'' ''a'' ''q1'', example_row ''2'' ''b'' ''q2''] \<and>
   outfile (main_subset int_of_digits seed_zero sample_first set_iter_bwd tie_table) =
     Some [example_row ''1'' ''b'' ''q2'', example_row ''2'' ''a'' ''q1''] \<and>
   main_subset int_of_digits seed_zero sample_first set_iter_fwd tie_table \<noteq>
   main_subset int_of_digits seed_zero sample_first set_iter_bwd tie_table"
proof -
  have f: "outfile (main_subset int_of_digits seed_zero sample_first set_iter_fwd tie_table) =
     Some [example_row ''1'' ''a'' ''q1'', example_row ''2'' ''b'' ''q2'']"
    by code_simp
  have b: "outfile (main_subset int_of_digits seed_zero sample_first set_iter_bwd tie_table) =
     Some [example_row ''1'' ''b'' ''q2'', example_row ''2'' ''a'' ''q1'']"
    by code_simp
  have "[example_row ''1'' ''a'' ''q1'', example_row ''2'' ''b'' ''q2''] \<noteq>
        [example_row ''1'' ''b'' ''q2'', example_row ''2'' ''a'' ''q1'']"
    by (simp add: example_row_def)
  then have "main_subset int_of_digits seed_zero sample_first set_iter_fwd tie_table \<noteq>
   main_subset int_of_digits seed_zero sample_first set_iter_bwd tie_table"
    using f b by auto
  then show ?thesis using f b set_contract_fwd set_contract_bwd by simp
qed

text \<open>
  C1, amended. Two runs of the sampler on the same input table, with the same seed
  and whatever orders the two processes visit the set of selected session ids in, write
  the same table, print the same warnings and end the same way, provided no two rows of
  the input table have the same numeric \<open>turn_id\<close>.
\<close>

theorem C1_deterministic_output:
  assumes "set_contract set_iter1" and "set_contract set_iter2"
    and "distinct (map (\<lambda>r. py_int (row_turn_id r)) table)"
  shows "main_subset py_int seed sample set_iter1 table =
         main_subset py_int seed sample set_iter2 table"
proof -
  define conv where "conv = group_rows table"
  define S1 where "S1 = selected_sessions seed sample set_iter1 conv"
  define S2 where "S2 = selected_sessions seed sample set_iter2 conv"
  define rows1 where "rows1 = collect_rows conv S1"
  define rows2 where "rows2 = collect_rows conv S2"
  have d1: "distinct S1" and d2: "distinct S2" and ss: "set S1 = set S2"
    using assms(1,2) unfolding S1_def S2_def selected_sessions_eq set_contract_def by simp_all
  have len: "length S1 = length S2"
    using distinct_card[OF d1] distinct_card[OF d2] ss by simp
  have m1: "mset rows1 = mset (filter (\<lambda>r. row_session_id r \<in> set S1) table)"
    unfolding rows1_def conv_def using d1 by (rule mset_collect_rows)
  have m2: "mset rows2 = mset (filter (\<lambda>r. row_session_id r \<in> set S2) table)"
    unfolding rows2_def conv_def using d2 by (rule mset_collect_rows)
  have mm: "mset rows1 = mset rows2" using m1 m2 ss by simp
  then have sets: "set rows1 = set rows2" by (rule mset_eq_setD)
  have sub: "set rows1 \<subseteq> set table" using mset_eq_setD[OF m1] by auto
  have ex: "list_ex (\<lambda>r. py_int (row_turn_id r) = None) rows1 =
            list_ex (\<lambda>r. py_int (row_turn_id r) = None) rows2"
    using sets by (simp add: list_ex_iff)
  have srt: "sort_key (turn_key py_int) rows1 = sort_key (turn_key py_int) rows2"
    if none: "\<not> list_ex (\<lambda>r. py_int (row_turn_id r) = None) rows1"
  proof (rule sort_key_inj_key_eq)
    show "mset rows1 = mset (sort_key (turn_key py_int) rows2)" using mm by simp
    show "sorted (map (turn_key py_int) (sort_key (turn_key py_int) rows2))"
      by (rule sorted_sort_key)
    have inj: "inj_on (\<lambda>r. py_int (row_turn_id r)) (set table)"
      using assms(3) by (simp add: distinct_map)
    show "inj_on (turn_key py_int) (set rows1)"
    proof (rule inj_onI)
      fix a b assume a: "a \<in> set rows1" and b: "b \<in> set rows1"
        and e: "turn_key py_int a = turn_key py_int b"
      have "py_int (row_turn_id a) \<noteq> None" "py_int (row_turn_id b) \<noteq> None"
        using none a b by (auto simp: list_ex_iff)
      then have "py_int (row_turn_id a) = py_int (row_turn_id b)"
        using e by (auto simp: turn_key_def)
      then show "a = b" using inj a b sub by (auto dest: inj_onD)
    qed
  qed
  show ?thesis
    unfolding main_subset_def Let_def
    using ex srt len
    by (simp add: conv_def[symmetric] S1_def[symmetric] S2_def[symmetric]
                  rows1_def[symmetric] rows2_def[symmetric])
qed

theorem C1_deterministic_output_witness:
  "set_contract set_iter_fwd \<and> set_contract set_iter_bwd \<and>
   distinct (map (\<lambda>r. int_of_digits (row_turn_id r)) example_table) \<and>
   set_iter_fwd [''b'', ''a''] \<noteq> set_iter_bwd [''b'', ''a''] \<and>
   main_subset int_of_digits seed_zero sample_first set_iter_fwd example_table =
   main_subset int_of_digits seed_zero sample_first set_iter_bwd example_table \<and>
   outfile (main_subset int_of_digits seed_zero sample_first set_iter_bwd example_table) =
     Some example_subset"
proof -
  have d: "distinct (map (\<lambda>r. int_of_digits (row_turn_id r)) example_table)"
    by code_simp
  have n: "set_iter_fwd [''b'', ''a''] \<noteq> set_iter_bwd [''b'', ''a'']"
    by (simp add: set_iter_fwd_def set_iter_bwd_def)
  have o: "outfile (main_subset int_of_digits seed_zero sample_first set_iter_bwd example_table) =
     Some example_subset"
    by code_simp
  from C1_deterministic_output[OF set_contract_fwd set_contract_bwd d, of seed_zero sample_first]
  show ?thesis using set_contract_fwd set_contract_bwd d n o by simp
qed

text \<open>
  C2. For every turn emitted by either flattener, \<open>total_tokens\<close> equals
  \<open>prompt_tokens + completion_tokens\<close>, and both \<open>prompt_tokens\<close> and \<open>completion_tokens\<close>
  are non-negative integers. The emitted turns are the rows of the table a run writes;
  the same holds of every dictionary \<^verbatim>\<open>generate_synthetic_metadata\<close> returns, with the
  \<^verbatim>\<open>calculate_cost\<close> of either flattener.
\<close>

theorem C2_token_totals:
  "(outfile (main_A rnd randint fromisoformat dataset_A g) = Some rows_A \<longrightarrow>
      (\<forall>t \<in> set rows_A. total_tokens t = prompt_tokens t + completion_tokens t \<and>
                         0 \<le> prompt_tokens t \<and> 0 \<le> completion_tokens t)) \<and>
   (outfile (main_B rnd randint choice load_dataset environ argv g) = Some rows_B \<longrightarrow>
      (\<forall>t \<in> set rows_B. total_tokens t = prompt_tokens t + completion_tokens t \<and>
                         0 \<le> prompt_tokens t \<and> 0 \<le> completion_tokens t)) \<and>
   md_total_tokens (fst (generate_synthetic_metadata rnd calc randint u a mdl g)) =
     md_prompt_tokens (fst (generate_synthetic_metadata rnd calc randint u a mdl g)) +
     md_completion_tokens (fst (generate_synthetic_metadata rnd calc randint u a mdl g)) \<and>
   0 \<le> md_prompt_tokens (fst (generate_synthetic_metadata rnd calc randint u a mdl g)) \<and>
   0 \<le> md_completion_tokens (fst (generate_synthetic_metadata rnd calc randint u a mdl g))"
proof (intro conjI impI ballI)
  fix t assume h: "outfile (main_A rnd randint fromisoformat dataset_A g) = Some rows_A" "t \<in> set rows_A"
  have s: "turn_shape rnd (calculate_cost_A rnd) t" using main_A_shape[OF h(1)] h(2) by simp
  show "total_tokens t = prompt_tokens t + completion_tokens t" using s by (simp add: turn_shape_def)
  show "0 \<le> prompt_tokens t" using s by (simp add: turn_shape_def estimate_tokens_nonneg)
  show "0 \<le> completion_tokens t" using s by (simp add: turn_shape_def estimate_tokens_nonneg)
next
  fix t assume h: "outfile (main_B rnd randint choice load_dataset environ argv g) = Some rows_B" "t \<in> set rows_B"
  have s: "turn_shape rnd (calculate_cost_B rnd) t" using main_B_shape[OF h(1)] h(2) by simp
  show "total_tokens t = prompt_tokens t + completion_tokens t" using s by (simp add: turn_shape_def)
  show "0 \<le> prompt_tokens t" using s by (simp add: turn_shape_def estimate_tokens_nonneg)
  show "0 \<le> completion_tokens t" using s by (simp add: turn_shape_def estimate_tokens_nonneg)
next
  show "md_total_tokens (fst (generate_synthetic_metadata rnd calc randint u a mdl g)) =
     md_prompt_tokens (fst (generate_synthetic_metadata rnd calc randint u a mdl g)) +
     md_completion_tokens (fst (generate_synthetic_metadata rnd calc randint u a mdl g))"
    by (simp add: generate_synthetic_metadata_def Let_def split: prod.splits)
  show "0 \<le> md_prompt_tokens (fst (generate_synthetic_metadata rnd calc randint u a mdl g))"
    by (simp add: generate_synthetic_metadata_def Let_def estimate_tokens_nonneg split: prod.splits)
  show "0 \<le> md_completion_tokens (fst (generate_synthetic_metadata rnd calc randint u a mdl g))"
    by (simp add: generate_synthetic_metadata_def Let_def estimate_tokens_nonneg split: prod.splits)
qed

theorem C2_token_totals_witness:
  "outfile (main_A exact draw_low no_parse example_dataset_A 0) = Some example_rows_A \<and>
   outfile (main_B exact draw_low pick_last (\<lambda>tok. example_dataset_B) Map.empty
              [''prog'', ''hf_tok''] 0) = Some example_rows_B \<and>
   total_tokens (hd example_rows_A) =
     prompt_tokens (hd example_rows_A) + completion_tokens (hd example_rows_A) \<and>
   0 \<le> prompt_tokens (hd example_rows_A) \<and> 0 \<le> completion_tokens (hd example_rows_A) \<and>
   total_tokens (hd example_rows_B) =
     prompt_tokens (hd example_rows_B) + completion_tokens (hd example_rows_B) \<and>
   0 \<le> prompt_tokens (hd example_rows_B) \<and> 0 \<le> completion_tokens (hd example_rows_B)"
proof -
  have a: "outfile (main_A exact draw_low no_parse example_dataset_A 0) = Some example_rows_A"
    by code_simp
  have b: "outfile (main_B exact draw_low pick_last (\<lambda>tok. example_dataset_B) Map.empty
                      [''prog'', ''hf_tok''] 0) = Some example_rows_B"
    by code_simp
  have ha: "hd example_rows_A \<in> set example_rows_A" by (simp add: example_rows_A_def)
  have hb: "hd example_rows_B \<in> set example_rows_B" by (simp add: example_rows_B_def)
  from C2_token_totals[of exact draw_low no_parse example_dataset_A 0 example_rows_A
         pick_last "\<lambda>tok. example_dataset_B" Map.empty "[''prog'', ''hf_tok'']" example_rows_B]
  show ?thesis using a b ha hb by blast
qed



text \<open>
  C4. The sampler does not leave every field but \<open>turn_id\<close> as the input table has it.
  It opens the input file in text mode without \<^verbatim>\<open>newline=''\<close>, as neither its own writer
  nor a flattener does, so a carriage return inside a message reaches the reader as a
  line feed and the row is written with the message altered. Here the input table holds
  one row, with the user message \<^verbatim>\<open>line1\<close>, carriage return, line feed, \<^verbatim>\<open>line2\<close>; the row
  written has the user message \<^verbatim>\<open>line1\<close>, line feed, \<^verbatim>\<open>line2\<close>. From the rows as read on,
  the sampler rewrites \<open>turn_id\<close> alone, to 1..N in ascending order of the original
  numeric id (lemmas \<open>main_subset_frame\<close> and \<open>main_subset_file_frame\<close>).
\<close>

theorem C4_line_ends_rewritten:
  "outfile (main_subset_file int_of_digits seed_zero sample_first set_iter_fwd crlf_table) =
     Some crlf_subset \<and>
   length crlf_table = 1 \<and> length crlf_subset = 1 \<and>
   row_user_message (crlf_table ! 0) = ''line1'' @ [CHR 0x0D, CHR 0x0A] @ ''line2'' \<and>
   row_user_message (crlf_subset ! 0) = ''line1'' @ [CHR 0x0A] @ ''line2'' \<and>
   row_user_message (crlf_subset ! 0) \<noteq> row_user_message (crlf_table ! 0)"
proof -
  have "outfile (main_subset_file int_of_digits seed_zero sample_first set_iter_fwd crlf_table) =
     Some crlf_subset"
    by code_simp
  then show ?thesis by (simp add: crlf_table_def crlf_subset_def example_row_def)
qed

text \<open>
  C5. The sampler clamps the single-turn target 300 and the multi-turn target 200 down
  to the size of the pool when the pool is smaller (the single-turn pool holds the
  sessions with exactly one row, the multi-turn pool those with two or more), and
  prints the warning for a pool exactly when it is smaller than its target. The warning
  is not fatal: printed or not, a run on a table whose turn ids are all integers writes
  its table, and completes when the table has a row. The table written holds exactly
  (clamped single target) + (clamped multi target) distinct session ids, every one of
  them with all the rows the input has for it (but for the rewritten \<open>turn_id\<close>), and
  when a pool is at most its target every session of that pool is in the table. The
  input table is the list of rows the reader yields.
\<close>

theorem C5_clamped_selection:
  assumes "sample_contract sample" and "set_contract set_iter"
  shows "(\<forall>s. s \<in> set (single_turn (group_rows table)) \<longleftrightarrow>
              length (filter (\<lambda>r. row_session_id r = s) table) = 1) \<and>
         (\<forall>s. s \<in> set (multi_turn (group_rows table)) \<longleftrightarrow>
              2 \<le> length (filter (\<lambda>r. row_session_id r = s) table)) \<and>
         fst (clamp_targets (length (single_turn (group_rows table)))
                (length (multi_turn (group_rows table)))) =
           (min 300 (length (single_turn (group_rows table))),
            min 200 (length (multi_turn (group_rows table)))) \<and>
         printed (main_subset py_int seed sample set_iter table) =
           (if length (single_turn (group_rows table)) < 300
            then [Only_single (length (single_turn (group_rows table))) 300] else []) @
           (if length (multi_turn (group_rows table)) < 200
            then [Only_multi (length (multi_turn (group_rows table))) 200] else []) \<and>
         ((\<forall>r \<in> set table. py_int (row_turn_id r) \<noteq> None) \<longrightarrow>
            (\<exists>written. outfile (main_subset py_int seed sample set_iter table) = Some written)) \<and>
         ((\<forall>r \<in> set table. py_int (row_turn_id r) \<noteq> None) \<and> table \<noteq> [] \<longrightarrow>
            outcome (main_subset py_int seed sample set_iter table) = Completed) \<and>
         (outfile (main_subset py_int seed sample set_iter table) = Some out \<longrightarrow>
            card (row_session_id ` set out) =
              min 300 (length (single_turn (group_rows table))) +
              min 200 (length (multi_turn (group_rows table))) \<and>
            (\<forall>s \<in> row_session_id ` set out.
               mset (map forget_turn_id (filter (\<lambda>r. row_session_id r = s) out)) =
               mset (map forget_turn_id (filter (\<lambda>r. row_session_id r = s) table))) \<and>
            (length (single_turn (group_rows table)) \<le> 300 \<longrightarrow>
               set (single_turn (group_rows table)) \<subseteq> row_session_id ` set out) \<and>
            (length (multi_turn (group_rows table)) \<le> 200 \<longrightarrow>
               set (multi_turn (group_rows table)) \<subseteq> row_session_id ` set out))"
  (is "?P1 \<and> ?P2 \<and> ?P3 \<and> ?P4 \<and> ?W \<and> ?C \<and> (?O \<longrightarrow> ?P5 \<and> ?P6 \<and> ?P7 \<and> ?P8)")
proof -
  have P1: ?P1 using single_turn_iff by blast
  have P2: ?P2 using multi_turn_iff by blast
  have P3: ?P3 by (simp add: clamp_targets_eq)
  have P4: ?P4 by (simp add: main_subset_printed clamp_targets_eq)
  have W: ?W using main_subset_written[of table py_int seed sample set_iter] by blast
  have C: ?C using main_subset_completed[OF assms, of table py_int seed] by blast
  have R: "?P5 \<and> ?P6 \<and> ?P7 \<and> ?P8" if o: ?O
  proof -
    define S where "S = selected_sessions seed sample set_iter (group_rows table)"
    define rows where "rows = collect_rows (group_rows table) S"
    define kept where "kept = sort_key (turn_key py_int) rows"
    have out: "out = renumber kept"
      using main_subset_outfile(1)[OF o] unfolding kept_def rows_def S_def by simp
    note sel = selection_facts[OF assms(1,2), where table = table and seed = seed, folded S_def]
    have mrows: "mset rows = mset (filter (\<lambda>r. row_session_id r \<in> set S) table)"
      unfolding rows_def using sel(1) by (rule mset_collect_rows)
    have "set kept = set rows" unfolding kept_def by simp
    then have "row_session_id ` set kept = set S"
      unfolding rows_def using sessions_of_collected[OF sel(1) sel(3)] by simp
    moreover have "row_session_id ` set out = row_session_id ` set kept"
      using session_renumber[of kept] unfolding out by (metis set_map)
    ultimately have so: "row_session_id ` set out = set S" by simp
    have P5: ?P5 unfolding so using sel(1,2) by (simp add: distinct_card)
    have P6: ?P6
    proof
      fix s assume "s \<in> row_session_id ` set out"
      then have s: "s \<in> set S" using so by simp
      have "map forget_turn_id (filter (\<lambda>r. row_session_id r = s) out) =
            map forget_turn_id (filter (\<lambda>r. row_session_id r = s) kept)"
        unfolding out by (rule filter_session_renumber)
      moreover have "mset (filter (\<lambda>r. row_session_id r = s) kept) =
                     mset (filter (\<lambda>r. row_session_id r = s) table)"
      proof -
        have "mset (filter (\<lambda>r. row_session_id r = s) kept) =
              filter_mset (\<lambda>r. row_session_id r = s) (mset rows)"
          unfolding kept_def by simp
        also have "\<dots> = filter_mset (\<lambda>r. row_session_id r = s)
                           (filter_mset (\<lambda>r. row_session_id r \<in> set S) (mset table))"
          using mrows by simp
        also have "\<dots> = filter_mset (\<lambda>r. row_session_id r = s) (mset table)"
          using s by (auto simp: filter_filter_mset intro: filter_mset_cong)
        finally show ?thesis by simp
      qed
      ultimately show "mset (map forget_turn_id (filter (\<lambda>r. row_session_id r = s) out)) =
              mset (map forget_turn_id (filter (\<lambda>r. row_session_id r = s) table))"
        by (metis mset_map)
    qed
    have P7: ?P7 using sel(4) so by simp
    have P8: ?P8 using sel(5) so by simp
    show ?thesis by (rule conjI, rule P5, rule conjI, rule P6, rule conjI, rule P7, rule P8)
  qed
  show ?thesis
    by (rule conjI, rule P1, rule conjI, rule P2, rule conjI, rule P3, rule conjI, rule P4,
        rule conjI, rule W, rule conjI, rule C, rule impI, rule R)
qed

theorem C5_clamped_selection_witness:
  "sample_contract sample_first \<and> set_contract set_iter_fwd \<and>
   map (\<lambda>r. int_of_digits (row_turn_id r)) example_table = [Some 5, Some 7, Some 9, Some 14] \<and>
   example_table \<noteq> [] \<and>
   outfile (main_subset int_of_digits seed_zero sample_first set_iter_fwd example_table) =
     Some example_subset \<and>
   outcome (main_subset int_of_digits seed_zero sample_first set_iter_fwd example_table) =
     Completed \<and>
   single_turn (group_rows example_table) = [''b''] \<and>
   multi_turn (group_rows example_table) = [''a''] \<and>
   fst (clamp_targets 1 1) = (1, 1) \<and>
   printed (main_subset int_of_digits seed_zero sample_first set_iter_fwd example_table) =
     [Only_single 1 300, Only_multi 1 200] \<and>
   card (row_session_id ` set example_subset) = 2 \<and>
   ''a'' \<in> row_session_id ` set example_subset \<and>
   mset (map forget_turn_id (filter (\<lambda>r. row_session_id r = ''a'') example_subset)) =
   mset (map forget_turn_id (filter (\<lambda>r. row_session_id r = ''a'') example_table)) \<and>
   set (single_turn (group_rows example_table)) \<subseteq> row_session_id ` set example_subset \<and>
   set (multi_turn (group_rows example_table)) \<subseteq> row_session_id ` set example_subset"
proof -
  have ids: "map (\<lambda>r. int_of_digits (row_turn_id r)) example_table =
               [Some 5, Some 7, Some 9, Some 14]"
    by code_simp
  have parsed: "\<forall>r \<in> set example_table. int_of_digits (row_turn_id r) \<noteq> None"
  proof
    fix r assume "r \<in> set example_table"
    then have "int_of_digits (row_turn_id r) \<in> set (map (\<lambda>r. int_of_digits (row_turn_id r)) example_table)"
      by simp
    then show "int_of_digits (row_turn_id r) \<noteq> None" unfolding ids by auto
  qed
  have ne: "example_table \<noteq> []" by (simp add: example_table_def)
  have s: "single_turn (group_rows example_table) = [''b'']" by code_simp
  have m: "multi_turn (group_rows example_table) = [''a'']" by code_simp
  have a: "''a'' \<in> row_session_id ` set example_subset"
    by (simp add: example_subset_def example_row_def)
  note T = C5_clamped_selection[OF sample_contract_first set_contract_fwd,
      where table = example_table and py_int = int_of_digits and seed = seed_zero
        and out = example_subset, unfolded s m]
  have 3: "fst (clamp_targets 1 1) = (1, 1)"
    using T[THEN conjunct2, THEN conjunct2, THEN conjunct1] by simp
  have 4: "printed (main_subset int_of_digits seed_zero sample_first set_iter_fwd example_table) =
     [Only_single 1 300, Only_multi 1 200]"
    using T[THEN conjunct2, THEN conjunct2, THEN conjunct2, THEN conjunct1] by simp
  have "\<exists>written. outfile (main_subset int_of_digits seed_zero sample_first set_iter_fwd
                              example_table) = Some written"
    using T[THEN conjunct2, THEN conjunct2, THEN conjunct2, THEN conjunct2, THEN conjunct1]
      parsed by blast
  then obtain written where w: "outfile (main_subset int_of_digits seed_zero sample_first
                              set_iter_fwd example_table) = Some written" ..
  have "outfile (main_subset int_of_digits seed_zero sample_first set_iter_fwd example_table) =
     Some example_subset"
    by code_simp
  then have o: "outfile (main_subset int_of_digits seed_zero sample_first set_iter_fwd example_table) =
     Some example_subset" using w by simp
  have c: "outcome (main_subset int_of_digits seed_zero sample_first set_iter_fwd example_table) =
     Completed"
    using T[THEN conjunct2, THEN conjunct2, THEN conjunct2, THEN conjunct2, THEN conjunct2,
            THEN conjunct1] parsed ne by blast
  note U = T[THEN conjunct2, THEN conjunct2, THEN conjunct2, THEN conjunct2, THEN conjunct2,
             THEN conjunct2, rule_format, OF o]
  have 5: "card (row_session_id ` set example_subset) = 2"
    using U[THEN conjunct1] by simp
  have 6: "mset (map forget_turn_id (filter (\<lambda>r. row_session_id r = ''a'') example_subset)) =
   mset (map forget_turn_id (filter (\<lambda>r. row_session_id r = ''a'') example_table))"
    using U[THEN conjunct2, THEN conjunct1, rule_format, OF a] .
  have 7: "set [''b''] \<subseteq> row_session_id ` set example_subset"
    using U[THEN conjunct2, THEN conjunct2, THEN conjunct1] by simp
  have 8: "set [''a''] \<subseteq> row_session_id ` set example_subset"
    using U[THEN conjunct2, THEN conjunct2, THEN conjunct2] by simp
  show ?thesis
    unfolding s m
    by (intro conjI sample_contract_first set_contract_fwd ids ne o c 3 4 5 a 6 7 8 refl)
qed

text \<open>
  C6. For every turn emitted by either flattener, both \<open>user_message\<close> and
  \<open>assistant_message\<close> are non-empty after trimming whitespace; no turn is emitted for an
  exchange in which either side is absent or trims to empty: in A a message with empty
  trimmed content and an assistant message with no pending user message leave the state
  as it is, in B so does a pair with an absent or empty column. The turns that
  \<^verbatim>\<open>extract_turns_from_messages\<close> returns for one conversation have the same property.
\<close>

theorem C6_messages_nonempty:
  "(outfile (main_A rnd randint fromisoformat dataset_A g) = Some rows_A \<longrightarrow>
      (\<forall>t \<in> set rows_A. strip (user_message t) \<noteq> [] \<and> strip (assistant_message t) \<noteq> [])) \<and>
   (outfile (main_B rnd randint choice load_dataset environ argv g) = Some rows_B \<longrightarrow>
      (\<forall>t \<in> set rows_B. strip (user_message t) \<noteq> [] \<and> strip (assistant_message t) \<noteq> [])) \<and>
   (content_of m = [] \<or> (role_of m = ''assistant'' \<and> pending st = None) \<longrightarrow>
      extract_step rnd randint ch ip mdl base m st = Inr st) \<and>
   (row (''P'' @ str_nat k) = None \<or> row (''R'' @ str_nat k) = None \<or>
    strip (the (row (''P'' @ str_nat k))) = [] \<or> strip (the (row (''R'' @ str_nat k))) = [] \<longrightarrow>
      pair_step rnd randint row sid uid mdl sts k st_B = Inr st_B) \<and>
   (extract_turns_from_messages rnd randint ms ch ip mdl base g = Inr (ts, g') \<longrightarrow>
      (\<forall>t \<in> set ts. strip (user_message t) \<noteq> [] \<and> strip (assistant_message t) \<noteq> []))"
proof (intro conjI impI ballI)
  fix t assume h: "outfile (main_A rnd randint fromisoformat dataset_A g) = Some rows_A" "t \<in> set rows_A"
  have s: "turn_shape rnd (calculate_cost_A rnd) t" using main_A_shape[OF h(1)] h(2) by simp
  show "strip (user_message t) \<noteq> []" using s by (simp add: turn_shape_def)
  show "strip (assistant_message t) \<noteq> []" using s by (simp add: turn_shape_def)
next
  fix t assume h: "outfile (main_B rnd randint choice load_dataset environ argv g) = Some rows_B" "t \<in> set rows_B"
  have s: "turn_shape rnd (calculate_cost_B rnd) t" using main_B_shape[OF h(1)] h(2) by simp
  show "strip (user_message t) \<noteq> []" using s by (simp add: turn_shape_def)
  show "strip (assistant_message t) \<noteq> []" using s by (simp add: turn_shape_def)
next
  assume "content_of m = [] \<or> (role_of m = ''assistant'' \<and> pending st = None)"
  then show "extract_step rnd randint ch ip mdl base m st = Inr st"
    using extract_step_skip extract_step_unpaired by blast
next
  assume "row (''P'' @ str_nat k) = None \<or> row (''R'' @ str_nat k) = None \<or>
    strip (the (row (''P'' @ str_nat k))) = [] \<or> strip (the (row (''R'' @ str_nat k))) = []"
  then show "pair_step rnd randint row sid uid mdl sts k st_B = Inr st_B"
    by (rule pair_step_skip)
next
  fix t assume h: "extract_turns_from_messages rnd randint ms ch ip mdl base g = Inr (ts, g')" "t \<in> set ts"
  have s: "turn_shape rnd (calculate_cost_A rnd) t" using extract_turns_shape[OF h(1)] h(2) by simp
  show "strip (user_message t) \<noteq> []" using s by (simp add: turn_shape_def)
  show "strip (assistant_message t) \<noteq> []" using s by (simp add: turn_shape_def)
qed

theorem C6_messages_nonempty_witness:
  "outfile (main_A exact draw_low no_parse example_dataset_A 0) = Some example_rows_A \<and>
   outfile (main_B exact draw_low pick_last (\<lambda>tok. example_dataset_B) Map.empty
              [''prog'', ''hf_tok''] 0) = Some example_rows_B \<and>
   strip (user_message (hd example_rows_A)) \<noteq> [] \<and>
   strip (assistant_message (hd example_rows_A)) \<noteq> [] \<and>
   strip (user_message (hd example_rows_B)) \<noteq> [] \<and>
   strip (assistant_message (hd example_rows_B)) \<noteq> [] \<and>
   content_of (assistant_says ''  '') = [] \<and>
   extract_step exact draw_low ''h1'' ''ip1'' ''gpt-4'' 100 (assistant_says ''  '') example_state =
     Inr example_state \<and>
   strip (the (hd example_dataset_B (''P'' @ str_nat 2))) = [] \<and>
   pair_step exact draw_low (hd example_dataset_B) ''sess_00001'' ''user_100'' ''gpt-4'' 100 2
     example_flatten_state = Inr example_flatten_state"
proof -
  have a: "outfile (main_A exact draw_low no_parse example_dataset_A 0) = Some example_rows_A"
    by code_simp
  have b: "outfile (main_B exact draw_low pick_last (\<lambda>tok. example_dataset_B) Map.empty
                      [''prog'', ''hf_tok''] 0) = Some example_rows_B"
    by code_simp
  have ha: "hd example_rows_A \<in> set example_rows_A" by (simp add: example_rows_A_def)
  have hb: "hd example_rows_B \<in> set example_rows_B" by (simp add: example_rows_B_def)
  have c: "content_of (assistant_says ''  '') = []" by code_simp
  have d: "strip (the (hd example_dataset_B (''P'' @ str_nat 2))) = []" by code_simp
  from C6_messages_nonempty[of exact draw_low no_parse example_dataset_A 0 example_rows_A
         pick_last "\<lambda>tok. example_dataset_B" Map.empty "[''prog'', ''hf_tok'']" example_rows_B
         "assistant_says ''  ''" example_state "''h1''" "''ip1''" "''gpt-4''" 100
         "hd example_dataset_B" 2 "''sess_00001''" "''user_100''" 100 example_flatten_state]
       a b ha hb c d
  show ?thesis by blast
qed

text \<open>
  C7, as stated, fails: the price lookup is not shared by the two flatteners. Flattener
  B looks the model name up as an exact key of its own table, so \<^verbatim>\<open>claude-instant\<close>, one
  of the four models B assigns, costs (0.0016, 0.0055) there, while the substring tests
  of flattener A give the same name the pair of \<^verbatim>\<open>claude-2\<close>; and a name that only contains
  a key of the table, such as \<^verbatim>\<open>gpt-4-0613\<close>, falls back to the default pair in B.
\<close>

theorem C7_shared_lookup_counterexample:
  "''claude-instant'' \<in> set MODELS \<and>
   model_costs_B ''claude-instant'' = (0.0016, 0.0055) \<and>
   model_costs_A ''claude-instant'' = (0.008, 0.024) \<and>
   model_costs_A ''claude-instant'' \<noteq> model_costs_B ''claude-instant'' \<and>
   contains ''gpt-4'' (lower ''gpt-4-0613'') \<and>
   model_costs_B ''gpt-4-0613'' = (0.001, 0.002) \<and>
   model_costs_A ''gpt-4-0613'' = (0.03, 0.06)"
proof -
  have 1: "''claude-instant'' \<in> set MODELS" by (simp add: MODELS_def)
  have 2: "model_costs_B ''claude-instant'' = (0.0016, 0.0055)" by (rule model_costs_B_table)
  have 3: "model_costs_A ''claude-instant'' = (0.008, 0.024)"
    by (simp add: model_costs_A_cases lower_def lower_char_def)
  have 4: "contains ''gpt-4'' (lower ''gpt-4-0613'')" by (simp add: lower_def lower_char_def)
  have 5: "model_costs_B ''gpt-4-0613'' = (0.001, 0.002)"
    by (simp add: model_costs_B_default MODELS_def)
  have 6: "model_costs_A ''gpt-4-0613'' = (0.03, 0.06)"
    by (simp add: model_costs_A_cases lower_def lower_char_def)
  show ?thesis using 1 2 3 4 5 6 by simp
qed

text \<open>
  C7, amended. For every turn emitted by either flattener, \<open>cost_usd\<close> is
  \<open>prompt_tokens / 1000 * input_price + completion_tokens / 1000 * output_price\<close> in
  floating point, rounded to 5 decimal places. Flattener A takes the price pair of the
  first test that the lower-cased model name passes (contains \<^verbatim>\<open>gpt-4\<close> and not
  \<^verbatim>\<open>turbo\<close>; contains \<^verbatim>\<open>gpt-4\<close>; \<^verbatim>\<open>gpt-3.5\<close>; \<^verbatim>\<open>claude-3\<close>; \<^verbatim>\<open>claude\<close>; \<^verbatim>\<open>deepseek\<close>) and the
  default pair (0.001, 0.002) when it passes none. Flattener B takes the pair its own
  table holds for the exact model name and the same default pair for any other name.
\<close>

theorem C7_cost:
  "(outfile (main_A rnd randint fromisoformat dataset_A g) = Some rows_A \<longrightarrow>
      (\<forall>t \<in> set rows_A.
         cost_usd t =
           py_round rnd
             (fadd rnd
                (fmul rnd (truediv rnd (prompt_tokens t) 1000)
                   (float_lit rnd (fst (model_costs_A (model t)))))
                (fmul rnd (truediv rnd (completion_tokens t) 1000)
                   (float_lit rnd (snd (model_costs_A (model t)))))) 5)) \<and>
   (outfile (main_B rnd randint choice load_dataset environ argv g) = Some rows_B \<longrightarrow>
      (\<forall>t \<in> set rows_B.
         cost_usd t =
           py_round rnd
             (fadd rnd
                (fmul rnd (truediv rnd (prompt_tokens t) 1000)
                   (float_lit rnd (fst (model_costs_B (model t)))))
                (fmul rnd (truediv rnd (completion_tokens t) 1000)
                   (float_lit rnd (snd (model_costs_B (model t)))))) 5)) \<and>
   (contains ''gpt-4'' (lower mdl) \<and> \<not> contains ''turbo'' (lower mdl) \<longrightarrow>
      model_costs_A mdl = (0.03, 0.06)) \<and>
   (contains ''gpt-4'' (lower mdl) \<and> contains ''turbo'' (lower mdl) \<longrightarrow>
      model_costs_A mdl = (0.01, 0.03)) \<and>
   (\<not> contains ''gpt-4'' (lower mdl) \<and> contains ''gpt-3.5'' (lower mdl) \<longrightarrow>
      model_costs_A mdl = (0.0015, 0.002)) \<and>
   (\<not> contains ''gpt-4'' (lower mdl) \<and> \<not> contains ''gpt-3.5'' (lower mdl) \<and>
    contains ''claude-3'' (lower mdl) \<longrightarrow>
      model_costs_A mdl = (0.003, 0.015)) \<and>
   (\<not> contains ''gpt-4'' (lower mdl) \<and> \<not> contains ''gpt-3.5'' (lower mdl) \<and>
    \<not> contains ''claude-3'' (lower mdl) \<and> contains ''claude'' (lower mdl) \<longrightarrow>
      model_costs_A mdl = (0.008, 0.024)) \<and>
   (\<not> contains ''gpt-4'' (lower mdl) \<and> \<not> contains ''gpt-3.5'' (lower mdl) \<and>
    \<not> contains ''claude'' (lower mdl) \<and> contains ''deepseek'' (lower mdl) \<longrightarrow>
      model_costs_A mdl = (0.0014, 0.0028)) \<and>
   (\<not> contains ''gpt-4'' (lower mdl) \<and> \<not> contains ''gpt-3.5'' (lower mdl) \<and>
    \<not> contains ''claude'' (lower mdl) \<and> \<not> contains ''deepseek'' (lower mdl) \<longrightarrow>
      model_costs_A mdl = (0.001, 0.002)) \<and>
   model_costs_B ''gpt-4'' = (0.03, 0.06) \<and>
   model_costs_B ''gpt-3.5-turbo'' = (0.0015, 0.002) \<and>
   model_costs_B ''claude-2'' = (0.008, 0.024) \<and>
   model_costs_B ''claude-instant'' = (0.0016, 0.0055) \<and>
   (mdl \<notin> set MODELS \<longrightarrow> model_costs_B mdl = (0.001, 0.002))"
  (is "?PA \<and> ?PB \<and> ?PT")
proof -
  have A: "cost_usd t =
           py_round rnd
             (fadd rnd
                (fmul rnd (truediv rnd (prompt_tokens t) 1000)
                   (float_lit rnd (fst (model_costs_A (model t)))))
                (fmul rnd (truediv rnd (completion_tokens t) 1000)
                   (float_lit rnd (snd (model_costs_A (model t)))))) 5"
    if "outfile (main_A rnd randint fromisoformat dataset_A g) = Some rows_A" "t \<in> set rows_A" for t
  proof -
    have "turn_shape rnd (calculate_cost_A rnd) t" using main_A_shape[OF that(1)] that(2) by simp
    then show ?thesis by (simp add: turn_shape_def calculate_cost_A_def cost_of_def)
  qed
  have B: "cost_usd t =
           py_round rnd
             (fadd rnd
                (fmul rnd (truediv rnd (prompt_tokens t) 1000)
                   (float_lit rnd (fst (model_costs_B (model t)))))
                (fmul rnd (truediv rnd (completion_tokens t) 1000)
                   (float_lit rnd (snd (model_costs_B (model t)))))) 5"
    if "outfile (main_B rnd randint choice load_dataset environ argv g) = Some rows_B" "t \<in> set rows_B" for t
  proof -
    have "turn_shape rnd (calculate_cost_B rnd) t" using main_B_shape[OF that(1)] that(2) by simp
    then show ?thesis by (simp add: turn_shape_def calculate_cost_B_def cost_of_def)
  qed
  have c3: "contains ''claude-3'' k \<Longrightarrow> contains ''claude'' k" for k
    by (induction k) (auto simp: prefix_def)
  have L: "(contains ''gpt-4'' (lower mdl) \<and> \<not> contains ''turbo'' (lower mdl) \<longrightarrow>
      model_costs_A mdl = (0.03, 0.06)) \<and>
   (contains ''gpt-4'' (lower mdl) \<and> contains ''turbo'' (lower mdl) \<longrightarrow>
      model_costs_A mdl = (0.01, 0.03)) \<and>
   (\<not> contains ''gpt-4'' (lower mdl) \<and> contains ''gpt-3.5'' (lower mdl) \<longrightarrow>
      model_costs_A mdl = (0.0015, 0.002)) \<and>
   (\<not> contains ''gpt-4'' (lower mdl) \<and> \<not> contains ''gpt-3.5'' (lower mdl) \<and>
    contains ''claude-3'' (lower mdl) \<longrightarrow>
      model_costs_A mdl = (0.003, 0.015)) \<and>
   (\<not> contains ''gpt-4'' (lower mdl) \<and> \<not> contains ''gpt-3.5'' (lower mdl) \<and>
    \<not> contains ''claude-3'' (lower mdl) \<and> contains ''claude'' (lower mdl) \<longrightarrow>
      model_costs_A mdl = (0.008, 0.024)) \<and>
   (\<not> contains ''gpt-4'' (lower mdl) \<and> \<not> contains ''gpt-3.5'' (lower mdl) \<and>
    \<not> contains ''claude'' (lower mdl) \<and> contains ''deepseek'' (lower mdl) \<longrightarrow>
      model_costs_A mdl = (0.0014, 0.0028)) \<and>
   (\<not> contains ''gpt-4'' (lower mdl) \<and> \<not> contains ''gpt-3.5'' (lower mdl) \<and>
    \<not> contains ''claude'' (lower mdl) \<and> \<not> contains ''deepseek'' (lower mdl) \<longrightarrow>
      model_costs_A mdl = (0.001, 0.002))"
    using c3[of "lower mdl"] by (simp add: model_costs_A_cases)
  have PA: ?PA using A by blast
  have PB: ?PB using B by blast
  have PT: ?PT using L model_costs_B_table model_costs_B_default[of mdl] by simp
  show ?thesis by (rule conjI, rule PA, rule conjI, rule PB, rule PT)
qed

theorem C7_cost_witness:
  "outfile (main_A exact draw_low no_parse example_dataset_A 0) = Some example_rows_A \<and>
   cost_usd (hd example_rows_A) =
     py_round exact
       (fadd exact
          (fmul exact (truediv exact (prompt_tokens (hd example_rows_A)) 1000)
             (float_lit exact (fst (model_costs_A (model (hd example_rows_A))))))
          (fmul exact (truediv exact (completion_tokens (hd example_rows_A)) 1000)
             (float_lit exact (snd (model_costs_A (model (hd example_rows_A))))))) 5 \<and>
   outfile (main_B exact draw_low pick_last (\<lambda>tok. example_dataset_B) Map.empty
              [''prog'', ''hf_tok''] 0) = Some example_rows_B \<and>
   cost_usd (hd example_rows_B) =
     py_round exact
       (fadd exact
          (fmul exact (truediv exact (prompt_tokens (hd example_rows_B)) 1000)
             (float_lit exact (fst (model_costs_B (model (hd example_rows_B))))))
          (fmul exact (truediv exact (completion_tokens (hd example_rows_B)) 1000)
             (float_lit exact (snd (model_costs_B (model (hd example_rows_B))))))) 5 \<and>
   contains ''gpt-4'' (lower ''gpt-4'') \<and> \<not> contains ''turbo'' (lower ''gpt-4'') \<and>
   model_costs_A ''gpt-4'' = (0.03, 0.06) \<and>
   contains ''gpt-4'' (lower ''GPT-4-Turbo'') \<and> contains ''turbo'' (lower ''GPT-4-Turbo'') \<and>
   model_costs_A ''GPT-4-Turbo'' = (0.01, 0.03) \<and>
   \<not> contains ''gpt-4'' (lower ''gpt-3.5-turbo'') \<and> contains ''gpt-3.5'' (lower ''gpt-3.5-turbo'') \<and>
   model_costs_A ''gpt-3.5-turbo'' = (0.0015, 0.002) \<and>
   \<not> contains ''gpt-4'' (lower ''claude-3-opus'') \<and> \<not> contains ''gpt-3.5'' (lower ''claude-3-opus'') \<and> contains ''claude-3'' (lower ''claude-3-opus'') \<and>
   model_costs_A ''claude-3-opus'' = (0.003, 0.015) \<and>
   \<not> contains ''gpt-4'' (lower ''claude-instant'') \<and> \<not> contains ''gpt-3.5'' (lower ''claude-instant'') \<and> \<not> contains ''claude-3'' (lower ''claude-instant'') \<and> contains ''claude'' (lower ''claude-instant'') \<and>
   model_costs_A ''claude-instant'' = (0.008, 0.024) \<and>
   \<not> contains ''gpt-4'' (lower ''deepseek-r1'') \<and> \<not> contains ''gpt-3.5'' (lower ''deepseek-r1'') \<and> \<not> contains ''claude'' (lower ''deepseek-r1'') \<and> contains ''deepseek'' (lower ''deepseek-r1'') \<and>
   model_costs_A ''deepseek-r1'' = (0.0014, 0.0028) \<and>
   \<not> contains ''gpt-4'' (lower ''unknown'') \<and> \<not> contains ''gpt-3.5'' (lower ''unknown'') \<and> \<not> contains ''claude'' (lower ''unknown'') \<and> \<not> contains ''deepseek'' (lower ''unknown'') \<and>
   model_costs_A ''unknown'' = (0.001, 0.002) \<and>
   ''unknown'' \<notin> set MODELS \<and>
   model_costs_B ''unknown'' = (0.001, 0.002)"
proof -
  have a: "outfile (main_A exact draw_low no_parse example_dataset_A 0) = Some example_rows_A"
    by code_simp
  have b: "outfile (main_B exact draw_low pick_last (\<lambda>tok. example_dataset_B) Map.empty
                      [''prog'', ''hf_tok''] 0) = Some example_rows_B"
    by code_simp
  have ha: "hd example_rows_A \<in> set example_rows_A" by (simp add: example_rows_A_def)
  have hb: "hd example_rows_B \<in> set example_rows_B" by (simp add: example_rows_B_def)
  note CA = C7_cost[of exact draw_low no_parse example_dataset_A 0 example_rows_A, THEN conjunct1]
  note CB = C7_cost[where rnd = exact and randint = draw_low and choice = pick_last
      and load_dataset = "\<lambda>tok. example_dataset_B" and environ = Map.empty
      and argv = "[''prog'', ''hf_tok'']" and g = 0 and rows_B = example_rows_B,
      THEN conjunct2, THEN conjunct1]
  have ca: "cost_usd (hd example_rows_A) =
     py_round exact
       (fadd exact
          (fmul exact (truediv exact (prompt_tokens (hd example_rows_A)) 1000)
             (float_lit exact (fst (model_costs_A (model (hd example_rows_A))))))
          (fmul exact (truediv exact (completion_tokens (hd example_rows_A)) 1000)
             (float_lit exact (snd (model_costs_A (model (hd example_rows_A))))))) 5"
    using CA a ha by blast
  have cb: "cost_usd (hd example_rows_B) =
     py_round exact
       (fadd exact
          (fmul exact (truediv exact (prompt_tokens (hd example_rows_B)) 1000)
             (float_lit exact (fst (model_costs_B (model (hd example_rows_B))))))
          (fmul exact (truediv exact (completion_tokens (hd example_rows_B)) 1000)
             (float_lit exact (snd (model_costs_B (model (hd example_rows_B))))))) 5"
    using CB b hb by blast
  have h1: "contains ''gpt-4'' (lower ''gpt-4'') \<and> \<not> contains ''turbo'' (lower ''gpt-4'')"
    by code_simp
  have m1: "model_costs_A ''gpt-4'' = (0.03, 0.06)"
    by (rule mp[OF C7_cost[where mdl = "''gpt-4''", THEN conjunct2, THEN conjunct2, THEN conjunct1] h1])
  have h2: "contains ''gpt-4'' (lower ''GPT-4-Turbo'') \<and> contains ''turbo'' (lower ''GPT-4-Turbo'')"
    by code_simp
  have m2: "model_costs_A ''GPT-4-Turbo'' = (0.01, 0.03)"
    by (rule mp[OF C7_cost[where mdl = "''GPT-4-Turbo''", THEN conjunct2, THEN conjunct2, THEN conjunct2, THEN conjunct1] h2])
  have h3: "\<not> contains ''gpt-4'' (lower ''gpt-3.5-turbo'') \<and> contains ''gpt-3.5'' (lower ''gpt-3.5-turbo'')"
    by code_simp
  have m3: "model_costs_A ''gpt-3.5-turbo'' = (0.0015, 0.002)"
    by (rule mp[OF C7_cost[where mdl = "''gpt-3.5-turbo''", THEN conjunct2, THEN conjunct2, THEN conjunct2, THEN conjunct2, THEN conjunct1] h3])
  have h4: "\<not> contains ''gpt-4'' (lower ''claude-3-opus'') \<and> \<not> contains ''gpt-3.5'' (lower ''claude-3-opus'') \<and> contains ''claude-3'' (lower ''claude-3-opus'')"
    by code_simp
  have m4: "model_costs_A ''claude-3-opus'' = (0.003, 0.015)"
    by (rule mp[OF C7_cost[where mdl = "''claude-3-opus''", THEN conjunct2, THEN conjunct2, THEN conjunct2, THEN conjunct2, THEN conjunct2, THEN conjunct1] h4])
  have h5: "\<not> contains ''gpt-4'' (lower ''claude-instant'') \<and> \<not> contains ''gpt-3.5'' (lower ''claude-instant'') \<and> \<not> contains ''claude-3'' (lower ''claude-instant'') \<and> contains ''claude'' (lower ''claude-instant'')"
    by code_simp
  have m5: "model_costs_A ''claude-instant'' = (0.008, 0.024)"
    by (rule mp[OF C7_cost[where mdl = "''claude-instant''", THEN conjunct2, THEN conjunct2, THEN conjunct2, THEN conjunct2, THEN conjunct2, THEN conjunct2, THEN conjunct1] h5])
  have h6: "\<not> contains ''gpt-4'' (lower ''deepseek-r1'') \<and> \<not> contains ''gpt-3.5'' (lower ''deepseek-r1'') \<and> \<not> contains ''claude'' (lower ''deepseek-r1'') \<and> contains ''deepseek'' (lower ''deepseek-r1'')"
    by code_simp
  have m6: "model_costs_A ''deepseek-r1'' = (0.0014, 0.0028)"
    by (rule mp[OF C7_cost[where mdl = "''deepseek-r1''", THEN conjunct2, THEN conjunct2, THEN conjunct2, THEN conjunct2, THEN conjunct2, THEN conjunct2, THEN conjunct2, THEN conjunct1] h6])
  have h7: "\<not> contains ''gpt-4'' (lower ''unknown'') \<and> \<not> contains ''gpt-3.5'' (lower ''unknown'') \<and> \<not> contains ''claude'' (lower ''unknown'') \<and> \<not> contains ''deepseek'' (lower ''unknown'')"
    by code_simp
  have m7: "model_costs_A ''unknown'' = (0.001, 0.002)"
    by (rule mp[OF C7_cost[where mdl = "''unknown''", THEN conjunct2, THEN conjunct2, THEN conjunct2, THEN conjunct2, THEN conjunct2, THEN conjunct2, THEN conjunct2, THEN conjunct2, THEN conjunct1] h7])
  have h8: "''unknown'' \<notin> set MODELS" by (simp add: MODELS_def)
  have m8: "model_costs_B ''unknown'' = (0.001, 0.002)"
    by (rule mp[OF C7_cost[where mdl = "''unknown''", THEN conjunct2, THEN conjunct2,
          THEN conjunct2, THEN conjunct2, THEN conjunct2, THEN conjunct2, THEN conjunct2,
          THEN conjunct2, THEN conjunct2, THEN conjunct2, THEN conjunct2, THEN conjunct2,
          THEN conjunct2] h8])
  show ?thesis
    by (intro conjI a b ca cb h8 m8 h1[THEN conjunct1] m1 h2[THEN conjunct1] m2 h3[THEN conjunct1] m3 h4[THEN conjunct1] m4 h5[THEN conjunct1] m5 h6[THEN conjunct1] m6 h7[THEN conjunct1] m7)
       (use h1 h2 h3 h4 h5 h6 h7 in simp_all)
qed

text \<open>
  C8, as stated, fails for flattener A. Its session id is the record's
  \<^verbatim>\<open>conversation_hash\<close>, and nothing keeps two records of the dataset from carrying the
  same one: then the rows of that session come from two records, each with its own base
  timestamp. Here one record occurs twice, and the session's two rows carry the same
  timestamp.
\<close>

theorem C8_duplicate_hash_counterexample:
  "outfile (main_A exact draw_low parse_midnight duplicate_dataset_A 0) = Some duplicate_rows_A \<and>
   session_id (duplicate_rows_A ! 0) = session_id (duplicate_rows_A ! 1) \<and>
   \<not> timestamp (duplicate_rows_A ! 0) < timestamp (duplicate_rows_A ! 1)"
proof -
  have "outfile (main_A exact draw_low parse_midnight duplicate_dataset_A 0) = Some duplicate_rows_A"
    by code_simp
  then show ?thesis by (simp add: duplicate_rows_A_def)
qed

text \<open>
  C8, amended. The turns flattener A extracts from one record carry the record's session
  id and, in the order emitted, the base timestamp plus 30 seconds times the 1-based
  sequence number. Within every session id of a table written by flattener A, provided
  no two records of the dataset have the same session id, and within every session id
  of a table written by flattener B, rows are ordered by strictly increasing timestamp:
  in A a row is 30 seconds after the row before it, in B a later row of the session is
  one, two or three minutes after an earlier one. For in B the turn of pair index \<open>k\<close>
  is \<open>k - 1\<close> minutes after the session timestamp: a step of the loop over the pairs
  appends nothing or that one turn, and every row of the table written is the turn of
  a pair \<open>k\<close> from 1 to 4 of a record \<open>idx\<close> of the dataset, whose session timestamp is
  10:00 on 15 January 2024 plus \<open>5 * idx\<close> minutes.
\<close>

theorem C8_timestamps:
  "(extract_turns_from_messages rnd randint ms ch ip mdl base g = Inr (ts, g') \<longrightarrow>
      (\<forall>k < length ts.
         session_id (ts ! k) = ch \<and> timestamp (ts ! k) = base + 30 * (int k + 1))) \<and>
   (outfile (main_A rnd randint fromisoformat dataset_A g) = Some rows_A \<and>
    distinct (map session_of_A (enumerate0 dataset_A)) \<longrightarrow>
      (\<forall>i j. i < j \<and> j < length rows_A \<and> session_id (rows_A ! i) = session_id (rows_A ! j) \<longrightarrow>
         timestamp (rows_A ! i) < timestamp (rows_A ! j) \<and>
         timestamp (rows_A ! j) = timestamp (rows_A ! i) + 30 * int (j - i))) \<and>
   (outfile (main_B rnd randint choice load_dataset environ argv g) = Some rows_B \<longrightarrow>
      (\<forall>i j. i < j \<and> j < length rows_B \<and> session_id (rows_B ! i) = session_id (rows_B ! j) \<longrightarrow>
         timestamp (rows_B ! i) < timestamp (rows_B ! j) \<and>
         (timestamp (rows_B ! j) = timestamp (rows_B ! i) + 60 \<or>
          timestamp (rows_B ! j) = timestamp (rows_B ! i) + 120 \<or>
          timestamp (rows_B ! j) = timestamp (rows_B ! i) + 180))) \<and>
   (pair_step rnd randint row sid uid mdl' session_timestamp k st = Inr st' \<longrightarrow>
      output_rows st' = output_rows st \<or>
      (\<exists>t. output_rows st' = output_rows st @ [t] \<and> turn_of_pair row sid session_timestamp k t)) \<and>
   (outfile (main_B rnd randint choice load_dataset environ argv g) = Some rows_B \<longrightarrow>
      (\<forall>t \<in> set rows_B. \<exists>idx k.
         idx < length (load_dataset (the (get_token environ argv))) \<and> 1 \<le> k \<and> k \<le> 4 \<and>
         turn_of_pair (load_dataset (the (get_token environ argv)) ! idx) (session_of_B idx)
           (datetime_2024_01_15_10 + int idx * 5 * 60) k t))"
  (is "?E \<and> ?A \<and> ?B \<and> ?P \<and> ?R")
proof -
  have E: ?E by (rule impI) (rule extract_turns_numbered)
  have A: ?A
  proof (intro impI allI)
    fix i j
    assume h: "outfile (main_A rnd randint fromisoformat dataset_A g) = Some rows_A \<and>
               distinct (map session_of_A (enumerate0 dataset_A))"
      and ij: "i < j \<and> j < length rows_A \<and> session_id (rows_A ! i) = session_id (rows_A ! j)"
    have "spaced spacing_A rows_A" by (rule main_A_spaced[OF conjunct1[OF h] conjunct2[OF h]])
    then have e: "timestamp (rows_A ! j) = timestamp (rows_A ! i) + 30 * int (j - i)"
      using ij unfolding spaced_def spacing_A_def by blast
    then show "timestamp (rows_A ! i) < timestamp (rows_A ! j) \<and>
               timestamp (rows_A ! j) = timestamp (rows_A ! i) + 30 * int (j - i)"
      using ij by simp
  qed
  have B: ?B
  proof (intro impI allI)
    fix i j
    assume h: "outfile (main_B rnd randint choice load_dataset environ argv g) = Some rows_B"
      and ij: "i < j \<and> j < length rows_B \<and> session_id (rows_B ! i) = session_id (rows_B ! j)"
    have "spaced spacing_B rows_B" using h by (rule main_B_spaced)
    then have e: "timestamp (rows_B ! j) = timestamp (rows_B ! i) + 60 \<or>
          timestamp (rows_B ! j) = timestamp (rows_B ! i) + 120 \<or>
          timestamp (rows_B ! j) = timestamp (rows_B ! i) + 180"
      using ij unfolding spaced_def spacing_B_def by blast
    then show "timestamp (rows_B ! i) < timestamp (rows_B ! j) \<and>
         (timestamp (rows_B ! j) = timestamp (rows_B ! i) + 60 \<or>
          timestamp (rows_B ! j) = timestamp (rows_B ! i) + 120 \<or>
          timestamp (rows_B ! j) = timestamp (rows_B ! i) + 180)"
      by auto
  qed
  have P: ?P by (rule impI) (rule pair_step_origin)
  have R: ?R by (rule impI) (rule main_B_origin)
  show ?thesis
    by (rule conjI, rule E, rule conjI, rule A, rule conjI, rule B, rule conjI, rule P, rule R)
qed

theorem C8_timestamps_witness:
  "extract_turns_from_messages exact draw_low
     [user_says ''a'', assistant_says ''b'', user_says ''c'', assistant_says ''x'']
     ''h1'' ''ip1'' ''gpt-4'' 100 0 =
     Inr (map (\<lambda>t. t\<lparr>turn_id := None, timestamp := timestamp t - 63839663900\<rparr>) two_turn_rows_A, 4) \<and>
   outfile (main_A exact draw_low no_parse two_turn_dataset_A 0) = Some two_turn_rows_A \<and>
   distinct (map session_of_A (enumerate0 two_turn_dataset_A)) \<and>
   length two_turn_rows_A = 2 \<and>
   session_id (two_turn_rows_A ! 0) = session_id (two_turn_rows_A ! 1) \<and>
   timestamp (two_turn_rows_A ! 0) < timestamp (two_turn_rows_A ! 1) \<and>
   timestamp (two_turn_rows_A ! 1) = timestamp (two_turn_rows_A ! 0) + 30 \<and>
   outfile (main_B exact draw_low pick_last (\<lambda>tok. two_turn_dataset_B) Map.empty
              [''prog'', ''hf_tok''] 0) = Some two_turn_rows_B \<and>
   length two_turn_rows_B = 2 \<and>
   session_id (two_turn_rows_B ! 0) = session_id (two_turn_rows_B ! 1) \<and>
   timestamp (two_turn_rows_B ! 0) < timestamp (two_turn_rows_B ! 1) \<and>
   timestamp (two_turn_rows_B ! 1) = timestamp (two_turn_rows_B ! 0) + 120 \<and>
   pair_step exact draw_low (two_turn_dataset_B ! 0) ''sess_00001'' ''user_100'' ''claude-instant''
     63840909600 3 \<lparr>output_rows = [two_turn_rows_B ! 0], turn_id_counter = 2, rng = 7\<rparr> =
     Inr \<lparr>output_rows = two_turn_rows_B, turn_id_counter = 3, rng = 9\<rparr> \<and>
   turn_of_pair (two_turn_dataset_B ! 0) ''sess_00001'' 63840909600 3 (two_turn_rows_B ! 1) \<and>
   timestamp (two_turn_rows_B ! 1) = 63840909600 + (3 - 1) * 60 \<and>
   (\<exists>idx k. idx < length two_turn_dataset_B \<and> 1 \<le> k \<and> k \<le> 4 \<and>
      turn_of_pair (two_turn_dataset_B ! idx) (session_of_B idx)
        (datetime_2024_01_15_10 + int idx * 5 * 60) k (two_turn_rows_B ! 1))"
proof -
  let ?ts = "map (\<lambda>t. t\<lparr>turn_id := None, timestamp := timestamp t - 63839663900\<rparr>) two_turn_rows_A"
  let ?st = "\<lparr>output_rows = [two_turn_rows_B ! 0], turn_id_counter = 2, rng = 7::nat\<rparr>"
  let ?st' = "\<lparr>output_rows = two_turn_rows_B, turn_id_counter = 3, rng = 9::nat\<rparr>"
  have e: "extract_turns_from_messages exact draw_low
     [user_says ''a'', assistant_says ''b'', user_says ''c'', assistant_says ''x'']
     ''h1'' ''ip1'' ''gpt-4'' 100 0 = Inr (?ts, 4)"
    by code_simp
  have a: "outfile (main_A exact draw_low no_parse two_turn_dataset_A 0) = Some two_turn_rows_A"
    by code_simp
  have d: "distinct (map session_of_A (enumerate0 two_turn_dataset_A))"
    by code_simp
  have b: "outfile (main_B exact draw_low pick_last (\<lambda>tok. two_turn_dataset_B) Map.empty
              [''prog'', ''hf_tok''] 0) = Some two_turn_rows_B"
    by code_simp
  have p: "pair_step exact draw_low (two_turn_dataset_B ! 0) ''sess_00001'' ''user_100'' ''claude-instant''
     63840909600 3 ?st = Inr ?st'"
    by code_simp
  have tok: "the (get_token Map.empty [''prog'', ''hf_tok'']) = ''hf_tok''"
    by (simp add: get_token_def)
  have la: "length two_turn_rows_A = 2" and sa: "session_id (two_turn_rows_A ! 0) = session_id (two_turn_rows_A ! 1)"
    by (simp_all add: two_turn_rows_A_def)
  have lb: "length two_turn_rows_B = 2" and sb: "session_id (two_turn_rows_B ! 0) = session_id (two_turn_rows_B ! 1)"
    by (simp_all add: two_turn_rows_B_def)
  have m: "two_turn_rows_B ! 1 \<in> set two_turn_rows_B" by (simp add: two_turn_rows_B_def)
  note T = C8_timestamps[where rnd = exact and randint = draw_low
      and ms = "[user_says ''a'', assistant_says ''b'', user_says ''c'', assistant_says ''x'']"
      and ch = "''h1''" and ip = "''ip1''" and mdl = "''gpt-4''" and mdl' = "''claude-instant''" and base = 100 and g = 0
      and ts = ?ts and g' = 4 and fromisoformat = no_parse and dataset_A = two_turn_dataset_A
      and rows_A = two_turn_rows_A and choice = pick_last and load_dataset = "\<lambda>tok. two_turn_dataset_B"
      and environ = Map.empty and argv = "[''prog'', ''hf_tok'']" and rows_B = two_turn_rows_B
      and row = "two_turn_dataset_B ! 0" and sid = "''sess_00001''" and uid = "''user_100''"
      and session_timestamp = 63840909600 and k = 3 and st = ?st and st' = ?st']
  have A: "timestamp (two_turn_rows_A ! 0) < timestamp (two_turn_rows_A ! 1) \<and>
           timestamp (two_turn_rows_A ! 1) = timestamp (two_turn_rows_A ! 0) + 30 * int (1 - 0)"
    using T[THEN conjunct2, THEN conjunct1, rule_format, of 0 1] a d la sa by simp
  have A2: "timestamp (two_turn_rows_A ! 1) = timestamp (two_turn_rows_A ! 0) + 30"
    using A by simp
  have B: "timestamp (two_turn_rows_B ! 0) < timestamp (two_turn_rows_B ! 1)"
    using T[THEN conjunct2, THEN conjunct2, THEN conjunct1, rule_format, of 0 1] b lb sb by simp
  have B2: "timestamp (two_turn_rows_B ! 1) = timestamp (two_turn_rows_B ! 0) + 120"
    by (simp add: two_turn_rows_B_def)
  have "output_rows ?st' = output_rows ?st \<or>
      (\<exists>t. output_rows ?st' = output_rows ?st @ [t] \<and>
           turn_of_pair (two_turn_dataset_B ! 0) ''sess_00001'' 63840909600 3 t)"
    using T[THEN conjunct2, THEN conjunct2, THEN conjunct2, THEN conjunct1, rule_format, OF p] .
  then have P: "turn_of_pair (two_turn_dataset_B ! 0) ''sess_00001'' 63840909600 3 (two_turn_rows_B ! 1)"
    by (auto simp: two_turn_rows_B_def)
  then have P2: "timestamp (two_turn_rows_B ! 1) = 63840909600 + (3 - 1) * 60"
    by (simp add: turn_of_pair_def)
  have R: "\<exists>idx k. idx < length two_turn_dataset_B \<and> 1 \<le> k \<and> k \<le> 4 \<and>
      turn_of_pair (two_turn_dataset_B ! idx) (session_of_B idx)
        (datetime_2024_01_15_10 + int idx * 5 * 60) k (two_turn_rows_B ! 1)"
    using T[THEN conjunct2, THEN conjunct2, THEN conjunct2, THEN conjunct2, rule_format, OF b m]
    unfolding tok .
  show ?thesis
    by (intro conjI e a d la sa A[THEN conjunct1] A2 b lb sb B B2 p P P2 R)
qed

text \<open>
  C9, as stated, fails twice. A credential supplied through the environment does not
  keep flattener B running when the process also has an argument that is empty: the
  argument replaces the environment's token, and the run exits with status 1. And the
  missing credential is not the only condition that ends a run abnormally: on an empty
  dataset flattener A writes its table and then raises \<^verbatim>\<open>ZeroDivisionError\<close> in its last
  line, and the sampler raises \<^verbatim>\<open>ValueError\<close> on a turn id that is no integer.
\<close>

theorem C9_credential_counterexample:
  "truthy (environ_with_token ''HF_TOKEN'') \<and>
   outcome (main_B exact draw_low pick_last (\<lambda>tok. example_dataset_B) environ_with_token
              [''prog'', []] 0) = SysExit 1 \<and>
   outcome (main_A exact draw_low no_parse [] 0) = Raised ZeroDivisionError \<and>
   outcome (main_subset int_of_digits (\<lambda>n. 0) sample_first set_iter_fwd
              [\<lparr>row_turn_id = ''x1'', row_session_id = ''a'', row_user_id = ''u'',
                row_timestamp = ''t'', row_user_message = ''q'', row_assistant_message = ''r'',
                row_model = ''m'', row_prompt_tokens = ''0'', row_completion_tokens = ''0'',
                row_total_tokens = ''0'', row_latency_ms = ''1'', row_cost_usd = ''0''\<rparr>]) =
     Raised ValueError"
proof -
  have 1: "truthy (environ_with_token ''HF_TOKEN'')" by code_simp
  have 2: "outcome (main_B exact draw_low pick_last (\<lambda>tok. example_dataset_B) environ_with_token
              [''prog'', []] 0) = SysExit 1" by code_simp
  have 3: "outcome (main_A exact draw_low no_parse [] 0) = Raised ZeroDivisionError" by code_simp
  have 4: "outcome (main_subset int_of_digits (\<lambda>n. 0) sample_first set_iter_fwd
              [\<lparr>row_turn_id = ''x1'', row_session_id = ''a'', row_user_id = ''u'',
                row_timestamp = ''t'', row_user_message = ''q'', row_assistant_message = ''r'',
                row_model = ''m'', row_prompt_tokens = ''0'', row_completion_tokens = ''0'',
                row_total_tokens = ''0'', row_latency_ms = ''1'', row_cost_usd = ''0''\<rparr>]) =
     Raised ValueError" by code_simp
  show ?thesis using 1 2 3 4 by simp
qed

text \<open>
  C9, amended. Flattener B ends with exit status 1 and the remediation message, before
  it loads or processes any data, if and only if its effective credential is absent or
  empty; the effective credential is the first process argument whenever the process
  has one, and the environment variable \<^verbatim>\<open>HF_TOKEN\<close> otherwise. The run then writes no
  table and is the same whatever the hub would return. This test is the only call of
  \<^verbatim>\<open>sys.exit\<close> in the three scripts: no run of flattener A or of the sampler, and no run
  of flattener B with a credential, ends by an exit status of the script's choosing.
\<close>

theorem C9_credential:
  "(outcome (main_B rnd randint choice load_dataset environ argv g) = SysExit 1 \<longleftrightarrow>
      \<not> truthy (get_token environ argv)) \<and>
   get_token environ argv = (if 1 < length argv then Some (argv ! 1) else environ ''HF_TOKEN'') \<and>
   (\<not> truthy (get_token environ argv) \<longrightarrow>
      main_B rnd randint choice load_dataset environ argv g =
        \<lparr>outfile = None, outcome = SysExit 1, printed = token_help\<rparr>) \<and>
   (truthy (get_token environ argv) \<longrightarrow>
      outcome (main_B rnd randint choice load_dataset environ argv g) \<noteq> SysExit n) \<and>
   outcome (main_A rnd randint fromisoformat dataset_A g) \<noteq> SysExit n \<and>
   outcome (main_subset py_int seed sample set_iter table) \<noteq> SysExit n"
proof (intro conjI impI)
  show "outcome (main_B rnd randint choice load_dataset environ argv g) = SysExit 1 \<longleftrightarrow>
      \<not> truthy (get_token environ argv)"
    using main_B_no_token[of environ argv rnd randint choice load_dataset g]
          main_B_token[of environ argv rnd randint choice load_dataset g 1]
    by auto
  show "get_token environ argv = (if 1 < length argv then Some (argv ! 1) else environ ''HF_TOKEN'')"
    by (simp add: get_token_def)
  show "main_B rnd randint choice load_dataset environ argv g =
        \<lparr>outfile = None, outcome = SysExit 1, printed = token_help\<rparr>"
    if "\<not> truthy (get_token environ argv)"
    using that by (rule main_B_no_token)
  show "outcome (main_B rnd randint choice load_dataset environ argv g) \<noteq> SysExit n"
    if "truthy (get_token environ argv)"
    using that by (rule main_B_token)
  show "outcome (main_A rnd randint fromisoformat dataset_A g) \<noteq> SysExit n"
    by (rule main_A_no_exit)
  show "outcome (main_subset py_int seed sample set_iter table) \<noteq> SysExit n"
    by (rule main_subset_no_exit)
qed

theorem C9_credential_witness:
  "\<not> truthy (get_token Map.empty [''prog'']) \<and>
   get_token Map.empty [''prog''] = None \<and>
   main_B exact draw_low pick_last (\<lambda>tok. example_dataset_B) Map.empty [''prog''] 0 =
     \<lparr>outfile = None, outcome = SysExit 1, printed = token_help\<rparr> \<and>
   truthy (get_token Map.empty [''prog'', ''hf_tok'']) \<and>
   get_token Map.empty [''prog'', ''hf_tok''] = Some ''hf_tok'' \<and>
   outcome (main_B exact draw_low pick_last (\<lambda>tok. example_dataset_B) Map.empty
              [''prog'', ''hf_tok''] 0) \<noteq> SysExit 1 \<and>
   truthy (get_token environ_with_token [''prog'']) \<and>
   get_token environ_with_token [''prog''] = Some ''hf_abc'' \<and>
   outcome (main_B exact draw_low pick_last (\<lambda>tok. example_dataset_B) environ_with_token
              [''prog''] 0) \<noteq> SysExit 1"
proof -
  have 1: "\<not> truthy (get_token Map.empty [''prog''])" by code_simp
  have 2: "truthy (get_token Map.empty [''prog'', ''hf_tok''])" by code_simp
  have 3: "truthy (get_token environ_with_token [''prog''])" by code_simp
  have 4: "get_token Map.empty [''prog''] = None" by code_simp
  have 5: "get_token Map.empty [''prog'', ''hf_tok''] = Some ''hf_tok''" by code_simp
  have 6: "get_token environ_with_token [''prog''] = Some ''hf_abc''" by code_simp
  note X = C9_credential[of exact draw_low pick_last "\<lambda>tok. example_dataset_B" Map.empty "[''prog'']" 0]
  note Y = C9_credential[of exact draw_low pick_last "\<lambda>tok. example_dataset_B" Map.empty
             "[''prog'', ''hf_tok'']" 0 1]
  note Z = C9_credential[of exact draw_low pick_last "\<lambda>tok. example_dataset_B" environ_with_token
             "[''prog'']" 0 1]
  have x: "main_B exact draw_low pick_last (\<lambda>tok. example_dataset_B) Map.empty [''prog''] 0 =
     \<lparr>outfile = None, outcome = SysExit 1, printed = token_help\<rparr>"
    using X 1 by blast
  have y: "outcome (main_B exact draw_low pick_last (\<lambda>tok. example_dataset_B) Map.empty
              [''prog'', ''hf_tok''] 0) \<noteq> SysExit 1"
    using Y 2 by blast
  have z: "outcome (main_B exact draw_low pick_last (\<lambda>tok. example_dataset_B) environ_with_token
              [''prog''] 0) \<noteq> SysExit 1"
    using Z 3 by blast
  show ?thesis by (intro conjI 1 2 3 4 5 6 x y z)
qed

text \<open>
  C10. In flattener A a message whose role is neither "user" nor "assistant", a missing
  role (which reads as the empty string) included, emits no turn and leaves the whole
  loop state, the pending user message with it, unchanged, exactly as a message with
  empty trimmed content does; so dropping all such messages from the list changes
  nothing in what \<^verbatim>\<open>extract_turns_from_messages\<close> returns.
\<close>

theorem C10_other_roles:
  "(role_of m \<noteq> ''user'' \<and> role_of m \<noteq> ''assistant'' \<longrightarrow>
      extract_step rnd randint ch ip mdl base m st = Inr st) \<and>
   (msg_role m = None \<longrightarrow> role_of m = [] \<and> extract_step rnd randint ch ip mdl base m st = Inr st) \<and>
   (content_of m = [] \<longrightarrow> extract_step rnd randint ch ip mdl base m st = Inr st) \<and>
   extract_turns_from_messages rnd randint
     (filter (\<lambda>m. role_of m = ''user'' \<or> role_of m = ''assistant'') ms) ch ip mdl base g =
   extract_turns_from_messages rnd randint ms ch ip mdl base g"
proof (intro conjI impI)
  assume "role_of m \<noteq> ''user'' \<and> role_of m \<noteq> ''assistant''"
  then show "extract_step rnd randint ch ip mdl base m st = Inr st"
    by (simp add: extract_step_other)
next
  assume "msg_role m = None"
  then show "role_of m = []" by (simp add: role_of_def)
next
  assume "msg_role m = None"
  then have "role_of m = []" by (simp add: role_of_def)
  then show "extract_step rnd randint ch ip mdl base m st = Inr st"
    by (simp add: extract_step_other)
next
  assume "content_of m = []"
  then show "extract_step rnd randint ch ip mdl base m st = Inr st"
    by (rule extract_step_skip)
next
  have "for_each (extract_step rnd randint ch ip mdl base)
          (filter (\<lambda>m. role_of m = ''user'' \<or> role_of m = ''assistant'') ms) s =
        for_each (extract_step rnd randint ch ip mdl base) ms s" for s
    by (rule for_each_filter) (simp add: extract_step_other)
  then show "extract_turns_from_messages rnd randint
     (filter (\<lambda>m. role_of m = ''user'' \<or> role_of m = ''assistant'') ms) ch ip mdl base g =
   extract_turns_from_messages rnd randint ms ch ip mdl base g"
    by (simp add: extract_turns_from_messages_def)
qed

theorem C10_other_roles_witness:
  "role_of (system_says ''be brief'') \<noteq> ''user'' \<and>
   role_of (system_says ''be brief'') \<noteq> ''assistant'' \<and>
   content_of (system_says ''be brief'') \<noteq> [] \<and>
   extract_step exact draw_low ''h1'' ''ip1'' ''gpt-4'' 100 (system_says ''be brief'') example_state =
     Inr example_state \<and>
   msg_role \<lparr>msg_role = None, msg_content = Some ''hi''\<rparr> = None \<and>
   extract_step exact draw_low ''h1'' ''ip1'' ''gpt-4'' 100
     \<lparr>msg_role = None, msg_content = Some ''hi''\<rparr> example_state = Inr example_state \<and>
   content_of (assistant_says ''  '') = [] \<and>
   extract_step exact draw_low ''h1'' ''ip1'' ''gpt-4'' 100 (assistant_says ''  '') example_state =
     Inr example_state"
proof -
  have 1: "role_of (system_says ''be brief'') \<noteq> ''user'' \<and>
           role_of (system_says ''be brief'') \<noteq> ''assistant''"
    by (simp add: role_of_def system_says_def)
  have 2: "content_of (system_says ''be brief'') \<noteq> []" by code_simp
  have 3: "msg_role \<lparr>msg_role = None, msg_content = Some ''hi''\<rparr> = None" by simp
  have 4: "content_of (assistant_says ''  '') = []" by code_simp
  from C10_other_roles[of "system_says ''be brief''" exact draw_low "''h1''" "''ip1''" "''gpt-4''" 100 example_state]
       C10_other_roles[of "\<lparr>msg_role = None, msg_content = Some ''hi''\<rparr>" exact draw_low "''h1''" "''ip1''" "''gpt-4''" 100 example_state]
       C10_other_roles[of "assistant_says ''  ''" exact draw_low "''h1''" "''ip1''" "''gpt-4''" 100 example_state]
       1 2 3 4
  show ?thesis by blast
qed

end
